(* ===== verification/Prelude.thy ===== *)
theory Prelude
  imports
    Main
    "HOL-Library.Word"
    "HOL-Library.Multiset"
    "HOL-Library.Char_ord"
    "HOL-Library.List_Lexorder"
    "HOL-Library.Product_Lexorder"
    "HOL-Library.AList"
begin

section \<open>Shared vocabulary and automation\<close>

text \<open>
  What every component of the development shares:
  \<^item> the fact collections (\<open>sql_simps\<close>, \<open>redis_laws\<close>, \<open>queue_simps\<close>, \<open>store_simps\<close>,
    \<open>string_simps\<close>) that carry the component proofs;
  \<^item> the outcome of a call to a service over the network (\<open>fault\<close>);
  \<^item> Go's signed 64-bit integers and Postgres' 32-bit \<open>INTEGER\<close> range;
  \<^item> the few functions of Go's \<open>strings\<close> package the repository calls;
  \<^item> the relational statements (\<open>SELECT\<close>, \<open>UPDATE\<close>, \<open>DELETE\<close> with a \<open>WHERE\<close>) that
    the SQL texts of \<^verbatim>\<open>src/internal/store\<close> are written in, over a table kept as the list
    of its rows, with the lemmas that reduce them to look-ups by primary key.
\<close>

named_theorems sql_simps \<open>relational statements as look-ups by primary key\<close>
named_theorems redis_laws \<open>equations of the documented Redis commands\<close>
named_theorems queue_simps \<open>effect of the work-queue operations on the queue's contents\<close>
named_theorems store_simps \<open>effect of the store's statements on one row\<close>
named_theorems string_simps \<open>Go string functions and the key prefixes\<close>

subsection \<open>Outcomes of a network call\<close>

text \<open>
  A call to Postgres or Redis can go through, can fail without having any effect, or can
  take effect and still be reported as failed (the reply is lost). Which of the three
  happens is not decided by the repository's code: it is a parameter, a script of outcomes
  consumed one call at a time. An exhausted script means a healthy connection.
\<close>

datatype fault = Delivered | Lost_request | Lost_reply

fun next_fault :: "fault list \<Rightarrow> fault \<times> fault list" where
  "next_fault [] = (Delivered, [])"
| "next_fault (f # fs) = (f, fs)"

subsection \<open>Machine integers\<close>

type_synonym i64 = "64 word" \<comment> \<open>Go's \<open>int\<close>, \<open>int64\<close> and \<open>time.Duration\<close>\<close>

definition wrap64 :: "int \<Rightarrow> int" where
  "wrap64 x = sint (word_of_int x :: i64)"

definition int4 :: "int \<Rightarrow> bool" where
  "int4 x \<longleftrightarrow> - (2 ^ 31) \<le> x \<and> x < 2 ^ 31"

lemma sint_word_of_int_i64:
  "- (2 ^ 63) \<le> x \<Longrightarrow> x < 2 ^ 63 \<Longrightarrow> sint (word_of_int x :: i64) = x"
  by (simp add: sint_sbintrunc' signed_take_bit_int_eq_self)

lemma wrap64_id: "- (2 ^ 63) \<le> x \<Longrightarrow> x < 2 ^ 63 \<Longrightarrow> wrap64 x = x"
  by (simp add: wrap64_def sint_word_of_int_i64)

lemma wrap64_Suc_int4 [simp]: "int4 x \<Longrightarrow> wrap64 (x + 1) = x + 1"
  by (rule wrap64_id) (auto simp: int4_def)

subsection \<open>Strings\<close>

text \<open>\<open>strings.HasPrefix\<close> and \<open>strings.TrimPrefix\<close>.\<close>

fun HasPrefix :: "string \<Rightarrow> string \<Rightarrow> bool" where
  "HasPrefix s [] = True"
| "HasPrefix [] (p # ps) = False"
| "HasPrefix (c # cs) (p # ps) = (c = p \<and> HasPrefix cs ps)"

definition TrimPrefix :: "string \<Rightarrow> string \<Rightarrow> string" where
  "TrimPrefix s p = (if HasPrefix s p then drop (length p) s else s)"

lemma HasPrefix_append [simp, string_simps]: "HasPrefix (p @ s) p"
  by (induction p) auto

lemma HasPrefix_iff: "HasPrefix s p \<longleftrightarrow> (\<exists>t. s = p @ t)"
  by (induction s p rule: HasPrefix.induct) auto

lemma TrimPrefix_append [simp, string_simps]: "TrimPrefix (p @ s) p = s"
  by (simp add: TrimPrefix_def)

subsection \<open>Relational statements over a list of rows\<close>

definition sql_update :: "('a \<Rightarrow> bool) \<Rightarrow> ('a \<Rightarrow> 'a) \<Rightarrow> 'a list \<Rightarrow> 'a list" where
  "sql_update p f rows = map (\<lambda>r. if p r then f r else r) rows"

definition sql_returning :: "('a \<Rightarrow> bool) \<Rightarrow> ('a \<Rightarrow> 'a) \<Rightarrow> 'a list \<Rightarrow> 'a list" where
  "sql_returning p f rows = map f (filter p rows)"

definition sql_delete :: "('a \<Rightarrow> bool) \<Rightarrow> 'a list \<Rightarrow> 'a list" where
  "sql_delete p rows = filter (\<lambda>r. \<not> p r) rows"

text \<open>\<open>pgx.Row.Scan\<close>: the first row of a result, or \<open>ErrNoRows\<close> (\<open>None\<close>).\<close>

fun first_row :: "'a list \<Rightarrow> 'a option" where
  "first_row [] = None"
| "first_row (r # rs) = Some r"

text \<open>The row with a given primary key.\<close>

definition row_by :: "('a \<Rightarrow> 'k) \<Rightarrow> 'k \<Rightarrow> 'a list \<Rightarrow> 'a option" where
  "row_by key k rows = find (\<lambda>r. key r = k) rows"

lemma row_by_Nil [simp]: "row_by key k [] = None"
  by (simp add: row_by_def)

lemma row_by_Cons [simp]:
  "row_by key k (r # rs) = (if key r = k then Some r else row_by key k rs)"
  by (simp add: row_by_def)

lemma row_by_append:
  "row_by key k (xs @ ys) =
     (case row_by key k xs of None \<Rightarrow> row_by key k ys | Some r \<Rightarrow> Some r)"
  by (induction xs) auto

lemma row_by_SomeD: "row_by key k rows = Some r \<Longrightarrow> r \<in> set rows \<and> key r = k"
  by (induction rows) (auto split: if_splits)

lemma row_by_None_iff: "row_by key k rows = None \<longleftrightarrow> k \<notin> key ` set rows"
  by (induction rows) auto

lemma row_by_Some_iff:
  "distinct (map key rows) \<Longrightarrow> row_by key k rows = Some r \<longleftrightarrow> r \<in> set rows \<and> key r = k"
  by (induction rows) (auto simp: image_iff)

lemma row_by_update [sql_simps]:
  "(\<And>r. key (f r) = key r) \<Longrightarrow>
   row_by key k (sql_update p f rows) =
     map_option (\<lambda>r. if p r then f r else r) (row_by key k rows)"
  by (induction rows) (auto simp: sql_update_def)

lemma map_key_update [sql_simps]:
  "(\<And>r. key (f r) = key r) \<Longrightarrow> map key (sql_update p f rows) = map key rows"
  by (simp add: sql_update_def)

lemma set_update: "set (sql_update p f rows) = f ` {r \<in> set rows. p r} \<union> {r \<in> set rows. \<not> p r}"
  by (auto simp: sql_update_def)

lemma filter_by_key [sql_simps]:
  "distinct (map key rows) \<Longrightarrow>
   filter (\<lambda>r. key r = k \<and> q r) rows =
     (case row_by key k rows of None \<Rightarrow> [] | Some r \<Rightarrow> if q r then [r] else [])"
proof (induction rows)
  case Nil
  then show ?case by simp
next
  case (Cons r rs)
  show ?case
  proof (cases "key r = k")
    case True
    with Cons.prems have "row_by key k rs = None"
      by (auto simp: row_by_None_iff)
    with True Cons show ?thesis by simp
  next
    case False
    with Cons show ?thesis by simp
  qed
qed

lemma first_returning_by_key [sql_simps]:
  "first_row (sql_returning (\<lambda>r. key r = k \<and> q r) f rows) =
     (case filter (\<lambda>r. key r = k \<and> q r) rows of [] \<Rightarrow> None | r # _ \<Rightarrow> Some (f r))"
  by (simp add: sql_returning_def split: list.split)

lemma row_by_delete [sql_simps]:
  "row_by key k (sql_delete (\<lambda>r. key r = k') rows) = (if k = k' then None else row_by key k rows)"
  by (induction rows) (auto simp: sql_delete_def)

lemma distinct_delete [simp]:
  "distinct (map key rows) \<Longrightarrow> distinct (map key (sql_delete p rows))"
  by (simp add: sql_delete_def distinct_map_filter)

lemma update_id: "(\<And>r. r \<in> set rows \<Longrightarrow> \<not> p r) \<Longrightarrow> sql_update p f rows = rows"
  by (simp add: sql_update_def map_idI)

text \<open>Consecutive pieces of a list.\<close>

lemma concat_chunks: "concat (map (\<lambda>i. take m (drop (i * m) xs)) [0..<n]) = take (n * m) xs"
  by (induction n) (simp_all add: take_add add.commute [of m])

end
