(* ===== verification/Json.thy ===== *)
theory Json
  imports Prelude
begin

section \<open>JSON documents\<close>

text \<open>
  The JSON values the repository moves around as \<open>json.RawMessage\<close> and decodes with
  \<open>encoding/json\<close>. A number is kept as its literal text: how a literal reads as a
  \<open>float64\<close> and prints again is the argument \<open>f64\<close> of the functions that decode
  (\<open>None\<close> for a literal out of range). A \<open>json.RawMessage\<close> is \<open>json option\<close>, with \<open>None\<close>
  for the empty byte slice.
\<close>

datatype json =
    JNull
  | JBool bool
  | JNum string
  | JStr string
  | JArr "json list"
  | JObj "(string \<times> json) list"

type_synonym raw_message = "json option"

text \<open>
  A Go map with string keys: built by storing the entries one after the other (a later
  entry overwrites an earlier one with the same key), and printed by \<open>json.Marshal\<close> with
  its keys in increasing order. The model keeps it as the association list \<open>json.Marshal\<close>
  would print.
\<close>

fun map_put :: "string \<Rightarrow> 'v \<Rightarrow> (string \<times> 'v) list \<Rightarrow> (string \<times> 'v) list" where
  "map_put k v [] = [(k, v)]"
| "map_put k v ((k', v') # m) =
     (if k = k' then (k, v) # m
      else if k < k' then (k, v) # (k', v') # m
      else (k', v') # map_put k v m)"

fun map_of_entries :: "(string \<times> 'v) list \<Rightarrow> (string \<times> 'v) list \<Rightarrow> (string \<times> 'v) list" where
  "map_of_entries [] m = m"
| "map_of_entries ((k, v) # es) m = map_of_entries es (map_put k v m)"

text \<open>\<open>json.Unmarshal\<close> into an \<open>interface{}\<close>: objects become Go maps, numbers \<open>float64\<close>.\<close>

fun decode_any :: "(string \<Rightarrow> string option) \<Rightarrow> json \<Rightarrow> json option"
  and decode_list :: "(string \<Rightarrow> string option) \<Rightarrow> json list \<Rightarrow> json list option"
  and decode_entries :: "(string \<Rightarrow> string option) \<Rightarrow> (string \<times> json) list \<Rightarrow> (string \<times> json) list option"
where
  "decode_any f64 JNull = Some JNull"
| "decode_any f64 (JBool b) = Some (JBool b)"
| "decode_any f64 (JNum n) = map_option JNum (f64 n)"
| "decode_any f64 (JStr s) = Some (JStr s)"
| "decode_any f64 (JArr js) = map_option JArr (decode_list f64 js)"
| "decode_any f64 (JObj es) =
     map_option (\<lambda>es'. JObj (map_of_entries es' [])) (decode_entries f64 es)"
| "decode_list f64 [] = Some []"
| "decode_list f64 (j # js) =
     (case decode_any f64 j of
        None \<Rightarrow> None
      | Some j' \<Rightarrow> map_option (\<lambda>js'. j' # js') (decode_list f64 js))"
| "decode_entries f64 [] = Some []"
| "decode_entries f64 ((k, j) # es) =
     (case decode_any f64 j of
        None \<Rightarrow> None
      | Some j' \<Rightarrow> map_option (\<lambda>es'. (k, j') # es') (decode_entries f64 es))"

lemma map_of_map_put [simp]: "map_of (map_put k v m) = (map_of m)(k \<mapsto> v)"
  by (induction k v m rule: map_put.induct) (auto simp: fun_eq_iff)

lemma set_keys_map_put [simp]: "fst ` set (map_put k v m) = insert k (fst ` set m)"
  by (induction k v m rule: map_put.induct) auto

lemma sorted_map_put: "sorted_wrt (<) (map fst m) \<Longrightarrow> sorted_wrt (<) (map fst (map_put k v m))"
proof (induction k v m rule: map_put.induct)
  case (1 k v)
  then show ?case by simp
next
  case (2 k v k' v' m)
  then show ?case
    using set_keys_map_put [of k v m] by (auto simp flip: image_set)
qed

lemma sorted_map_of_entries:
  "sorted_wrt (<) (map fst m) \<Longrightarrow> sorted_wrt (<) (map fst (map_of_entries es m))"
  by (induction es m rule: map_of_entries.induct) (auto intro: sorted_map_put)

lemma map_of_map_of_entries: "map_of (map_of_entries es m) = map_of m ++ map_of (rev es)"
  by (induction es m rule: map_of_entries.induct) (auto simp: map_add_def fun_eq_iff split: option.splits)

text \<open>Storing the entries of a map that is already in printing order gives the map back.\<close>

lemma map_put_last:
  "\<forall>k' \<in> fst ` set m. k' < k \<Longrightarrow> map_put k v m = m @ [(k, v)]"
  by (induction k v m rule: map_put.induct) (auto dest: order.asym)

lemma map_of_entries_sorted:
  "sorted_wrt (<) (map fst (m @ es)) \<Longrightarrow> map_of_entries es m = m @ es"
proof (induction es m rule: map_of_entries.induct)
  case (1 m)
  then show ?case by simp
next
  case (2 k v es m)
  then have "map_put k v m = m @ [(k, v)]"
    by (intro map_put_last) (auto simp: sorted_wrt_append)
  with 2 show ?case by simp
qed

end
