(* ===== verification/GoStd.thy ===== *)
theory GoStd
  imports Json
begin

section \<open>The Go library functions the API calls\<close>

text \<open>
  A Go string is its bytes, a \<open>char list\<close>. This theory has what the HTTP side of the repository uses of
  \<open>strings\<close>, \<open>strconv\<close>, \<open>net/url\<close> and \<open>encoding/json\<close>, with the behaviour of the Go library: white
  space and letter case are Unicode's (the byte sequences are spelled out), except that lower-casing a
  string that is not plain ASCII is the argument \<open>uni\<close> (the Unicode case tables).
\<close>

subsection \<open>strings\<close>

definition is_ascii :: "char \<Rightarrow> bool" where
  "is_ascii c \<longleftrightarrow> of_char c < (128 :: nat)"

definition lower_byte :: "char \<Rightarrow> char" where
  "lower_byte c = (let n = of_char c :: nat in if 65 \<le> n \<and> n \<le> 90 then char_of (n + 32) else c)"

definition ToLower :: "(string \<Rightarrow> string) \<Rightarrow> string \<Rightarrow> string" where
  "ToLower uni s = (if list_all is_ascii s then map lower_byte s else uni s)"

text \<open>The encodings of the white-space characters of \<open>unicode.IsSpace\<close>.\<close>

definition ascii_spaces :: "nat list" where
  "ascii_spaces = [9, 10, 11, 12, 13, 32]"

definition space_codes :: "nat list list" where
  "space_codes = map (\<lambda>n. [n]) ascii_spaces @
     [[0xC2, 0x85], [0xC2, 0xA0], [0xE1, 0x9A, 0x80]] @
     map (\<lambda>n. [0xE2, 0x80, n]) ([0x80..<0x8B] @ [0xA8, 0xA9, 0xAF]) @
     [[0xE2, 0x81, 0x9F], [0xE3, 0x80, 0x80]]"

definition spaces :: "string list" where
  "spaces = map (map char_of) space_codes"

text \<open>Dropping leading occurrences of the given byte sequences, and \<open>strings.TrimSpace\<close>.\<close>

function trim_by :: "string list \<Rightarrow> string \<Rightarrow> string" where
  "trim_by sps s =
     (case find (\<lambda>sp. sp \<noteq> [] \<and> HasPrefix s sp) sps of
        None \<Rightarrow> s
      | Some sp \<Rightarrow> trim_by sps (drop (length sp) s))"
  by pat_completeness auto
termination
proof (relation "measure (\<lambda>(sps, s). length s)", goal_cases)
  case (2 sps s sp)
  then obtain c cs where "sp = c # cs" "HasPrefix s sp" by (cases sp) (auto simp: find_Some_iff)
  then show ?case by (cases s) auto
qed simp

declare trim_by.simps [simp del]

definition TrimSpace :: "string \<Rightarrow> string" where
  "TrimSpace s = rev (trim_by (map rev spaces) (rev (trim_by spaces s)))"

text \<open>
  \<open>strings.EqualFold\<close> with a pattern that has neither \<open>k\<close> nor \<open>s\<close>, the two ASCII letters with a
  non-ASCII case variant.
\<close>

definition EqualFold :: "string \<Rightarrow> string \<Rightarrow> bool" where
  "EqualFold s t \<longleftrightarrow> map lower_byte s = map lower_byte t"

fun index_from :: "int \<Rightarrow> string \<Rightarrow> char \<Rightarrow> int" where
  "index_from i [] c = -1"
| "index_from i (x # xs) c = (if x = c then i else index_from (i + 1) xs c)"

definition IndexByte :: "string \<Rightarrow> char \<Rightarrow> int" where
  "IndexByte s c = index_from 0 s c"

fun Contains :: "string \<Rightarrow> string \<Rightarrow> bool" where
  "Contains [] sub = (sub = [])"
| "Contains (c # cs) sub = (HasPrefix (c # cs) sub \<or> Contains cs sub)"

text \<open>\<open>strings.Split\<close> at a one-byte separator: one piece more than there are separators.\<close>

fun Split :: "string \<Rightarrow> char \<Rightarrow> string list" where
  "Split [] sep = [[]]"
| "Split (c # cs) sep =
     (if c = sep then [] # Split cs sep
      else case Split cs sep of [] \<Rightarrow> [[c]] | w # ws \<Rightarrow> (c # w) # ws)"

subsection \<open>strconv\<close>

definition digit :: "char \<Rightarrow> int option" where
  "digit c = (let n = of_char c :: nat in if 48 \<le> n \<and> n \<le> 57 then Some (int n - 48) else None)"

fun digits_value :: "string \<Rightarrow> int \<Rightarrow> int option" where
  "digits_value [] acc = Some acc"
| "digits_value (c # cs) acc =
     (case digit c of None \<Rightarrow> None | Some d \<Rightarrow> digits_value cs (10 * acc + d))"

definition Atoi :: "string \<Rightarrow> int option" where
  "Atoi s =
     (let neg = (s \<noteq> [] \<and> hd s = CHR ''-'');
          ds = (if s \<noteq> [] \<and> (hd s = CHR ''-'' \<or> hd s = CHR ''+'') then tl s else s) in
      if ds = [] then None
      else case digits_value ds 0 of
        None \<Rightarrow> None
      | Some n \<Rightarrow> let v = (if neg then - n else n) in if - (2 ^ 63) \<le> v \<and> v < 2 ^ 63 then Some v else None)"

text \<open>\<open>strconv.Itoa\<close>.\<close>

fun decimal :: "nat \<Rightarrow> string" where
  "decimal n = (if n < 10 then [char_of (48 + n)] else decimal (n div 10) @ [char_of (48 + n mod 10)])"

definition Itoa :: "int \<Rightarrow> string" where
  "Itoa n = (if n < 0 then CHR ''-'' # decimal (nat (- n)) else decimal (nat n))"

definition ParseBool :: "string \<Rightarrow> bool option" where
  "ParseBool s =
     (if s \<in> set [''1'', ''t'', ''T'', ''TRUE'', ''true'', ''True''] then Some True
      else if s \<in> set [''0'', ''f'', ''F'', ''FALSE'', ''false'', ''False''] then Some False
      else None)"

subsection \<open>net/url and net/http\<close>

text \<open>\<open>url.Values.Get\<close>: the first value of a parameter, or the empty string.\<close>

definition query_Get :: "(string \<times> string) list \<Rightarrow> string \<Rightarrow> string" where
  "query_Get q k = (case map_of q k of None \<Rightarrow> [] | Some v \<Rightarrow> v)"

subsection \<open>encoding/json into a struct\<close>

text \<open>
  \<open>json.Decoder.Decode\<close> into a struct: the entries of the object in order, each stored in the field with
  its name (or, failing that, the first field whose name is the same up to letter case); unknown keys are
  skipped, \<open>null\<close> leaves a string alone, a value of the wrong type is remembered as an error and decoding
  goes on. The body is \<open>None\<close> when it does not start with a JSON value. A setter is \<open>None\<close> on a value of
  the wrong type. The two non-ASCII characters that fold to \<open>s\<close> and \<open>k\<close> are those of Unicode.
\<close>

function fold_name :: "string \<Rightarrow> string" where
  "fold_name [] = []"
| "fold_name (c # cs) =
     (if HasPrefix (c # cs) [char_of (0xC5 :: nat), char_of (0xBF :: nat)] then CHR ''s'' # fold_name (drop 1 cs)
      else if HasPrefix (c # cs) [char_of (0xE2 :: nat), char_of (0x84 :: nat), char_of (0xAA :: nat)] then CHR ''k'' # fold_name (drop 2 cs)
      else lower_byte c # fold_name cs)"
  by pat_completeness auto
termination by (relation "measure length") auto

type_synonym 's setter = "json \<Rightarrow> 's \<Rightarrow> 's option"

definition field_of :: "(string \<times> 's setter) list \<Rightarrow> string \<Rightarrow> 's setter option" where
  "field_of fields k =
     (case map_of fields k of
        Some f \<Rightarrow> Some f
      | None \<Rightarrow> map_option snd (find (\<lambda>nf. fold_name (fst nf) = fold_name k) fields))"

fun decode_fields :: "(string \<times> 's setter) list \<Rightarrow> (string \<times> json) list \<Rightarrow> 's \<Rightarrow> bool \<Rightarrow> 's option" where
  "decode_fields fields [] s err = (if err then None else Some s)"
| "decode_fields fields ((k, j) # es) s err =
     (case field_of fields k of
        None \<Rightarrow> decode_fields fields es s err
      | Some store \<Rightarrow>
          (case store j s of
             None \<Rightarrow> decode_fields fields es s True
           | Some s' \<Rightarrow> decode_fields fields es s' err))"

definition decode_struct :: "(string \<times> 's setter) list \<Rightarrow> 's \<Rightarrow> json option \<Rightarrow> 's option" where
  "decode_struct fields s body =
     (case body of
        Some (JObj es) \<Rightarrow> decode_fields fields es s False
      | Some JNull \<Rightarrow> Some s
      | _ \<Rightarrow> None)"

definition set_string :: "(string \<Rightarrow> 's \<Rightarrow> 's) \<Rightarrow> 's setter" where
  "set_string upd j s = (case j of JStr v \<Rightarrow> Some (upd v s) | JNull \<Rightarrow> Some s | _ \<Rightarrow> None)"

definition set_int_ptr :: "(int option \<Rightarrow> 's \<Rightarrow> 's) \<Rightarrow> 's setter" where
  "set_int_ptr upd j s =
     (case j of
        JNum n \<Rightarrow> map_option (\<lambda>v. upd (Some v) s) (Atoi n)
      | JNull \<Rightarrow> Some (upd None s)
      | _ \<Rightarrow> None)"

definition set_raw :: "(raw_message \<Rightarrow> 's \<Rightarrow> 's) \<Rightarrow> 's setter" where
  "set_raw upd j s = Some (upd (Some j) s)"

subsection \<open>What they return\<close>

lemma Atoi_bounds: "Atoi s = Some v \<Longrightarrow> - (2 ^ 63) \<le> v \<and> v < 2 ^ 63"
  by (auto simp: Atoi_def Let_def split: if_splits option.splits)

text \<open>Printing and reading a number.\<close>

declare decimal.simps [simp del]

lemma digit_char: "d < 10 \<Longrightarrow> digit (char_of (48 + d)) = Some (int d)"
  by (simp add: digit_def)

lemma digits_value_append:
  "digits_value (xs @ ys) acc = (case digits_value xs acc of None \<Rightarrow> None | Some v \<Rightarrow> digits_value ys v)"
  by (induction xs arbitrary: acc) (auto split: option.split)

lemma digits_value_decimal: "digits_value (decimal n) 0 = Some (int n)"
proof (induction n rule: decimal.induct)
  case (1 n)
  show ?case
  proof (cases "n < 10")
    case True
    then show ?thesis by (simp add: digit_char decimal.simps)
  next
    case False
    have "10 * int (n div 10) + int (n mod 10) = int n" by presburger
    with False 1 digit_char [of "n mod 10"] show ?thesis
      by (subst decimal.simps) (simp add: digits_value_append)
  qed
qed

lemma decimal_head: "decimal n \<noteq> [] \<and> hd (decimal n) \<noteq> CHR ''-'' \<and> hd (decimal n) \<noteq> CHR ''+''"
proof (cases "decimal n")
  case Nil
  then show ?thesis by (subst (asm) decimal.simps) (simp split: if_splits)
next
  case (Cons c cs)
  with digits_value_decimal [of n] have "digit c \<noteq> None" by (auto split: option.splits)
  moreover have "digit (CHR ''-'') = None" "digit (CHR ''+'') = None" by (simp_all add: digit_def)
  ultimately show ?thesis using Cons by auto
qed

lemma Atoi_Itoa:
  assumes "- (2 ^ 63) \<le> n" and "n < 2 ^ 63"
  shows "Atoi (Itoa n) = Some n"
proof (cases "n < 0")
  case True
  have "decimal (nat (- n)) \<noteq> []" using decimal_head by blast
  with True assms show ?thesis by (simp add: Atoi_def Itoa_def digits_value_decimal)
next
  case False
  have "decimal (nat n) \<noteq> []" "hd (decimal (nat n)) \<noteq> CHR ''-''" "hd (decimal (nat n)) \<noteq> CHR ''+''"
    using decimal_head [of "nat n"] by blast+
  with False assms show ?thesis by (simp add: Atoi_def Itoa_def digits_value_decimal)
qed

lemma decimal_inject: "decimal a = decimal b \<Longrightarrow> a = b"
  by (metis digits_value_decimal of_nat_eq_iff option.inject)

lemma decimal_sign: "decimal a \<noteq> CHR ''-'' # x" "CHR ''-'' # x \<noteq> decimal a"
  using decimal_head [of a] by (metis list.sel(1))+

lemma Itoa_inject: "Itoa m = Itoa n \<longleftrightarrow> m = n"
proof (cases "m < 0"; cases "n < 0")
  assume "m < 0" "n < 0"
  then show ?thesis using decimal_inject [of "nat (- m)" "nat (- n)"] by (auto simp: Itoa_def)
next
  assume "\<not> m < 0" "\<not> n < 0"
  then show ?thesis using decimal_inject [of "nat m" "nat n"] by (auto simp: Itoa_def)
qed (simp_all add: Itoa_def decimal_sign)

lemma trim_by_head: "sp \<in> set sps \<Longrightarrow> sp \<noteq> [] \<Longrightarrow> \<not> HasPrefix (trim_by sps s) sp"
proof (induction sps s rule: trim_by.induct)
  case (1 sps s)
  then show ?case
    by (subst trim_by.simps) (auto split: option.splits simp: find_None_iff)
qed

lemma trim_by_suffix: "\<exists>pre. s = pre @ trim_by sps s"
proof (induction sps s rule: trim_by.induct)
  case (1 sps s)
  show ?case
  proof (cases "find (\<lambda>sp. sp \<noteq> [] \<and> HasPrefix s sp) sps")
    case None
    then show ?thesis by (subst trim_by.simps) simp
  next
    case (Some sp)
    from 1 [OF Some] obtain pre where "drop (length sp) s = pre @ trim_by sps (drop (length sp) s)" by blast
    then have "s = (take (length sp) s @ pre) @ trim_by sps (drop (length sp) s)"
      by (metis append.assoc append_take_drop_id)
    moreover have "trim_by sps s = trim_by sps (drop (length sp) s)" using Some by (subst trim_by.simps) simp
    ultimately show ?thesis by metis
  qed
qed

text \<open>What \<open>TrimSpace\<close> returns does not end in white space, and is a part of its argument.\<close>

lemma TrimSpace_infix: "\<exists>pre post. s = pre @ TrimSpace s @ post"
proof -
  obtain pre where a: "s = pre @ trim_by spaces s" using trim_by_suffix by blast
  obtain post where b: "rev (trim_by spaces s) = post @ trim_by (map rev spaces) (rev (trim_by spaces s))"
    using trim_by_suffix by blast
  then have "trim_by spaces s = TrimSpace s @ rev post"
    unfolding TrimSpace_def by (metis rev_append rev_rev_ident)
  with a show ?thesis by metis
qed

lemma length_TrimSpace: "length (TrimSpace s) \<le> length s"
proof -
  obtain pre post where "s = pre @ TrimSpace s @ post" using TrimSpace_infix by blast
  then have "length s = length pre + length (TrimSpace s) + length post" by (metis add.assoc length_append)
  then show ?thesis by simp
qed

lemma lower_byte_idem [simp]: "lower_byte (lower_byte c) = lower_byte c"
  by (auto simp: lower_byte_def Let_def)

lemma is_ascii_lower_byte [simp]: "is_ascii c \<Longrightarrow> is_ascii (lower_byte c)"
  by (auto simp: lower_byte_def is_ascii_def Let_def)

lemma ToLower_idem: "list_all is_ascii s \<Longrightarrow> ToLower uni (ToLower uni s) = ToLower uni s"
  by (auto simp: ToLower_def list_all_iff)

lemma Split_pieces: "sep \<notin> set s \<Longrightarrow> Split s sep = [s]"
  by (induction s sep rule: Split.induct) auto

lemma Split_nonempty [simp]: "Split s sep \<noteq> []"
  by (induction s sep rule: Split.induct) (auto split: list.split)

lemma Split_no_sep: "w \<in> set (Split s sep) \<Longrightarrow> sep \<notin> set w"
  by (induction s sep arbitrary: w rule: Split.induct) (auto split: if_splits list.splits)

end
