(* ===== verification/Models.thy ===== *)
theory Models
  imports GoStd
begin

section \<open>Domain types\<close>

text \<open>
  The structs of \<^verbatim>\<open>src/internal/models\<close>, one record each, with the Go field names behind a
  prefix (record fields are global names). A nullable column, a Go pointer, is an
  \<open>option\<close>; a \<open>uuid.UUID\<close> is its 16 bytes as a word, \<open>uuid.Nil\<close> being 0; a \<open>time.Time\<close>
  is the number of nanoseconds since the Unix epoch.
\<close>

type_synonym uuid = "128 word"
type_synonym time = int

abbreviation uuid_Nil :: uuid where
  "uuid_Nil \<equiv> 0"

definition second :: int where "second = 1000000000"
definition minute :: int where "minute = 60 * second"
definition hour :: int where "hour = 60 * minute"

text \<open>\<open>Time.Unix\<close>: whole seconds since the epoch, rounded down.\<close>

definition Unix :: "time \<Rightarrow> int" where
  "Unix t = t div second"

subsection \<open>Job status\<close>

type_synonym Status = string

definition StatusPending :: Status where "StatusPending = ''pending''"
definition StatusProcessing :: Status where "StatusProcessing = ''processing''"
definition StatusCompleted :: Status where "StatusCompleted = ''completed''"
definition StatusFailed :: Status where "StatusFailed = ''failed''"
definition StatusCancelled :: Status where "StatusCancelled = ''cancelled''"
definition StatusDeadLetter :: Status where "StatusDeadLetter = ''dead_letter''"

definition AllStatuses :: "Status list" where
  "AllStatuses =
     [StatusPending, StatusProcessing, StatusCompleted, StatusFailed, StatusCancelled]"

text \<open>\<open>Status.Valid\<close>: the loop over \<open>AllStatuses\<close>.\<close>

fun valid_in :: "Status list \<Rightarrow> Status \<Rightarrow> bool" where
  "valid_in [] s = False"
| "valid_in (v # vs) s = (if s = v then True else valid_in vs s)"

definition Valid :: "Status \<Rightarrow> bool" where
  "Valid s = valid_in AllStatuses s"

lemmas Status_defs = StatusPending_def StatusProcessing_def StatusCompleted_def
  StatusFailed_def StatusCancelled_def StatusDeadLetter_def

lemma Status_distinct [simp]:
  "StatusPending \<noteq> StatusProcessing" "StatusPending \<noteq> StatusCompleted"
  "StatusPending \<noteq> StatusFailed" "StatusPending \<noteq> StatusCancelled"
  "StatusProcessing \<noteq> StatusPending" "StatusProcessing \<noteq> StatusCompleted"
  "StatusProcessing \<noteq> StatusFailed" "StatusProcessing \<noteq> StatusCancelled"
  "StatusCompleted \<noteq> StatusPending" "StatusCompleted \<noteq> StatusProcessing"
  "StatusCompleted \<noteq> StatusFailed" "StatusCompleted \<noteq> StatusCancelled"
  "StatusFailed \<noteq> StatusPending" "StatusFailed \<noteq> StatusProcessing"
  "StatusFailed \<noteq> StatusCompleted" "StatusFailed \<noteq> StatusCancelled"
  "StatusCancelled \<noteq> StatusPending" "StatusCancelled \<noteq> StatusProcessing"
  "StatusCancelled \<noteq> StatusCompleted" "StatusCancelled \<noteq> StatusFailed"
  "StatusPending \<noteq> []" "[] \<noteq> StatusPending"
  by (simp_all add: Status_defs)

lemma valid_in_iff [simp]: "valid_in vs s \<longleftrightarrow> s \<in> set vs"
  by (induction vs) auto

lemma Valid_iff: "Valid s \<longleftrightarrow> s \<in> set AllStatuses"
  by (simp add: Valid_def)

subsection \<open>Records\<close>

record job =
  job_ID :: uuid
  job_TenantID :: uuid
  job_QueueName :: string
  job_JobType :: string
  job_Payload :: raw_message
  job_Status :: Status
  job_Result :: raw_message
  job_ErrorMessage :: "string option"
  job_RetryCount :: int
  job_MaxRetries :: int
  job_ScheduledAt :: "time option"
  job_StartedAt :: "time option"
  job_CompletedAt :: "time option"
  job_CreatedAt :: time
  job_UpdatedAt :: time

text \<open>Go's zero value of \<open>models.Job\<close>, what a composite literal leaves unset.\<close>

definition zero_job :: job where
  "zero_job = \<lparr>job_ID = uuid_Nil, job_TenantID = uuid_Nil, job_QueueName = [], job_JobType = [],
     job_Payload = None, job_Status = [], job_Result = None, job_ErrorMessage = None,
     job_RetryCount = 0, job_MaxRetries = 0, job_ScheduledAt = None, job_StartedAt = None,
     job_CompletedAt = None, job_CreatedAt = 0, job_UpdatedAt = 0\<rparr>"

record job_schedule =
  sched_ID :: uuid
  sched_TenantID :: uuid
  sched_JobType :: string
  sched_Payload :: raw_message
  sched_CronExpression :: string
  sched_Enabled :: bool
  sched_LastRunAt :: "time option"
  sched_NextRunAt :: time
  sched_CreatedAt :: time

record tenant =
  tenant_ID :: uuid
  tenant_Name :: string
  tenant_CreatedAt :: time

record user =
  user_ID :: uuid
  user_TenantID :: uuid
  user_Email :: string
  user_PasswordHash :: string
  user_CreatedAt :: time

record api_key =
  key_ID :: uuid
  key_TenantID :: uuid
  key_Name :: string
  key_KeyHash :: string
  key_KeyPrefix :: string
  key_LastUsedAt :: "time option"
  key_CreatedAt :: time

text \<open>A row of \<open>sessions\<close>; the repository has no struct for it.\<close>

record session_row =
  sess_id :: uuid
  sess_user_id :: uuid
  sess_token_hash :: string
  sess_created_at :: time
  sess_expires_at :: time

text \<open>A row of \<open>dead_letter_queue\<close>; the repository has no struct for it.\<close>

record dlq_row =
  dlq_job_id :: uuid
  dlq_tenant_id :: uuid
  dlq_reason :: string
  dlq_attempts :: int
  dlq_created_at :: time

definition DefaultTenantID :: uuid where
  "DefaultTenantID = 0x11111111111111111111111111111111"

end
