(* ===== verification/Postgres.thy ===== *)
theory Postgres
  imports Models
begin

section \<open>The database as the store sees it\<close>

text \<open>
  The SQL texts under \<^verbatim>\<open>src/internal/store\<close> and the schema under \<^verbatim>\<open>src/migrations\<close> are
  code of the repository; the server that runs them is not. A statement is therefore the HOL
  function its SQL text denotes on the tables (\<open>'a stmt\<close>: the new tables and the result, or
  the constraint it violates), and what the server and the driver add is a parameter kept in
  the record \<open>pg\<close>: the transaction time \<open>now()\<close>, what \<open>jsonb\<close> stores for a document
  (\<open>None\<close>: rejected), which texts the encoding accepts, its \<open>lower()\<close>, and the script of network outcomes.
  Every theorem quantifies over these.
\<close>

record db =
  jobs :: "job list"
  dead_letter_queue :: "dlq_row list"
  job_schedules :: "job_schedule list"
  tenants :: "tenant list"
  users :: "user list"
  sessions :: "session_row list"
  api_keys :: "api_key list"

record pg =
  pg_db :: db
  pg_now :: time
  pg_jsonb :: "json \<Rightarrow> json option"
  pg_text_ok :: "string \<Rightarrow> bool"
  pg_lower :: "string \<Rightarrow> string"
  pg_net :: "fault list"

datatype pgerr =
    Conn_error            \<comment> \<open>the connection or the server failed, or the context ended\<close>
  | Encode_error          \<comment> \<open>a parameter does not fit its column type\<close>
  | Not_null_violation
  | Unique_violation      \<comment> \<open>SQLSTATE 23505\<close>
  | Foreign_key_violation
  | No_rows               \<comment> \<open>\<open>pgx.ErrNoRows\<close> where the code does not expect it\<close>

type_synonym 'a stmt = "pg \<Rightarrow> pgerr + (db \<times> 'a)"

text \<open>One statement in its own transaction: \<open>pool.Exec\<close>, \<open>pool.Query\<close>, \<open>pool.QueryRow\<close>.\<close>

definition exec :: "'a stmt \<Rightarrow> pg \<Rightarrow> pg \<times> (pgerr + 'a)" where
  "exec s p =
     (let (f, fs) = next_fault (pg_net p); p' = p\<lparr>pg_net := fs\<rparr> in
      case f of
        Lost_request \<Rightarrow> (p', Inl Conn_error)
      | Lost_reply \<Rightarrow>
          (case s p of
             Inl e \<Rightarrow> (p', Inl Conn_error)
           | Inr (d, a) \<Rightarrow> (p'\<lparr>pg_db := d\<rparr>, Inl Conn_error))
      | Delivered \<Rightarrow>
          (case s p of
             Inl e \<Rightarrow> (p', Inl e)
           | Inr (d, a) \<Rightarrow> (p'\<lparr>pg_db := d\<rparr>, Inr a)))"

text \<open>
  A transaction: \<open>pool.Begin\<close> gives a working copy of the tables, \<open>tx.Exec\<close> and
  \<open>tx.QueryRow\<close> run statements on it, and only \<open>tx.Commit\<close> makes it the database. An
  error before the commit leaves the database as it was (\<open>defer tx.Rollback\<close>); the reply to
  the commit can be lost like any other.
\<close>

definition tx_begin :: "pg \<Rightarrow> pg \<times> (pgerr + db)" where
  "tx_begin p = exec (\<lambda>q. Inr (pg_db q, pg_db q)) p"

definition tx_exec :: "'a stmt \<Rightarrow> db \<Rightarrow> pg \<Rightarrow> pg \<times> (pgerr + (db \<times> 'a))" where
  "tx_exec s w p =
     (let (f, fs) = next_fault (pg_net p); p' = p\<lparr>pg_net := fs\<rparr> in
      if f = Delivered then (p', s (p\<lparr>pg_db := w\<rparr>)) else (p', Inl Conn_error))"

definition tx_commit :: "db \<Rightarrow> pg \<Rightarrow> pg \<times> (pgerr + unit)" where
  "tx_commit w p = exec (\<lambda>q. Inr (w, ())) p"

subsection \<open>Calls that go through, and calls that do not\<close>

abbreviation healthy :: "pg \<Rightarrow> bool" where
  "healthy p \<equiv> pg_net p = []"

lemma next_fault_cases:
  obtains (delivered) fs where "next_fault fl = (Delivered, fs)"
  | (lost_request) fs where "next_fault fl = (Lost_request, fs)"
  | (lost_reply) fs where "next_fault fl = (Lost_reply, fs)"
  by (metis fault.exhaust prod.collapse)

lemma exec_healthy:
  "healthy p \<Longrightarrow> exec s p =
     (case s p of Inl e \<Rightarrow> (p, Inl e) | Inr (d, a) \<Rightarrow> (p\<lparr>pg_db := d\<rparr>, Inr a))"
  by (cases p) (auto simp: exec_def split: sum.splits)

lemma tx_exec_healthy: "healthy p \<Longrightarrow> tx_exec s w p = (p, s (p\<lparr>pg_db := w\<rparr>))"
  by (cases p) (simp add: tx_exec_def)

lemma tx_begin_healthy: "healthy p \<Longrightarrow> tx_begin p = (p, Inr (pg_db p))"
  by (simp add: tx_begin_def exec_healthy)

lemma tx_commit_healthy: "healthy p \<Longrightarrow> tx_commit w p = (p\<lparr>pg_db := w\<rparr>, Inr ())"
  by (simp add: tx_commit_def exec_healthy)

lemmas healthy_simps = exec_healthy tx_exec_healthy tx_begin_healthy tx_commit_healthy

text \<open>A call never changes the server's parameters.\<close>

lemma exec_frame [simp]:
  "pg_now (fst (exec s p)) = pg_now p"
  "pg_jsonb (fst (exec s p)) = pg_jsonb p"
  "pg_text_ok (fst (exec s p)) = pg_text_ok p"
  by (auto simp: exec_def Let_def split: prod.splits fault.splits sum.splits)

lemma tx_exec_frame [simp]: "pg_db (fst (tx_exec s w p)) = pg_db p"
  by (auto simp: tx_exec_def Let_def split: prod.splits)

lemma tx_begin_frame [simp]: "pg_db (fst (tx_begin p)) = pg_db p"
  by (auto simp: tx_begin_def exec_def Let_def split: prod.splits fault.splits)

lemma tx_frame [simp]:
  "pg_now (fst (tx_exec s w p)) = pg_now p" "pg_jsonb (fst (tx_exec s w p)) = pg_jsonb p"
  "pg_text_ok (fst (tx_exec s w p)) = pg_text_ok p"
  "pg_now (fst (tx_begin p)) = pg_now p" "pg_jsonb (fst (tx_begin p)) = pg_jsonb p"
  "pg_text_ok (fst (tx_begin p)) = pg_text_ok p"
  "pg_now (fst (tx_commit w p)) = pg_now p" "pg_jsonb (fst (tx_commit w p)) = pg_jsonb p"
  "pg_text_ok (fst (tx_commit w p)) = pg_text_ok p"
  by (auto simp: tx_exec_def tx_begin_def tx_commit_def Let_def split: prod.splits)

text \<open>
  What a call leaves in the database: what it found, or what the statement makes of it; and
  a call that reports success has run the statement.
\<close>

lemma exec_db_cases:
  "pg_db (fst (exec s p)) = pg_db p \<or>
   (\<exists>d a. s p = Inr (d, a) \<and> pg_db (fst (exec s p)) = d)"
  by (auto simp: exec_def Let_def split: prod.splits fault.splits sum.splits)

lemma exec_ok:
  "exec s p = (p', Inr a) \<Longrightarrow> \<exists>d. s p = Inr (d, a) \<and> pg_db p' = d"
  by (auto simp: exec_def Let_def split: prod.splits fault.splits sum.splits)

lemma tx_commit_db_cases: "pg_db (fst (tx_commit w p)) \<in> {pg_db p, w}"
  by (auto simp: tx_commit_def exec_def Let_def split: prod.splits fault.splits)

lemma tx_commit_ok: "tx_commit w p = (p', Inr u) \<Longrightarrow> pg_db p' = w"
  unfolding tx_commit_def by (drule exec_ok) auto

lemma tx_begin_ok: "tx_begin p = (p', Inr w) \<Longrightarrow> w = pg_db p \<and> pg_db p' = pg_db p"
  unfolding tx_begin_def by (drule exec_ok) auto

lemma tx_exec_ok:
  "tx_exec s w p = (p', Inr (w', a)) \<Longrightarrow> s (p\<lparr>pg_db := w\<rparr>) = Inr (w', a) \<and> pg_db p' = pg_db p"
  by (auto simp: tx_exec_def Let_def split: prod.splits if_splits)

subsection \<open>Schema\<close>

text \<open>
  What the schema guarantees of every state of the tables (migrations 0001, 0002, 0003, 0005
  and 0011): primary keys are unique, foreign keys point at rows, \<open>payload\<close> is \<open>NOT NULL\<close>,
  \<open>INTEGER\<close> columns are in range.
\<close>

definition schema_ok :: "db \<Rightarrow> bool" where
  "schema_ok d \<longleftrightarrow>
     distinct (map job_ID (jobs d)) \<and>
     distinct (map dlq_job_id (dead_letter_queue d)) \<and>
     distinct (map sched_ID (job_schedules d)) \<and>
     distinct (map tenant_ID (tenants d)) \<and>
     dlq_job_id ` set (dead_letter_queue d) \<subseteq> job_ID ` set (jobs d) \<and>
     job_TenantID ` set (jobs d) \<subseteq> tenant_ID ` set (tenants d) \<and>
     sched_TenantID ` set (job_schedules d) \<subseteq> tenant_ID ` set (tenants d) \<and>
     (\<forall>j \<in> set (jobs d). job_Payload j \<noteq> None \<and> int4 (job_RetryCount j) \<and> int4 (job_MaxRetries j))"

abbreviation job_of :: "db \<Rightarrow> uuid \<Rightarrow> job option" where
  "job_of d k \<equiv> row_by job_ID k (jobs d)"

abbreviation dlq_of :: "db \<Rightarrow> uuid \<Rightarrow> dlq_row option" where
  "dlq_of d k \<equiv> row_by dlq_job_id k (dead_letter_queue d)"

abbreviation sched_of :: "db \<Rightarrow> uuid \<Rightarrow> job_schedule option" where
  "sched_of d k \<equiv> row_by sched_ID k (job_schedules d)"

lemma schema_distinct [simp]:
  "schema_ok d \<Longrightarrow> distinct (map job_ID (jobs d))"
  "schema_ok d \<Longrightarrow> distinct (map dlq_job_id (dead_letter_queue d))"
  "schema_ok d \<Longrightarrow> distinct (map sched_ID (job_schedules d))"
  by (simp_all add: schema_ok_def)

lemma schema_row:
  "schema_ok d \<Longrightarrow> j \<in> set (jobs d) \<Longrightarrow>
     job_TenantID j \<in> tenant_ID ` set (tenants d) \<and> job_Payload j \<noteq> None \<and>
     int4 (job_RetryCount j) \<and> int4 (job_MaxRetries j)"
  unfolding schema_ok_def by blast

text \<open>The trigger \<open>trg_jobs_set_updated_at\<close>: every \<open>UPDATE\<close> of \<open>jobs\<close> stamps \<open>updated_at\<close>.\<close>

definition set_updated_at :: "time \<Rightarrow> job \<Rightarrow> job" where
  "set_updated_at now j = j\<lparr>job_UpdatedAt := now\<rparr>"

definition update_jobs :: "(job \<Rightarrow> bool) \<Rightarrow> (job \<Rightarrow> job) \<Rightarrow> pg \<Rightarrow> db" where
  "update_jobs p f q = (pg_db q)\<lparr>jobs := sql_update p (\<lambda>j. set_updated_at (pg_now q) (f j)) (jobs (pg_db q))\<rparr>"

definition updated_jobs :: "(job \<Rightarrow> bool) \<Rightarrow> (job \<Rightarrow> job) \<Rightarrow> pg \<Rightarrow> job list" where
  "updated_jobs p f q = sql_returning p (\<lambda>j. set_updated_at (pg_now q) (f j)) (jobs (pg_db q))"

end
