(* ===== verification/Store.thy ===== *)
theory Store
  imports Postgres
begin

section \<open>The job store\<close>

text \<open>
  \<^verbatim>\<open>src/internal/store/store.go\<close> and \<^verbatim>\<open>src/internal/store/list.go\<close>: first the \<open>SET\<close> clauses and
  the statements the SQL texts denote, then one definition per Go function (the statement run by
  \<open>exec\<close>, or the transaction step by step, and the mapping of \<open>pgx.ErrNoRows\<close> and driver errors
  onto the sentinel errors), then what each function does to one row.
\<close>

datatype store_err =
    ErrJobNotFound
  | ErrJobNotClaimable
  | ErrJobNotRetryable
  | ErrJobNotCancellable
  | Wrapped string pgerr \<comment> \<open>\<open>fmt.Errorf("...: %w", err)\<close>, or the bare error with an empty text\<close>

subsection \<open>Statements\<close>

definition insert_job :: "job \<Rightarrow> job stmt" where
  "insert_job job p =
     (if \<not> int4 (job_MaxRetries job) \<or> \<not> pg_text_ok p (job_QueueName job) \<or>
         \<not> pg_text_ok p (job_JobType job) \<or> \<not> pg_text_ok p (job_Status job) then Inl Encode_error
      else case job_Payload job of
        None \<Rightarrow> Inl Not_null_violation
      | Some j \<Rightarrow>
          (case pg_jsonb p j of
             None \<Rightarrow> Inl Encode_error
           | Some j' \<Rightarrow>
               if job_of (pg_db p) (job_ID job) \<noteq> None then Inl Unique_violation
               else if job_TenantID job \<notin> tenant_ID ` set (tenants (pg_db p)) then Inl Foreign_key_violation
               else let row = job\<lparr>job_Payload := Some j', job_Result := None, job_ErrorMessage := None,
                                  job_RetryCount := 0, job_StartedAt := None, job_CompletedAt := None,
                                  job_CreatedAt := pg_now p, job_UpdatedAt := pg_now p\<rparr>
                    in Inr ((pg_db p)\<lparr>jobs := jobs (pg_db p) @ [row]\<rparr>, row)))"

definition claimed :: "time \<Rightarrow> job \<Rightarrow> job" where
  "claimed now j = j\<lparr>job_Status := StatusProcessing, job_StartedAt := Some now\<rparr>"

definition claim_stmt :: "uuid \<Rightarrow> job option stmt" where
  "claim_stmt k p =
     (let w = (\<lambda>j. job_ID j = k \<and> job_Status j = StatusPending); f = claimed (pg_now p)
      in Inr (update_jobs w f p, first_row (updated_jobs w f p)))"

definition completed :: "json \<Rightarrow> time \<Rightarrow> job \<Rightarrow> job" where
  "completed result now j = j\<lparr>job_Status := StatusCompleted, job_Result := Some result,
     job_ErrorMessage := None, job_CompletedAt := Some now\<rparr>"

definition complete_stmt :: "uuid \<Rightarrow> json \<Rightarrow> unit stmt" where
  "complete_stmt k result p =
     (case pg_jsonb p result of
        None \<Rightarrow> Inl Encode_error
      | Some result' \<Rightarrow> Inr (update_jobs (\<lambda>j. job_ID j = k) (completed result' (pg_now p)) p, ()))"

definition retried :: "int \<Rightarrow> string \<Rightarrow> job \<Rightarrow> job" where
  "retried retryCount errMsg j = j\<lparr>job_Status := StatusPending, job_RetryCount := retryCount,
     job_ErrorMessage := Some errMsg\<rparr>"

definition retry_stmt :: "uuid \<Rightarrow> int \<Rightarrow> string \<Rightarrow> unit stmt" where
  "retry_stmt k retryCount errMsg p =
     (if \<not> int4 retryCount \<or> \<not> pg_text_ok p errMsg then Inl Encode_error
      else Inr (update_jobs (\<lambda>j. job_ID j = k) (retried retryCount errMsg) p, ()))"

definition failed :: "int \<Rightarrow> string \<Rightarrow> time \<Rightarrow> job \<Rightarrow> job" where
  "failed attempts reason now j = j\<lparr>job_Status := StatusFailed, job_RetryCount := attempts,
     job_ErrorMessage := Some reason, job_CompletedAt := Some now\<rparr>"

definition fail_stmt :: "uuid \<Rightarrow> int \<Rightarrow> string \<Rightarrow> unit stmt" where
  "fail_stmt k attempts reason p =
     (if \<not> int4 attempts \<or> \<not> pg_text_ok p reason then Inl Encode_error
      else Inr (update_jobs (\<lambda>j. job_ID j = k) (failed attempts reason (pg_now p)) p, ()))"

text \<open>\<open>INSERT \<dots> SELECT \<dots> FROM jobs WHERE id = $1 ON CONFLICT (job_id) DO UPDATE\<close>.\<close>

definition dlq_upsert :: "dlq_row \<Rightarrow> dlq_row list \<Rightarrow> dlq_row list" where
  "dlq_upsert r rows =
     (if row_by dlq_job_id (dlq_job_id r) rows = None then rows @ [r]
      else sql_update (\<lambda>x. dlq_job_id x = dlq_job_id r)
             (\<lambda>x. x\<lparr>dlq_reason := dlq_reason r, dlq_attempts := dlq_attempts r\<rparr>) rows)"

definition dlq_stmt :: "uuid \<Rightarrow> string \<Rightarrow> int \<Rightarrow> unit stmt" where
  "dlq_stmt k reason attempts p =
     (if \<not> int4 attempts \<or> \<not> pg_text_ok p reason then Inl Encode_error
      else
        let src = filter (\<lambda>j. job_ID j = k) (jobs (pg_db p));
            new = map (\<lambda>j. \<lparr>dlq_job_id = job_ID j, dlq_tenant_id = job_TenantID j, dlq_reason = reason,
                            dlq_attempts = attempts, dlq_created_at = pg_now p\<rparr>) src
        in Inr ((pg_db p)\<lparr>dead_letter_queue := fold dlq_upsert new (dead_letter_queue (pg_db p))\<rparr>, ()))"

definition reset :: "job \<Rightarrow> job" where
  "reset j = j\<lparr>job_Status := StatusPending, job_RetryCount := 0, job_ErrorMessage := None,
     job_Result := None, job_StartedAt := None, job_CompletedAt := None\<rparr>"

definition reset_stmt :: "uuid \<Rightarrow> job option stmt" where
  "reset_stmt k p =
     Inr (update_jobs (\<lambda>j. job_ID j = k) reset p, first_row (updated_jobs (\<lambda>j. job_ID j = k) reset p))"

definition dlq_delete_stmt :: "uuid \<Rightarrow> unit stmt" where
  "dlq_delete_stmt k p =
     Inr ((pg_db p)\<lparr>dead_letter_queue := sql_delete (\<lambda>r. dlq_job_id r = k) (dead_letter_queue (pg_db p))\<rparr>, ())"

definition cancelled :: "time \<Rightarrow> job \<Rightarrow> job" where
  "cancelled now j = j\<lparr>job_Status := StatusCancelled, job_CompletedAt := Some now\<rparr>"

definition cancel_stmt :: "uuid \<Rightarrow> uuid \<Rightarrow> job option stmt" where
  "cancel_stmt tenantID k p =
     (let w = (\<lambda>j. job_ID j = k \<and> job_TenantID j = tenantID \<and> job_Status j = StatusPending);
          f = cancelled (pg_now p)
      in Inr (update_jobs w f p, first_row (updated_jobs w f p)))"

definition select_jobs :: "(job \<Rightarrow> bool) \<Rightarrow> job list stmt" where
  "select_jobs w p = Inr (pg_db p, filter w (jobs (pg_db p)))"

subsection \<open>store.go\<close>

definition CreateJob :: "pg \<Rightarrow> job \<Rightarrow> pg \<times> (pgerr + job)" where
  "CreateJob p job = exec (insert_job job) p"

definition GetJob :: "pg \<Rightarrow> uuid \<Rightarrow> uuid \<Rightarrow> pg \<times> (store_err + job)" where
  "GetJob p tenantID k =
     (case exec (select_jobs (\<lambda>j. job_ID j = k \<and> job_TenantID j = tenantID)) p of
        (p', Inl e) \<Rightarrow> (p', Inl (Wrapped ''get job'' e))
      | (p', Inr rows) \<Rightarrow>
          (case first_row rows of
             None \<Rightarrow> (p', Inl ErrJobNotFound)
           | Some job \<Rightarrow> (p', Inr job)))"

definition ClaimJob :: "pg \<Rightarrow> uuid \<Rightarrow> pg \<times> (store_err + job)" where
  "ClaimJob p k =
     (case exec (claim_stmt k) p of
        (p', Inl e) \<Rightarrow> (p', Inl (Wrapped ''claim job'' e))
      | (p', Inr None) \<Rightarrow> (p', Inl ErrJobNotClaimable)
      | (p', Inr (Some job)) \<Rightarrow> (p', Inr job))"

definition MarkCompleted :: "pg \<Rightarrow> uuid \<Rightarrow> json \<Rightarrow> pg \<times> (pgerr + unit)" where
  "MarkCompleted p k result = exec (complete_stmt k result) p"

definition MarkForRetry :: "pg \<Rightarrow> uuid \<Rightarrow> int \<Rightarrow> string \<Rightarrow> pg \<times> (pgerr + unit)" where
  "MarkForRetry p k retryCount errMsg = exec (retry_stmt k retryCount errMsg) p"

definition DeadLetter :: "pg \<Rightarrow> uuid \<Rightarrow> int \<Rightarrow> string \<Rightarrow> pg \<times> (pgerr + unit)" where
  "DeadLetter p k attempts reason =
     (case tx_begin p of
        (p1, Inl e) \<Rightarrow> (p1, Inl e)
      | (p1, Inr w1) \<Rightarrow>
          (case tx_exec (fail_stmt k attempts reason) w1 p1 of
             (p2, Inl e) \<Rightarrow> (p2, Inl e)
           | (p2, Inr (w2, _)) \<Rightarrow>
               (case tx_exec (dlq_stmt k reason attempts) w2 p2 of
                  (p3, Inl e) \<Rightarrow> (p3, Inl e)
                | (p3, Inr (w3, _)) \<Rightarrow> tx_commit w3 p3)))"

subsection \<open>list.go\<close>

record job_filter =
  jf_Queue :: string
  jf_Status :: string
  jf_Limit :: int
  jf_Offset :: int

text \<open>The \<open>WHERE\<close> clause \<open>ListJobs\<close> assembles: the tenant always first, the filters when given.\<close>

definition list_conds :: "uuid \<Rightarrow> job_filter \<Rightarrow> (job \<Rightarrow> bool) list" where
  "list_conds tenantID f =
     [\<lambda>j. job_TenantID j = tenantID] @
     (if jf_Queue f \<noteq> [] then [\<lambda>j. job_QueueName j = jf_Queue f] else []) @
     (if jf_Status f \<noteq> [] then [\<lambda>j. job_Status j = jf_Status f] else [])"

definition list_where :: "uuid \<Rightarrow> job_filter \<Rightarrow> job \<Rightarrow> bool" where
  "list_where tenantID f j = list_all (\<lambda>c. c j) (list_conds tenantID f)"

text \<open>
  \<open>ORDER BY created_at DESC LIMIT l OFFSET o\<close>: Postgres refuses a negative \<open>LIMIT\<close> or \<open>OFFSET\<close>.
  Rows with the same \<open>created_at\<close> come in the order of the table.
\<close>

definition list_args_ok :: "pg \<Rightarrow> job_filter \<Rightarrow> bool" where
  "list_args_ok p f \<longleftrightarrow> (jf_Queue f \<noteq> [] \<longrightarrow> pg_text_ok p (jf_Queue f)) \<and> (jf_Status f \<noteq> [] \<longrightarrow> pg_text_ok p (jf_Status f))"

definition count_stmt :: "uuid \<Rightarrow> job_filter \<Rightarrow> int stmt" where
  "count_stmt tenantID f p =
     (if \<not> list_args_ok p f then Inl Encode_error
      else Inr (pg_db p, int (length (filter (list_where tenantID f) (jobs (pg_db p))))))"

definition page_stmt :: "uuid \<Rightarrow> job_filter \<Rightarrow> job list stmt" where
  "page_stmt tenantID f p =
     (if \<not> list_args_ok p f \<or> jf_Limit f < 0 \<or> jf_Offset f < 0 then Inl Encode_error
      else Inr (pg_db p, take (nat (jf_Limit f)) (drop (nat (jf_Offset f))
             (sort_key (\<lambda>j. - job_CreatedAt j) (filter (list_where tenantID f) (jobs (pg_db p)))))))"

definition ListJobs :: "pg \<Rightarrow> uuid \<Rightarrow> job_filter \<Rightarrow> pg \<times> (store_err + job list \<times> int)" where
  "ListJobs p tenantID f =
     (case exec (count_stmt tenantID f) p of
        (p', Inl e) \<Rightarrow> (p', Inl (Wrapped ''count jobs'' e))
      | (p', Inr tot) \<Rightarrow>
          (case exec (page_stmt tenantID f) p' of
             (p'', Inl e) \<Rightarrow> (p'', Inl (Wrapped ''list jobs'' e))
           | (p'', Inr rows) \<Rightarrow> (p'', Inr (rows, tot))))"

text \<open>\<open>SELECT DISTINCT queue_name \<dots> ORDER BY queue_name\<close>, for one tenant or for all.\<close>

definition queue_names_stmt :: "(job \<Rightarrow> bool) \<Rightarrow> string list stmt" where
  "queue_names_stmt w p = Inr (pg_db p, sort (remdups (map job_QueueName (filter w (jobs (pg_db p))))))"

definition scanQueueNames :: "pg \<Rightarrow> string list stmt \<Rightarrow> pg \<times> (store_err + string list)" where
  "scanQueueNames p q =
     (case exec q p of
        (p', Inl e) \<Rightarrow> (p', Inl (Wrapped ''queue names'' e))
      | (p', Inr names) \<Rightarrow> (p', Inr names))"

definition QueueNames :: "pg \<Rightarrow> uuid \<Rightarrow> pg \<times> (store_err + string list)" where
  "QueueNames p tenantID = scanQueueNames p (queue_names_stmt (\<lambda>j. job_TenantID j = tenantID))"

definition AllQueueNames :: "pg \<Rightarrow> pg \<times> (store_err + string list)" where
  "AllQueueNames p = scanQueueNames p (queue_names_stmt (\<lambda>_. True))"

text \<open>The transaction of \<open>RetryJob\<close> up to its commit.\<close>

definition retry_tx :: "uuid \<Rightarrow> uuid \<Rightarrow> pg \<Rightarrow> pg \<times> (store_err + db \<times> job)" where
  "retry_tx tenantID k p =
     (case tx_begin p of
        (p1, Inl e) \<Rightarrow> (p1, Inl (Wrapped [] e))
      | (p1, Inr w1) \<Rightarrow>
          (case tx_exec (select_jobs (\<lambda>j. job_ID j = k \<and> job_TenantID j = tenantID)) w1 p1 of
             (p2, Inl e) \<Rightarrow> (p2, Inl (Wrapped ''load job for retry'' e))
           | (p2, Inr (w2, rows)) \<Rightarrow>
               (case first_row rows of
                  None \<Rightarrow> (p2, Inl ErrJobNotFound)
                | Some row \<Rightarrow>
                    if job_Status row \<noteq> StatusFailed then (p2, Inl ErrJobNotRetryable)
                    else
                      (case tx_exec (reset_stmt k) w2 p2 of
                         (p3, Inl e) \<Rightarrow> (p3, Inl (Wrapped ''reset job for retry'' e))
                       | (p3, Inr (w3, None)) \<Rightarrow> (p3, Inl (Wrapped ''reset job for retry'' No_rows))
                       | (p3, Inr (w3, Some job)) \<Rightarrow>
                           (case tx_exec (dlq_delete_stmt k) w3 p3 of
                              (p4, Inl e) \<Rightarrow> (p4, Inl (Wrapped ''clear dead-letter row'' e))
                            | (p4, Inr (w4, _)) \<Rightarrow> (p4, Inr (w4, job)))))))"

definition RetryJob :: "pg \<Rightarrow> uuid \<Rightarrow> uuid \<Rightarrow> pg \<times> (store_err + job)" where
  "RetryJob p tenantID k =
     (case retry_tx tenantID k p of
        (p4, Inl e) \<Rightarrow> (p4, Inl e)
      | (p4, Inr (w, job)) \<Rightarrow>
          (case tx_commit w p4 of
             (p5, Inl e) \<Rightarrow> (p5, Inl (Wrapped [] e))
           | (p5, Inr _) \<Rightarrow> (p5, Inr job)))"

definition jobExists :: "pg \<Rightarrow> uuid \<Rightarrow> uuid \<Rightarrow> pg \<times> (store_err + bool)" where
  "jobExists p tenantID k =
     (case exec (select_jobs (\<lambda>j. job_ID j = k \<and> job_TenantID j = tenantID)) p of
        (p', Inl e) \<Rightarrow> (p', Inl (Wrapped ''check job exists'' e))
      | (p', Inr rows) \<Rightarrow> (p', Inr (rows \<noteq> [])))"

definition CancelJob :: "pg \<Rightarrow> uuid \<Rightarrow> uuid \<Rightarrow> pg \<times> (store_err + job)" where
  "CancelJob p tenantID k =
     (case exec (cancel_stmt tenantID k) p of
        (p', Inl e) \<Rightarrow> (p', Inl (Wrapped ''cancel job'' e))
      | (p', Inr (Some job)) \<Rightarrow> (p', Inr job)
      | (p', Inr None) \<Rightarrow>
          (case jobExists p' tenantID k of
             (p'', Inl e) \<Rightarrow> (p'', Inl e)
           | (p'', Inr False) \<Rightarrow> (p'', Inl ErrJobNotFound)
           | (p'', Inr True) \<Rightarrow> (p'', Inl ErrJobNotCancellable)))"

subsection \<open>Statements by primary key\<close>

text \<open>
  With unique job ids every \<open>UPDATE\<close> of the store is the replacement of one row: \<open>put_job\<close>. The
  columns no statement of the store ever sets are \<open>same_spec\<close>.
\<close>

definition put_job :: "job \<Rightarrow> db \<Rightarrow> db" where
  "put_job j' d = d\<lparr>jobs := sql_update (\<lambda>j. job_ID j = job_ID j') (\<lambda>_. j') (jobs d)\<rparr>"

definition same_spec :: "job \<Rightarrow> job \<Rightarrow> bool" where
  "same_spec a b \<longleftrightarrow> job_ID a = job_ID b \<and> job_TenantID a = job_TenantID b \<and>
     job_QueueName a = job_QueueName b \<and> job_JobType a = job_JobType b \<and>
     job_Payload a = job_Payload b \<and> job_MaxRetries a = job_MaxRetries b \<and>
     job_ScheduledAt a = job_ScheduledAt b \<and> job_CreatedAt a = job_CreatedAt b"

lemmas set_clauses = claimed_def completed_def retried_def failed_def reset_def cancelled_def

lemma same_spec_set_clauses [simp]:
  "same_spec (set_updated_at now j) j" "same_spec (claimed now j) j" "same_spec (completed r now j) j"
  "same_spec (retried n m j) j" "same_spec (failed n m now j) j" "same_spec (reset j) j"
  "same_spec (cancelled now j) j"
  by (simp_all add: same_spec_def set_updated_at_def set_clauses)

lemma same_spec_trans: "same_spec a b \<Longrightarrow> same_spec b c \<Longrightarrow> same_spec a c"
  by (simp add: same_spec_def)

lemma same_spec_refl [simp]: "same_spec a a"
  by (simp add: same_spec_def)

lemma same_spec_updated [simp]: "same_spec (f j) j \<Longrightarrow> same_spec (set_updated_at now (f j)) j"
  by (rule same_spec_trans [OF same_spec_set_clauses(1)])

lemma same_specD:
  assumes "same_spec a b"
  shows "job_ID a = job_ID b" "job_TenantID a = job_TenantID b" "job_QueueName a = job_QueueName b"
    "job_JobType a = job_JobType b" "job_Payload a = job_Payload b" "job_MaxRetries a = job_MaxRetries b"
  using assms by (simp_all add: same_spec_def)

lemma set_clause_ID [simp]:
  "job_ID (set_updated_at now j) = job_ID j" "job_ID (claimed now j) = job_ID j"
  "job_ID (completed r now j) = job_ID j" "job_ID (retried n m j) = job_ID j"
  "job_ID (failed n m now j) = job_ID j" "job_ID (reset j) = job_ID j" "job_ID (cancelled now j) = job_ID j"
  by (simp_all add: set_updated_at_def set_clauses)

lemma job_of_ID: "job_of d k = Some j \<Longrightarrow> job_ID j = k"
  by (auto dest: row_by_SomeD)

lemma put_job_frame [simp]:
  "dead_letter_queue (put_job j d) = dead_letter_queue d" "job_schedules (put_job j d) = job_schedules d"
  "tenants (put_job j d) = tenants d" "map job_ID (jobs (put_job j d)) = map job_ID (jobs d)"
  by (auto simp: put_job_def sql_update_def)

lemma job_of_put_job [store_simps]:
  "job_of (put_job j' d) k = (if k = job_ID j' \<and> job_of d k \<noteq> None then Some j' else job_of d k)"
proof -
  have "row_by job_ID k (sql_update (\<lambda>j. job_ID j = job_ID j') (\<lambda>_. j') rows) =
     (if k = job_ID j' \<and> row_by job_ID k rows \<noteq> None then Some j' else row_by job_ID k rows)" for rows
    by (induction rows) (auto simp: sql_update_def)
  then show ?thesis by (simp add: put_job_def)
qed

lemma set_jobs_put_job:
  "set (jobs (put_job j' d)) \<subseteq> insert j' {j \<in> set (jobs d). job_ID j \<noteq> job_ID j'}"
  by (auto simp: put_job_def set_update)

lemma update_jobs_put:
  assumes "distinct (map job_ID (jobs (pg_db p)))" and "\<And>j. job_ID (f j) = job_ID j"
  shows "update_jobs (\<lambda>j. job_ID j = k \<and> w j) f p =
    (case job_of (pg_db p) k of
       None \<Rightarrow> pg_db p
     | Some j \<Rightarrow> if w j then put_job (set_updated_at (pg_now p) (f j)) (pg_db p) else pg_db p)"
proof -
  have "sql_update (\<lambda>j. job_ID j = k \<and> w j) g rows =
     (case row_by job_ID k rows of
        None \<Rightarrow> rows
      | Some j \<Rightarrow> if w j then sql_update (\<lambda>j. job_ID j = k) (\<lambda>_. g j) rows else rows)"
    if "distinct (map job_ID rows)" for g rows
    using that
  proof (induction rows)
    case Nil
    then show ?case by (simp add: sql_update_def)
  next
    case (Cons r rs)
    then have "job_ID r = k \<Longrightarrow> job_ID ` set rs \<subseteq> - {k}" by auto
    then have "job_ID r = k \<Longrightarrow> sql_update (\<lambda>j. job_ID j = k \<and> w j) g rs = rs"
      "job_ID r = k \<Longrightarrow> sql_update (\<lambda>j. job_ID j = k) (\<lambda>_. g r) rs = rs"
      by (intro update_id; blast)+
    with Cons show ?case by (auto simp: sql_update_def split: option.splits)
  qed
  from this [OF assms(1)] show ?thesis
    by (auto simp: update_jobs_def put_job_def assms(2) split: option.splits dest!: job_of_ID)
qed

lemma update_jobs_put_all:
  assumes "distinct (map job_ID (jobs (pg_db p)))" and "\<And>j. job_ID (f j) = job_ID j"
  shows "update_jobs (\<lambda>j. job_ID j = k) f p =
    (case job_of (pg_db p) k of
       None \<Rightarrow> pg_db p
     | Some j \<Rightarrow> put_job (set_updated_at (pg_now p) (f j)) (pg_db p))"
  using update_jobs_put [OF assms, of k "\<lambda>_. True"] by (simp split: option.splits)

lemma updated_jobs_row:
  assumes "distinct (map job_ID (jobs (pg_db p)))"
  shows "first_row (updated_jobs (\<lambda>j. job_ID j = k \<and> w j) f p) =
    (case job_of (pg_db p) k of
       None \<Rightarrow> None
     | Some j \<Rightarrow> if w j then Some (set_updated_at (pg_now p) (f j)) else None)"
  using assms
  by (auto simp: updated_jobs_def first_returning_by_key filter_by_key split: option.splits)

lemma updated_jobs_row_all:
  assumes "distinct (map job_ID (jobs (pg_db p)))"
  shows "first_row (updated_jobs (\<lambda>j. job_ID j = k) f p) =
    map_option (\<lambda>j. set_updated_at (pg_now p) (f j)) (job_of (pg_db p) k)"
  using updated_jobs_row [OF assms, of k "\<lambda>_. True"] by (auto split: option.splits)

lemma select_by_key:
  assumes "distinct (map job_ID (jobs d))"
  shows "first_row (filter (\<lambda>j. job_ID j = k \<and> w j) (jobs d)) =
    (case job_of d k of None \<Rightarrow> None | Some j \<Rightarrow> if w j then Some j else None)"
    and "filter (\<lambda>j. job_ID j = k \<and> w j) (jobs d) \<noteq> [] \<longleftrightarrow> (\<exists>j. job_of d k = Some j \<and> w j)"
  using assms by (auto simp: filter_by_key split: option.splits if_splits)

text \<open>Replacing a row by one with the same unchanging columns keeps the schema.\<close>

lemma schema_put_job:
  assumes "schema_ok d" and "job_of d (job_ID j) = Some j" and "same_spec j' j" and "int4 (job_RetryCount j')"
  shows "schema_ok (put_job j' d)"
proof -
  from assms(2) have j: "j \<in> set (jobs d)" by (auto dest: row_by_SomeD)
  have rows: "\<exists>y \<in> set (jobs d). same_spec x y \<and> int4 (job_RetryCount x)"
    if "x \<in> set (jobs (put_job j' d))" for x
  proof -
    from that set_jobs_put_job [of j' d] have "x = j' \<or> x \<in> set (jobs d)" by auto
    then show ?thesis
    proof
      assume "x = j'"
      with j assms(3,4) show ?thesis by auto
    next
      assume "x \<in> set (jobs d)"
      with schema_row [OF assms(1)] show ?thesis by (intro bexI [of _ x]) simp_all
    qed
  qed
  have "job_TenantID x \<in> tenant_ID ` set (tenants d)"
    "job_Payload x \<noteq> None \<and> int4 (job_RetryCount x) \<and> int4 (job_MaxRetries x)"
    if x: "x \<in> set (jobs (put_job j' d))" for x
  proof -
    obtain y where y: "y \<in> set (jobs d)" "same_spec x y" and n: "int4 (job_RetryCount x)"
      using rows [OF x] by blast
    with schema_row [OF assms(1) y(1)] show "job_TenantID x \<in> tenant_ID ` set (tenants d)"
      "job_Payload x \<noteq> None \<and> int4 (job_RetryCount x) \<and> int4 (job_MaxRetries x)"
      by (simp_all add: same_specD [OF y(2)])
  qed
  then have t: "job_TenantID ` set (jobs (put_job j' d)) \<subseteq> tenant_ID ` set (tenants d)"
    and r: "\<forall>x \<in> set (jobs (put_job j' d)).
      job_Payload x \<noteq> None \<and> int4 (job_RetryCount x) \<and> int4 (job_MaxRetries x)"
    by (blast, blast)
  have ids: "job_ID ` set (jobs (put_job j' d)) = job_ID ` set (jobs d)"
    by (metis list.set_map put_job_frame(4))
  note s = assms(1) [unfolded schema_ok_def]
  from s t r show ?thesis
    by (subst schema_ok_def, unfold put_job_frame ids, elim conjE, intro conjI) assumption+
qed

subsection \<open>Effects of the store's functions\<close>

text \<open>
  \<open>set_job\<close> and \<open>set_row\<close>: what a guarded \<open>UPDATE \<dots> WHERE id = k AND \<dots> RETURNING\<close> leaves and
  returns. The effect lemmas hold for every script of network outcomes: a call leaves the tables
  as they were or as its statement makes them, and success means the latter.
\<close>

definition set_job :: "pg \<Rightarrow> uuid \<Rightarrow> (job \<Rightarrow> bool) \<Rightarrow> (job \<Rightarrow> job) \<Rightarrow> db" where
  "set_job p k w f =
     (case job_of (pg_db p) k of
        None \<Rightarrow> pg_db p
      | Some j \<Rightarrow> if w j then put_job (set_updated_at (pg_now p) (f j)) (pg_db p) else pg_db p)"

definition set_row :: "pg \<Rightarrow> uuid \<Rightarrow> (job \<Rightarrow> bool) \<Rightarrow> (job \<Rightarrow> job) \<Rightarrow> job option" where
  "set_row p k w f =
     (case job_of (pg_db p) k of
        None \<Rightarrow> None
      | Some j \<Rightarrow> if w j then Some (set_updated_at (pg_now p) (f j)) else None)"

definition dead_db :: "pg \<Rightarrow> uuid \<Rightarrow> int \<Rightarrow> string \<Rightarrow> db" where
  "dead_db p k attempts reason =
     (case job_of (pg_db p) k of
        None \<Rightarrow> pg_db p
      | Some j \<Rightarrow> (put_job (set_updated_at (pg_now p) (failed attempts reason (pg_now p) j)) (pg_db p))
           \<lparr>dead_letter_queue := dlq_upsert \<lparr>dlq_job_id = k, dlq_tenant_id = job_TenantID j,
              dlq_reason = reason, dlq_attempts = attempts, dlq_created_at = pg_now p\<rparr>
              (dead_letter_queue (pg_db p))\<rparr>)"

definition reset_db :: "pg \<Rightarrow> uuid \<Rightarrow> db" where
  "reset_db p k =
     (set_job p k (\<lambda>_. True) reset)
       \<lparr>dead_letter_queue := sql_delete (\<lambda>r. dlq_job_id r = k) (dead_letter_queue (pg_db p))\<rparr>"

lemma claim_stmt_eq:
  "schema_ok (pg_db p) \<Longrightarrow> claim_stmt k p =
     Inr (set_job p k (\<lambda>j. job_Status j = StatusPending) (claimed (pg_now p)),
          set_row p k (\<lambda>j. job_Status j = StatusPending) (claimed (pg_now p)))"
  by (simp add: claim_stmt_def Let_def update_jobs_put updated_jobs_row set_job_def set_row_def)

lemma cancel_stmt_eq:
  "schema_ok (pg_db p) \<Longrightarrow> cancel_stmt t k p =
     Inr (set_job p k (\<lambda>j. job_TenantID j = t \<and> job_Status j = StatusPending) (cancelled (pg_now p)),
          set_row p k (\<lambda>j. job_TenantID j = t \<and> job_Status j = StatusPending) (cancelled (pg_now p)))"
  by (simp add: cancel_stmt_def Let_def update_jobs_put updated_jobs_row set_job_def set_row_def)

lemma complete_stmt_eq:
  "schema_ok (pg_db p) \<Longrightarrow> complete_stmt k r p =
     (case pg_jsonb p r of None \<Rightarrow> Inl Encode_error
      | Some r' \<Rightarrow> Inr (set_job p k (\<lambda>_. True) (completed r' (pg_now p)), ()))"
  by (simp add: complete_stmt_def update_jobs_put_all set_job_def split: option.splits)

lemma retry_stmt_eq:
  "schema_ok (pg_db p) \<Longrightarrow> retry_stmt k n m p =
     (if \<not> int4 n \<or> \<not> pg_text_ok p m then Inl Encode_error
      else Inr (set_job p k (\<lambda>_. True) (retried n m), ()))"
  by (simp add: retry_stmt_def update_jobs_put_all set_job_def split: option.splits)

lemma reset_stmt_eq:
  "schema_ok (pg_db p) \<Longrightarrow> reset_stmt k p =
     Inr (set_job p k (\<lambda>_. True) reset, set_row p k (\<lambda>_. True) reset)"
  by (simp add: reset_stmt_def update_jobs_put_all updated_jobs_row_all set_job_def set_row_def
      split: option.splits)

lemma dead_stmts_eq:
  assumes "schema_ok (pg_db p)" and "fail_stmt k n m p = Inr (w, u)"
    and "dlq_stmt k m n (p'\<lparr>pg_db := w\<rparr>) = Inr (w', u')" and "pg_now p' = pg_now p"
  shows "w' = dead_db p k n m"
proof -
  from assms(1,2) have w: "w = set_job p k (\<lambda>_. True) (failed n m (pg_now p))"
    by (auto simp: fail_stmt_def update_jobs_put_all set_job_def split: if_splits option.splits)
  show ?thesis
  proof (cases "job_of (pg_db p) k")
    case None
    then have "filter (\<lambda>j. job_ID j = k) (jobs (pg_db p)) = []"
      by (auto simp: row_by_None_iff filter_empty_conv)
    with None w assms(3) show ?thesis
      by (auto simp: set_job_def dead_db_def dlq_stmt_def split: if_splits)
  next
    case (Some j)
    let ?j = "set_updated_at (pg_now p) (failed n m (pg_now p) j)"
    from Some have id: "job_ID ?j = k" by (simp add: job_of_ID)
    have "distinct (map job_ID (jobs (put_job ?j (pg_db p))))"
      unfolding put_job_frame using assms(1) by simp
    from filter_by_key [OF this, of k "\<lambda>_. True"]
    have "filter (\<lambda>x. job_ID x = k) (jobs (put_job ?j (pg_db p))) = [?j]"
      using Some id by (simp add: job_of_put_job)
    with Some w assms(3,4) id show ?thesis
      by (auto simp: set_job_def dead_db_def dlq_stmt_def failed_def set_updated_at_def split: if_splits)
  qed
qed

lemma ClaimJob_db:
  assumes "schema_ok (pg_db p)"
  shows "pg_db (fst (ClaimJob p k)) \<in>
    {pg_db p, set_job p k (\<lambda>j. job_Status j = StatusPending) (claimed (pg_now p))}"
  using exec_db_cases [of "claim_stmt k" p] assms
  by (auto simp: ClaimJob_def claim_stmt_eq split: prod.splits sum.splits option.splits)

lemma ClaimJob_ok:
  assumes "schema_ok (pg_db p)" and "ClaimJob p k = (p', Inr job)"
  shows "set_row p k (\<lambda>j. job_Status j = StatusPending) (claimed (pg_now p)) = Some job"
    and "pg_db p' = set_job p k (\<lambda>j. job_Status j = StatusPending) (claimed (pg_now p))"
proof -
  from assms(2) have "exec (claim_stmt k) p = (p', Inr (Some job))"
    by (auto simp: ClaimJob_def split: prod.splits sum.splits option.splits)
  from exec_ok [OF this] assms(1) show
    "set_row p k (\<lambda>j. job_Status j = StatusPending) (claimed (pg_now p)) = Some job"
    "pg_db p' = set_job p k (\<lambda>j. job_Status j = StatusPending) (claimed (pg_now p))"
    by (simp_all add: claim_stmt_eq)
qed

lemma MarkCompleted_db:
  assumes "schema_ok (pg_db p)"
  shows "pg_db (fst (MarkCompleted p k r)) = pg_db p \<or>
    (\<exists>r'. pg_jsonb p r = Some r' \<and>
      pg_db (fst (MarkCompleted p k r)) = set_job p k (\<lambda>_. True) (completed r' (pg_now p)))"
  using exec_db_cases [of "complete_stmt k r" p] assms
  by (auto simp: MarkCompleted_def complete_stmt_eq split: option.splits)

lemma MarkCompleted_ok:
  assumes "schema_ok (pg_db p)" and "MarkCompleted p k r = (p', Inr u)"
  shows "\<exists>r'. pg_jsonb p r = Some r' \<and> pg_db p' = set_job p k (\<lambda>_. True) (completed r' (pg_now p))"
  using assms exec_ok [of "complete_stmt k r" p p' u]
  by (auto simp: MarkCompleted_def complete_stmt_eq split: option.splits)

lemma MarkForRetry_db:
  assumes "schema_ok (pg_db p)"
  shows "pg_db (fst (MarkForRetry p k n m)) = pg_db p \<or>
    (int4 n \<and> pg_db (fst (MarkForRetry p k n m)) = set_job p k (\<lambda>_. True) (retried n m))"
  using exec_db_cases [of "retry_stmt k n m" p] assms
  by (auto simp: MarkForRetry_def retry_stmt_eq split: if_splits)

lemma MarkForRetry_ok:
  assumes "schema_ok (pg_db p)" and "MarkForRetry p k n m = (p', Inr u)"
  shows "int4 n \<and> pg_db p' = set_job p k (\<lambda>_. True) (retried n m)"
  using assms exec_ok [of "retry_stmt k n m" p p' u]
  by (auto simp: MarkForRetry_def retry_stmt_eq split: if_splits)

lemma CancelJob_db:
  assumes "schema_ok (pg_db p)"
  shows "pg_db (fst (CancelJob p t k)) \<in>
    {pg_db p, set_job p k (\<lambda>j. job_TenantID j = t \<and> job_Status j = StatusPending) (cancelled (pg_now p))}"
proof -
  have "pg_db (fst (jobExists q t k)) = pg_db q" for q
    using exec_db_cases [of "select_jobs (\<lambda>j. job_ID j = k \<and> job_TenantID j = t)" q]
    by (auto simp: jobExists_def select_jobs_def split: prod.splits sum.splits)
  from this [of "fst (exec (cancel_stmt t k) p)"] exec_db_cases [of "cancel_stmt t k" p] assms
  show ?thesis
    by (auto simp: CancelJob_def cancel_stmt_eq split: prod.splits sum.splits option.splits bool.splits)
qed

lemma CancelJob_ok:
  assumes "schema_ok (pg_db p)" and "CancelJob p t k = (p', Inr job)"
  shows "set_row p k (\<lambda>j. job_TenantID j = t \<and> job_Status j = StatusPending) (cancelled (pg_now p)) = Some job"
    and "pg_db p' = set_job p k (\<lambda>j. job_TenantID j = t \<and> job_Status j = StatusPending) (cancelled (pg_now p))"
proof -
  from assms(2) have "exec (cancel_stmt t k) p = (p', Inr (Some job))"
    by (auto simp: CancelJob_def split: prod.splits sum.splits option.splits bool.splits)
  from exec_ok [OF this] assms(1) show
    "set_row p k (\<lambda>j. job_TenantID j = t \<and> job_Status j = StatusPending) (cancelled (pg_now p)) = Some job"
    "pg_db p' = set_job p k (\<lambda>j. job_TenantID j = t \<and> job_Status j = StatusPending) (cancelled (pg_now p))"
    by (simp_all add: cancel_stmt_eq)
qed

text \<open>The transactions: all of their statements, or none.\<close>

lemma dead_db_cong:
  "pg_db q = pg_db p \<Longrightarrow> pg_now q = pg_now p \<Longrightarrow> dead_db q k n m = dead_db p k n m"
  by (simp add: dead_db_def split: option.split)

lemma DeadLetter_committed:
  assumes "schema_ok (pg_db p)" and "tx_begin p = (p1, Inr w1)"
    and "tx_exec (fail_stmt k n m) w1 p1 = (p2, Inr (w2, u2))"
    and "tx_exec (dlq_stmt k m n) w2 p2 = (p3, Inr (w3, u3))"
  shows "int4 n \<and> w3 = dead_db p k n m \<and> pg_db p3 = pg_db p"
proof -
  from tx_begin_ok [OF assms(2)] have 1: "w1 = pg_db p" "pg_db p1 = pg_db p" by auto
  have n1: "pg_now p1 = pg_now p" using assms(2) tx_frame(4) [of p] by simp
  from tx_exec_ok [OF assms(3)] 1 have 2: "fail_stmt k n m (p1\<lparr>pg_db := pg_db p\<rparr>) = Inr (w2, u2)" "pg_db p2 = pg_db p"
    by auto
  have n2: "pg_now p2 = pg_now p1" using assms(3) tx_frame(1) [of "fail_stmt k n m" w1 p1] by simp
  from tx_exec_ok [OF assms(4)] 2 have 3: "dlq_stmt k m n (p2\<lparr>pg_db := w2\<rparr>) = Inr (w3, u3)" "pg_db p3 = pg_db p"
    by auto
  have "w3 = dead_db (p1\<lparr>pg_db := pg_db p\<rparr>) k n m"
    by (rule dead_stmts_eq [OF _ 2(1) 3(1)]) (simp_all add: assms(1) n2)
  moreover have "int4 n" using 2(1) by (auto simp: fail_stmt_def split: if_splits)
  moreover have "dead_db (p1\<lparr>pg_db := pg_db p\<rparr>) k n m = dead_db p k n m"
    by (rule dead_db_cong) (simp_all add: n1)
  ultimately show ?thesis using 3(2) by simp
qed

lemma DeadLetter_db:
  assumes "schema_ok (pg_db p)"
  shows "pg_db (fst (DeadLetter p k n m)) = pg_db p \<or>
    (int4 n \<and> pg_db (fst (DeadLetter p k n m)) = dead_db p k n m)"
proof (cases "\<exists>p1 w1 p2 w2 u2 p3 w3 u3. tx_begin p = (p1, Inr w1) \<and>
    tx_exec (fail_stmt k n m) w1 p1 = (p2, Inr (w2, u2)) \<and> tx_exec (dlq_stmt k m n) w2 p2 = (p3, Inr (w3, u3))")
  case True
  then obtain p1 w1 p2 w2 u2 p3 w3 u3 where tx: "tx_begin p = (p1, Inr w1)"
    "tx_exec (fail_stmt k n m) w1 p1 = (p2, Inr (w2, u2))" "tx_exec (dlq_stmt k m n) w2 p2 = (p3, Inr (w3, u3))"
    by blast
  from DeadLetter_committed [OF assms tx] tx_commit_db_cases [of w3 p3] tx show ?thesis
    by (auto simp: DeadLetter_def)
next
  case False
  have b: "tx_begin p = (p1, r) \<Longrightarrow> pg_db p1 = pg_db p" for p1 r
    using tx_begin_frame [of p] by simp
  have e: "tx_exec s w q = (q', r) \<Longrightarrow> pg_db q' = pg_db q" for s :: "unit stmt" and w q q' r
    using tx_exec_frame [of s w q] by simp
  from False show ?thesis
    by (auto simp: DeadLetter_def split: prod.splits sum.splits) (metis b e)+
qed

lemma DeadLetter_ok:
  assumes "schema_ok (pg_db p)" and "DeadLetter p k n m = (p', Inr u)"
  shows "int4 n \<and> pg_db p' = dead_db p k n m"
proof -
  from assms(2) obtain p1 w1 p2 w2 u2 p3 w3 u3 where tx: "tx_begin p = (p1, Inr w1)"
    "tx_exec (fail_stmt k n m) w1 p1 = (p2, Inr (w2, u2))" "tx_exec (dlq_stmt k m n) w2 p2 = (p3, Inr (w3, u3))"
    and c: "tx_commit w3 p3 = (p', Inr u)"
    by (auto simp: DeadLetter_def split: prod.splits sum.splits)
  from DeadLetter_committed [OF assms(1) tx] tx_commit_ok [OF c] show ?thesis by simp
qed

text \<open>What \<open>RetryJob\<close> commits, and when.\<close>

definition retryable :: "db \<Rightarrow> uuid \<Rightarrow> uuid \<Rightarrow> bool" where
  "retryable d t k \<longleftrightarrow>
     (case job_of d k of None \<Rightarrow> False | Some j \<Rightarrow> job_TenantID j = t \<and> job_Status j = StatusFailed)"

lemma retry_tx_db: "pg_db (fst (retry_tx t k p)) = pg_db p"
proof -
  have b: "tx_begin p = (p1, r) \<Longrightarrow> pg_db p1 = pg_db p" for p1 r
    using tx_begin_frame [of p] by simp
  have e: "tx_exec s w q = (q', r) \<Longrightarrow> pg_db q' = pg_db q" for s :: "'x stmt" and w q q' r
    using tx_exec_frame [of s w q] by simp
  show ?thesis
    by (auto simp: retry_tx_def split: prod.splits sum.splits option.splits dest!: b e)
qed

lemma retry_tx_ok:
  assumes "schema_ok (pg_db p)" and "retry_tx t k p = (p', Inr (w, job))"
  shows "retryable (pg_db p) t k" and "set_row p k (\<lambda>_. True) reset = Some job" and "w = reset_db p k"
proof -
  from assms(2) obtain p1 w1 p2 w2 rows p3 w3 p4 u row where
    b: "tx_begin p = (p1, Inr w1)"
    and q: "tx_exec (select_jobs (\<lambda>j. job_ID j = k \<and> job_TenantID j = t)) w1 p1 = (p2, Inr (w2, rows))"
    and row: "first_row rows = Some row" "job_Status row = StatusFailed"
    and s: "tx_exec (reset_stmt k) w2 p2 = (p3, Inr (w3, Some job))"
    and x: "tx_exec (dlq_delete_stmt k) w3 p3 = (p4, Inr (w, u))"
    by (auto simp: retry_tx_def split: prod.splits sum.splits option.splits if_splits)
  note n = tx_frame(4) [of p] tx_frame(1) [of "select_jobs (\<lambda>j. job_ID j = k \<and> job_TenantID j = t)" w1 p1]
  have now: "pg_now p2 = pg_now p" using n b q by simp
  from tx_begin_ok [OF b] have w1: "w1 = pg_db p" by simp
  from tx_exec_ok [OF q] w1 have w2: "w2 = pg_db p"
    and rows: "rows = filter (\<lambda>j. job_ID j = k \<and> job_TenantID j = t) (jobs (pg_db p))"
    by (auto simp: select_jobs_def)
  from row rows select_by_key(1) [OF schema_distinct(1) [OF assms(1)], of k "\<lambda>j. job_TenantID j = t"]
  show "retryable (pg_db p) t k" by (auto simp: retryable_def split: option.splits if_splits)
  from tx_exec_ok [OF s] w2 assms(1)
  have r: "w3 = set_job (p2\<lparr>pg_db := pg_db p\<rparr>) k (\<lambda>_. True) reset"
    "set_row (p2\<lparr>pg_db := pg_db p\<rparr>) k (\<lambda>_. True) reset = Some job"
    by (simp_all add: reset_stmt_eq)
  with now show "set_row p k (\<lambda>_. True) reset = Some job"
    by (simp add: set_row_def split: option.splits)
  have "set_job (p2\<lparr>pg_db := pg_db p\<rparr>) k (\<lambda>_. True) reset = set_job p k (\<lambda>_. True) reset"
    using now by (simp add: set_job_def split: option.split)
  with tx_exec_ok [OF x] r(1) show "w = reset_db p k"
    by (auto simp: dlq_delete_stmt_def reset_db_def set_job_def split: option.split)
qed

lemma RetryJob_db:
  assumes "schema_ok (pg_db p)"
  shows "pg_db (fst (RetryJob p t k)) = pg_db p \<or>
    (retryable (pg_db p) t k \<and> pg_db (fst (RetryJob p t k)) = reset_db p k)"
proof (cases "retry_tx t k p")
  case (Pair q r)
  have q: "pg_db q = pg_db p" using retry_tx_db [of t k p] Pair by simp
  show ?thesis
  proof (cases r)
    case (Inl e)
    with Pair q show ?thesis by (simp add: RetryJob_def)
  next
    case (Inr wj)
    obtain w job where "wj = (w, job)" by force
    with Pair Inr retry_tx_ok [OF assms, of t k q w job] tx_commit_db_cases [of w q] q show ?thesis
      by (auto simp: RetryJob_def split: prod.splits sum.splits)
  qed
qed

lemma RetryJob_ok:
  assumes "schema_ok (pg_db p)" and "RetryJob p t k = (p', Inr job)"
  shows "retryable (pg_db p) t k \<and> set_row p k (\<lambda>_. True) reset = Some job \<and> pg_db p' = reset_db p k"
proof -
  from assms(2) obtain q w u where r: "retry_tx t k p = (q, Inr (w, job))" and c: "tx_commit w q = (p', Inr u)"
    by (auto simp: RetryJob_def split: prod.splits sum.splits)
  from retry_tx_ok [OF assms(1) r] tx_commit_ok [OF c] show ?thesis by simp
qed

text \<open>The row \<open>CreateJob\<close> inserts.\<close>

definition inserted :: "pg \<Rightarrow> job \<Rightarrow> json \<Rightarrow> job" where
  "inserted p job payload = job\<lparr>job_Payload := Some payload, job_Result := None, job_ErrorMessage := None,
     job_RetryCount := 0, job_StartedAt := None, job_CompletedAt := None,
     job_CreatedAt := pg_now p, job_UpdatedAt := pg_now p\<rparr>"

definition insertable :: "db \<Rightarrow> job \<Rightarrow> bool" where
  "insertable d job \<longleftrightarrow> job_of d (job_ID job) = None \<and>
     job_TenantID job \<in> tenant_ID ` set (tenants d) \<and> int4 (job_MaxRetries job)"

lemma insert_job_ok:
  "insert_job job p = Inr (d, row) \<Longrightarrow>
     insertable (pg_db p) job \<and> (\<exists>payload. row = inserted p job payload) \<and>
     d = (pg_db p)\<lparr>jobs := jobs (pg_db p) @ [row]\<rparr>"
  by (auto simp: insert_job_def insertable_def inserted_def Let_def split: if_splits option.splits)

lemma CreateJob_db:
  "pg_db (fst (CreateJob p job)) = pg_db p \<or>
    (insertable (pg_db p) job \<and> (\<exists>payload.
      pg_db (fst (CreateJob p job)) = (pg_db p)\<lparr>jobs := jobs (pg_db p) @ [inserted p job payload]\<rparr>))"
  using exec_db_cases [of "insert_job job" p] by (auto simp: CreateJob_def dest!: insert_job_ok)

lemma CreateJob_ok:
  "CreateJob p job = (p', Inr row) \<Longrightarrow> insertable (pg_db p) job \<and> (\<exists>payload. row = inserted p job payload) \<and>
     pg_db p' = (pg_db p)\<lparr>jobs := jobs (pg_db p) @ [row]\<rparr>"
  unfolding CreateJob_def by (drule exec_ok) (auto dest: insert_job_ok)

end
