(* ===== verification/StoreInv.thy ===== *)
theory StoreInv
  imports Store
begin

section \<open>Invariants and contracts of the job store\<close>

text \<open>
  What the functions of \<open>Store\<close> promise their clients. Every function changes the rows of at
  most one job, so its effect is given by the look-ups \<open>job_of\<close> and \<open>dlq_of\<close> afterwards. From
  these come: the schema is kept; the interface \<open>tenant_scoped\<close> (a tenant sees and changes
  its own jobs only, and what other tenants do never shows in its answers); the interface
  \<open>compare_and_swap\<close> (of any number of competing claims at most one wins).
\<close>

subsection \<open>Look-ups after an effect\<close>

lemma set_job_frame [simp]:
  "dead_letter_queue (set_job p k w f) = dead_letter_queue (pg_db p)"
  "job_schedules (set_job p k w f) = job_schedules (pg_db p)" "tenants (set_job p k w f) = tenants (pg_db p)"
  by (simp_all add: set_job_def split: option.split)

lemma job_of_set_job [store_simps]:
  assumes "\<And>j. job_ID (f j) = job_ID j"
  shows "job_of (set_job p k w f) k' =
    (if k' = k then map_option (\<lambda>j. if w j then set_updated_at (pg_now p) (f j) else j) (job_of (pg_db p) k)
     else job_of (pg_db p) k')"
  using assms by (auto simp: set_job_def job_of_put_job split: option.split dest!: job_of_ID)

lemma schema_set_job:
  assumes "schema_ok (pg_db p)"
    and "\<And>j. job_of (pg_db p) k = Some j \<Longrightarrow> w j \<Longrightarrow> same_spec (f j) j \<and> int4 (job_RetryCount (f j))"
  shows "schema_ok (set_job p k w f)"
proof (cases "job_of (pg_db p) k")
  case None
  with assms(1) show ?thesis by (simp add: set_job_def)
next
  case (Some j)
  show ?thesis
  proof (cases "w j")
    case True
    note s = assms(2) [OF Some True]
    have "schema_ok (put_job (set_updated_at (pg_now p) (f j)) (pg_db p))"
      by (rule schema_put_job [OF assms(1), of j])
        (use Some s in \<open>simp_all add: job_of_ID [OF Some], simp add: set_updated_at_def\<close>)
    with Some True show ?thesis by (simp add: set_job_def)
  next
    case False
    with Some assms(1) show ?thesis by (simp add: set_job_def)
  qed
qed

lemma row_int4: "schema_ok d \<Longrightarrow> job_of d k = Some j \<Longrightarrow> int4 (job_RetryCount j) \<and> int4 (job_MaxRetries j)"
  using schema_row by (auto dest!: row_by_SomeD)

lemma row_tenant: "schema_ok d \<Longrightarrow> job_of d k = Some j \<Longrightarrow> job_TenantID j \<in> tenant_ID ` set (tenants d)"
  using schema_row by (auto dest!: row_by_SomeD)

lemma set_clause_RetryCount [simp]:
  "job_RetryCount (claimed now j) = job_RetryCount j" "job_RetryCount (completed r now j) = job_RetryCount j"
  "job_RetryCount (cancelled now j) = job_RetryCount j" "job_RetryCount (retried n m j) = n"
  "job_RetryCount (reset j) = 0" "job_RetryCount (failed n m now j) = n"
  "job_RetryCount (set_updated_at now j) = job_RetryCount j"
  by (simp_all add: set_clauses set_updated_at_def)

lemma set_clause_Status [simp]:
  "job_Status (claimed now j) = StatusProcessing" "job_Status (completed r now j) = StatusCompleted"
  "job_Status (cancelled now j) = StatusCancelled" "job_Status (retried n m j) = StatusPending"
  "job_Status (reset j) = StatusPending" "job_Status (failed n m now j) = StatusFailed"
  "job_Status (set_updated_at now j) = job_Status j"
  by (simp_all add: set_clauses set_updated_at_def)

lemma set_clause_spec [simp]:
  "job_TenantID (claimed now j) = job_TenantID j" "job_TenantID (cancelled now j) = job_TenantID j"
  "job_TenantID (reset j) = job_TenantID j" "job_TenantID (set_updated_at now j) = job_TenantID j"
  "job_TenantID (completed r now j) = job_TenantID j" "job_TenantID (retried n m j) = job_TenantID j"
  "job_TenantID (failed n m now j) = job_TenantID j"
  "job_MaxRetries (claimed now j) = job_MaxRetries j" "job_MaxRetries (cancelled now j) = job_MaxRetries j"
  "job_MaxRetries (reset j) = job_MaxRetries j" "job_MaxRetries (set_updated_at now j) = job_MaxRetries j"
  "job_MaxRetries (completed r now j) = job_MaxRetries j" "job_MaxRetries (retried n m j) = job_MaxRetries j"
  "job_MaxRetries (failed n m now j) = job_MaxRetries j"
  by (simp_all add: set_clauses set_updated_at_def)

lemma dlq_of_upsert:
  "row_by dlq_job_id k (dlq_upsert r rows) =
     (if k = dlq_job_id r then
        (case row_by dlq_job_id k rows of
           None \<Rightarrow> Some r
         | Some x \<Rightarrow> Some (x\<lparr>dlq_reason := dlq_reason r, dlq_attempts := dlq_attempts r\<rparr>))
      else row_by dlq_job_id k rows)"
  by (auto simp: dlq_upsert_def row_by_append row_by_update dest!: row_by_SomeD split: option.splits)

lemma keys_upsert:
  "dlq_job_id ` set (dlq_upsert r rows) = insert (dlq_job_id r) (dlq_job_id ` set rows)"
  "distinct (map dlq_job_id rows) \<Longrightarrow> distinct (map dlq_job_id (dlq_upsert r rows))"
proof -
  have u: "map dlq_job_id (sql_update w (\<lambda>x. x\<lparr>dlq_reason := a, dlq_attempts := b\<rparr>) rows) = map dlq_job_id rows" for w a b
    by (rule map_key_update) simp
  have "row_by dlq_job_id (dlq_job_id r) rows \<noteq> None \<Longrightarrow> dlq_job_id r \<in> dlq_job_id ` set rows"
    by (simp add: row_by_None_iff)
  moreover have "dlq_job_id ` set (sql_update w (\<lambda>x. x\<lparr>dlq_reason := a, dlq_attempts := b\<rparr>) rows) = dlq_job_id ` set rows" for w a b
    using u by (metis list.set_map)
  ultimately show "dlq_job_id ` set (dlq_upsert r rows) = insert (dlq_job_id r) (dlq_job_id ` set rows)"
    by (auto simp: dlq_upsert_def)
  show "distinct (map dlq_job_id rows) \<Longrightarrow> distinct (map dlq_job_id (dlq_upsert r rows))"
    using u by (auto simp: dlq_upsert_def row_by_None_iff)
qed

lemma job_of_dead_db [store_simps]:
  "job_of (dead_db p k n m) k' =
     (if k' = k then map_option (\<lambda>j. set_updated_at (pg_now p) (failed n m (pg_now p) j)) (job_of (pg_db p) k)
      else job_of (pg_db p) k')"
  by (auto simp: dead_db_def job_of_put_job split: option.split dest!: job_of_ID)

lemma dlq_of_dead_db [store_simps]:
  "dlq_of (dead_db p k n m) k' =
     (case job_of (pg_db p) k of
        None \<Rightarrow> dlq_of (pg_db p) k'
      | Some j \<Rightarrow>
          if k' \<noteq> k then dlq_of (pg_db p) k'
          else case dlq_of (pg_db p) k of
            None \<Rightarrow> Some \<lparr>dlq_job_id = k, dlq_tenant_id = job_TenantID j, dlq_reason = m, dlq_attempts = n,
                          dlq_created_at = pg_now p\<rparr>
          | Some x \<Rightarrow> Some (x\<lparr>dlq_reason := m, dlq_attempts := n\<rparr>))"
  by (auto simp: dead_db_def dlq_of_upsert split: option.split)

lemma job_of_reset_db [store_simps]:
  "job_of (reset_db p k) k' =
     (if k' = k then map_option (\<lambda>j. set_updated_at (pg_now p) (reset j)) (job_of (pg_db p) k)
      else job_of (pg_db p) k')"
  by (simp add: reset_db_def job_of_set_job)

lemma dlq_of_reset_db [store_simps]:
  "dlq_of (reset_db p k) k' = (if k' = k then None else dlq_of (pg_db p) k')"
  by (simp add: reset_db_def row_by_delete)

lemma schema_dlq:
  assumes "schema_ok d" and "distinct (map dlq_job_id rows)" and "dlq_job_id ` set rows \<subseteq> job_ID ` set (jobs d)"
  shows "schema_ok (d\<lparr>dead_letter_queue := rows\<rparr>)"
  using assms unfolding schema_ok_def by simp

lemma schema_dead_db:
  assumes "schema_ok (pg_db p)" and "int4 n"
  shows "schema_ok (dead_db p k n m)"
proof (cases "job_of (pg_db p) k")
  case None
  with assms(1) show ?thesis by (simp add: dead_db_def)
next
  case (Some j)
  let ?d = "put_job (set_updated_at (pg_now p) (failed n m (pg_now p) j)) (pg_db p)"
  have "?d = set_job p k (\<lambda>_. True) (failed n m (pg_now p))"
    using Some by (simp add: set_job_def)
  then have s: "schema_ok ?d"
    using schema_set_job [OF assms(1), of k "\<lambda>_. True" "failed n m (pg_now p)"] assms(2) by simp
  have ids: "job_ID ` set (jobs ?d) = job_ID ` set (jobs (pg_db p))"
    by (metis list.set_map put_job_frame(4))
  from Some have "k \<in> job_ID ` set (jobs (pg_db p))" by (auto dest: row_by_SomeD)
  moreover from assms(1) have "dlq_job_id ` set (dead_letter_queue (pg_db p)) \<subseteq> job_ID ` set (jobs (pg_db p))"
    unfolding schema_ok_def by blast
  ultimately show ?thesis
    using Some assms(1) s unfolding dead_db_def
    by (simp, intro schema_dlq) (simp_all add: keys_upsert ids)
qed

lemma schema_reset_db:
  assumes "schema_ok (pg_db p)"
  shows "schema_ok (reset_db p k)"
proof -
  have s: "schema_ok (set_job p k (\<lambda>_. True) reset)"
    by (rule schema_set_job [OF assms]) (simp add: int4_def)
  then have "dlq_job_id ` set (dead_letter_queue (pg_db p)) \<subseteq> job_ID ` set (jobs (set_job p k (\<lambda>_. True) reset))"
    unfolding schema_ok_def by simp
  with s assms show ?thesis
    unfolding reset_db_def by (intro schema_dlq) (auto simp: sql_delete_def intro!: distinct_map_filter)
qed

lemma schema_insert:
  assumes "schema_ok (pg_db p)" and "insertable (pg_db p) job"
  shows "schema_ok ((pg_db p)\<lparr>jobs := jobs (pg_db p) @ [inserted p job payload]\<rparr>)"
  using assms unfolding schema_ok_def insertable_def
  by (auto simp: inserted_def row_by_None_iff int4_def)

lemma job_of_insert [store_simps]:
  assumes "insertable (pg_db p) job"
  shows "job_of ((pg_db p)\<lparr>jobs := jobs (pg_db p) @ [inserted p job payload]\<rparr>) k =
    (if k = job_ID job then Some (inserted p job payload) else job_of (pg_db p) k)"
  using assms by (auto simp: insertable_def row_by_append inserted_def split: option.split)

subsection \<open>Every function keeps the schema\<close>

lemma ClaimJob_schema: "schema_ok (pg_db p) \<Longrightarrow> schema_ok (pg_db (fst (ClaimJob p k)))"
  using ClaimJob_db [of p k] schema_set_job [of p k] row_int4 [of "pg_db p" k] by auto

lemma MarkCompleted_schema: "schema_ok (pg_db p) \<Longrightarrow> schema_ok (pg_db (fst (MarkCompleted p k r)))"
  using MarkCompleted_db [of p k r] schema_set_job [of p k] row_int4 [of "pg_db p" k] by auto

lemma MarkForRetry_schema: "schema_ok (pg_db p) \<Longrightarrow> schema_ok (pg_db (fst (MarkForRetry p k n m)))"
  using MarkForRetry_db [of p k n m] schema_set_job [of p k] by auto

lemma DeadLetter_schema: "schema_ok (pg_db p) \<Longrightarrow> schema_ok (pg_db (fst (DeadLetter p k n m)))"
  using DeadLetter_db [of p k n m] schema_dead_db by auto

lemma CancelJob_schema: "schema_ok (pg_db p) \<Longrightarrow> schema_ok (pg_db (fst (CancelJob p t k)))"
  using CancelJob_db [of p t k] schema_set_job [of p k] row_int4 [of "pg_db p" k] by auto

lemma RetryJob_schema: "schema_ok (pg_db p) \<Longrightarrow> schema_ok (pg_db (fst (RetryJob p t k)))"
  using RetryJob_db [of p t k] schema_reset_db by auto

lemma CreateJob_schema: "schema_ok (pg_db p) \<Longrightarrow> schema_ok (pg_db (fst (CreateJob p job)))"
  using CreateJob_db [of p job] schema_insert by auto

lemma GetJob_db [simp]: "pg_db (fst (GetJob p t k)) = pg_db p"
  using exec_db_cases [of "select_jobs (\<lambda>j. job_ID j = k \<and> job_TenantID j = t)" p]
  by (auto simp: GetJob_def select_jobs_def split: prod.splits sum.splits option.splits)

lemmas store_schema = ClaimJob_schema MarkCompleted_schema MarkForRetry_schema DeadLetter_schema
  CancelJob_schema RetryJob_schema CreateJob_schema

subsection \<open>Tenants do not see each other\<close>

text \<open>
  \<open>own t d\<close>: the jobs of the database tenant \<open>t\<close> may see. The contract of a tenant-scoped call: a
  job in the answer is the caller's; what other tenants see does not change; and the answer
  depends on nothing but the caller's own jobs (non-interference), whatever the network does.
\<close>

definition own :: "uuid \<Rightarrow> db \<Rightarrow> uuid \<Rightarrow> job option" where
  "own t d k = (case job_of d k of None \<Rightarrow> None | Some j \<Rightarrow> if job_TenantID j = t then Some j else None)"

definition same_server :: "pg \<Rightarrow> pg \<Rightarrow> bool" where
  "same_server p q \<longleftrightarrow> pg_now p = pg_now q \<and> pg_jsonb p = pg_jsonb q \<and> pg_text_ok p = pg_text_ok q \<and> pg_net p = pg_net q"

definition same_view :: "uuid \<Rightarrow> pg \<Rightarrow> pg \<Rightarrow> bool" where
  "same_view t p q \<longleftrightarrow> schema_ok (pg_db p) \<and> schema_ok (pg_db q) \<and> own t (pg_db p) = own t (pg_db q) \<and> same_server p q"

text \<open>A sequence of calls, each by a tenant on a job id.\<close>

fun run_calls :: "('o \<Rightarrow> pg \<Rightarrow> uuid \<Rightarrow> uuid \<Rightarrow> pg \<times> 'a) \<Rightarrow> ('o \<times> uuid \<times> uuid) list \<Rightarrow> pg \<Rightarrow> pg" where
  "run_calls call [] p = p"
| "run_calls call ((f, t, k) # cs) p = run_calls call cs (fst (call f p t k))"

locale tenant_scoped =
  fixes call :: "'o \<Rightarrow> pg \<Rightarrow> uuid \<Rightarrow> uuid \<Rightarrow> pg \<times> (store_err + job)"
  assumes keeps_schema: "schema_ok (pg_db p) \<Longrightarrow> schema_ok (pg_db (fst (call f p t k)))"
    and keeps_server: "pg_net p = [] \<Longrightarrow> same_server (fst (call f p t k)) p"
    and answer_own: "schema_ok (pg_db p) \<Longrightarrow> snd (call f p t k) = Inr j \<Longrightarrow> job_TenantID j = t \<and> job_ID j = k"
    and others_kept: "schema_ok (pg_db p) \<Longrightarrow> t' \<noteq> t \<Longrightarrow> own t' (pg_db (fst (call f p t k))) = own t' (pg_db p)"
    and answer_depends: "same_view t p q \<Longrightarrow> snd (call f p t k) = snd (call f q t k)"
begin

lemma run_keeps:
  "schema_ok (pg_db p) \<Longrightarrow> pg_net p = [] \<Longrightarrow> \<forall>c \<in> set cs. fst (snd c) \<noteq> t \<Longrightarrow> same_view t (run_calls call cs p) p"
proof (induction cs arbitrary: p)
  case Nil
  then show ?case by (simp add: same_view_def same_server_def)
next
  case (Cons c cs)
  obtain f t' k where c: "c = (f, t', k)" by (cases c)
  from Cons have "same_view t (run_calls call cs (fst (call f p t' k))) (fst (call f p t' k))"
    using keeps_schema keeps_server [of p f t' k] by (auto simp: same_server_def c)
  moreover have "same_view t (fst (call f p t' k)) p"
    using Cons.prems keeps_schema keeps_server others_kept [of p t t' f k] by (auto simp: same_view_def c)
  ultimately show ?case by (simp add: same_view_def same_server_def c)
qed

lemma noninterference:
  "schema_ok (pg_db p) \<Longrightarrow> pg_net p = [] \<Longrightarrow> \<forall>c \<in> set cs. fst (snd c) \<noteq> t \<Longrightarrow>
   snd (call f (run_calls call cs p) t k) = snd (call f p t k)"
  by (rule answer_depends [OF run_keeps])

end

text \<open>The result and the connection of a call, by the outcome of its first round trip.\<close>

lemma exec_result:
  "exec s p =
     (let (f, fs) = next_fault (pg_net p) in
      (p\<lparr>pg_net := fs, pg_db := (if f = Lost_request then pg_db p else case s p of Inl e \<Rightarrow> pg_db p | Inr (d, a) \<Rightarrow> d)\<rparr>,
       if f = Delivered then map_sum id snd (s p) else Inl Conn_error))"
  by (cases p) (auto simp: exec_def Let_def split: prod.splits fault.splits sum.splits)

lemma GetJob_result:
  assumes "schema_ok (pg_db p)"
  shows "snd (GetJob p t k) =
    (if fst (next_fault (pg_net p)) \<noteq> Delivered then Inl (Wrapped ''get job'' Conn_error)
     else case own t (pg_db p) k of None \<Rightarrow> Inl ErrJobNotFound | Some j \<Rightarrow> Inr j)"
  using select_by_key(1) [OF schema_distinct(1) [OF assms], of k "\<lambda>j. job_TenantID j = t"]
  by (auto simp: GetJob_def exec_result select_jobs_def own_def split: prod.splits option.splits)

lemma own_exists:
  assumes "schema_ok d"
  shows "filter (\<lambda>j. job_ID j = k \<and> job_TenantID j = t) (jobs d) \<noteq> [] \<longleftrightarrow> own t d k \<noteq> None"
  using select_by_key(2) [OF schema_distinct(1) [OF assms], of k "\<lambda>j. job_TenantID j = t"]
  by (auto simp: own_def split: option.splits)

lemma CancelJob_result:
  assumes "schema_ok (pg_db p)"
  shows "snd (CancelJob p t k) =
    (case next_fault (pg_net p) of (f, fs) \<Rightarrow>
       if f \<noteq> Delivered then Inl (Wrapped ''cancel job'' Conn_error)
       else case own t (pg_db p) k of
         Some j \<Rightarrow>
           if job_Status j = StatusPending then Inr (set_updated_at (pg_now p) (cancelled (pg_now p) j))
           else if fst (next_fault fs) \<noteq> Delivered then Inl (Wrapped ''check job exists'' Conn_error)
           else Inl ErrJobNotCancellable
       | None \<Rightarrow> if fst (next_fault fs) \<noteq> Delivered then Inl (Wrapped ''check job exists'' Conn_error)
                 else Inl ErrJobNotFound)"
proof (cases "set_row p k (\<lambda>j. job_TenantID j = t \<and> job_Status j = StatusPending) (cancelled (pg_now p))")
  case None
  then have "set_job p k (\<lambda>j. job_TenantID j = t \<and> job_Status j = StatusPending) (cancelled (pg_now p)) = pg_db p"
    and "\<And>j. own t (pg_db p) k = Some j \<Longrightarrow> job_Status j \<noteq> StatusPending"
    by (auto simp: set_row_def set_job_def own_def split: option.splits if_splits)
  with None assms own_exists [OF assms, of k t] show ?thesis
    by (auto simp: CancelJob_def jobExists_def exec_result cancel_stmt_eq select_jobs_def
        split: prod.splits option.splits bool.splits)
next
  case (Some j)
  then show ?thesis
    using assms
    by (auto simp: CancelJob_def exec_result cancel_stmt_eq set_row_def own_def
        split: prod.splits option.splits if_splits)
qed

lemma own_SomeD:
  assumes "own t d k = Some j"
  shows "job_of d k = Some j" and "job_ID j = k" and "job_TenantID j = t"
  using assms by (auto simp: own_def split: option.splits if_splits dest: job_of_ID)

lemma CancelJob_healthy:
  assumes "schema_ok (pg_db p)" and "healthy p"
  shows "CancelJob p t k =
    (case own t (pg_db p) k of
       None \<Rightarrow> (p, Inl ErrJobNotFound)
     | Some j \<Rightarrow>
         if job_Status j = StatusPending
         then let j' = set_updated_at (pg_now p) (cancelled (pg_now p) j)
              in (p\<lparr>pg_db := put_job j' (pg_db p)\<rparr>, Inr j')
         else (p, Inl ErrJobNotCancellable))"
proof -
  have p: "p\<lparr>pg_db := pg_db p\<rparr> = p" by simp
  show ?thesis
    using assms own_exists [OF assms(1), of k t]
    by (auto simp: CancelJob_def jobExists_def exec_healthy cancel_stmt_eq select_jobs_def set_job_def set_row_def
        own_def Let_def p split: option.splits if_splits bool.splits)
qed

lemma tx_begin_result:
  "tx_begin p = (let (f, fs) = next_fault (pg_net p) in
     (p\<lparr>pg_net := fs\<rparr>, if f = Delivered then Inr (pg_db p) else Inl Conn_error))"
  by (cases p) (auto simp: tx_begin_def exec_result split: prod.splits)

lemma retry_tx_result:
  assumes "schema_ok (pg_db p)"
  shows "retry_tx t k p =
    (let (f1, n1) = next_fault (pg_net p); (f2, n2) = next_fault n1;
         (f3, n3) = next_fault n2; (f4, n4) = next_fault n3 in
     if f1 \<noteq> Delivered then (p\<lparr>pg_net := n1\<rparr>, Inl (Wrapped [] Conn_error))
     else if f2 \<noteq> Delivered then (p\<lparr>pg_net := n2\<rparr>, Inl (Wrapped ''load job for retry'' Conn_error))
     else case own t (pg_db p) k of
       None \<Rightarrow> (p\<lparr>pg_net := n2\<rparr>, Inl ErrJobNotFound)
     | Some j \<Rightarrow>
         if job_Status j \<noteq> StatusFailed then (p\<lparr>pg_net := n2\<rparr>, Inl ErrJobNotRetryable)
         else if f3 \<noteq> Delivered then (p\<lparr>pg_net := n3\<rparr>, Inl (Wrapped ''reset job for retry'' Conn_error))
         else if f4 \<noteq> Delivered then (p\<lparr>pg_net := n4\<rparr>, Inl (Wrapped ''clear dead-letter row'' Conn_error))
         else (p\<lparr>pg_net := n4\<rparr>, Inr (reset_db p k, set_updated_at (pg_now p) (reset j))))"
proof -
  note sel = select_by_key(1) [OF schema_distinct(1) [OF assms], of k "\<lambda>j. job_TenantID j = t"]
  have first: "first_row (filter (\<lambda>j. job_ID j = k \<and> job_TenantID j = t) (jobs (pg_db p))) = own t (pg_db p) k"
    using sel by (simp add: own_def split: option.splits)
  have set: "set_job (p\<lparr>pg_net := n\<rparr>) k w f = set_job p k w f"
    "set_row (p\<lparr>pg_net := n\<rparr>) k w f = set_row p k w f" for n w f
    by (simp_all add: set_job_def set_row_def split: option.split)
  have del: "dlq_delete_stmt k (p\<lparr>pg_net := n, pg_db := set_job p k (\<lambda>_. True) reset\<rparr>) = Inr (reset_db p k, ())" for n
    by (simp add: dlq_delete_stmt_def reset_db_def)
  have row: "own t (pg_db p) k = Some j \<Longrightarrow> set_row p k (\<lambda>_. True) reset = Some (set_updated_at (pg_now p) (reset j))" for j
    by (auto simp: own_def set_row_def split: option.splits if_splits)
  show ?thesis
    using assms
    by (auto simp: retry_tx_def tx_begin_result tx_exec_def select_jobs_def first reset_stmt_eq set row del Let_def
        split: prod.splits option.splits if_splits)
qed

lemma RetryJob_result:
  assumes "schema_ok (pg_db p)"
  shows "snd (RetryJob p t k) =
    (case snd (retry_tx t k p) of
       Inl e \<Rightarrow> Inl e
     | Inr wj \<Rightarrow> if fst (next_fault (pg_net (fst (retry_tx t k p)))) \<noteq> Delivered then Inl (Wrapped [] Conn_error)
                else Inr (snd wj))"
  by (auto simp: RetryJob_def tx_commit_def exec_result split: prod.splits sum.splits)

datatype tenant_op = Op_get | Op_cancel | Op_retry

fun tenant_call :: "tenant_op \<Rightarrow> pg \<Rightarrow> uuid \<Rightarrow> uuid \<Rightarrow> pg \<times> (store_err + job)" where
  "tenant_call Op_get p t k = GetJob p t k"
| "tenant_call Op_cancel p t k = CancelJob p t k"
| "tenant_call Op_retry p t k = RetryJob p t k"

lemma own_set_job:
  assumes "\<And>j. job_ID (f j) = job_ID j" and "\<And>j. job_TenantID (f j) = job_TenantID j"
    and "\<And>j. w j \<Longrightarrow> job_TenantID j \<noteq> t"
  shows "own t (set_job p k w f) = own t (pg_db p)"
  using assms by (auto simp: own_def fun_eq_iff job_of_set_job split: option.splits)

lemma tenant_call_others:
  assumes "schema_ok (pg_db p)" and "t' \<noteq> t"
  shows "own t' (pg_db (fst (tenant_call f p t k))) = own t' (pg_db p)"
proof (cases f)
  case Op_get
  then show ?thesis by simp
next
  case Op_cancel
  with CancelJob_db [OF assms(1), of t k] assms(2) show ?thesis
    by (auto intro!: own_set_job)
next
  case Op_retry
  have "retryable (pg_db p) t k \<Longrightarrow> own t' (reset_db p k) = own t' (pg_db p)"
    using assms(2) by (auto simp: own_def retryable_def fun_eq_iff job_of_reset_db split: option.splits)
  with Op_retry RetryJob_db [OF assms(1), of t k] show ?thesis by auto
qed

lemma tenant_call_own:
  assumes "schema_ok (pg_db p)" and "snd (tenant_call f p t k) = Inr j"
  shows "job_TenantID j = t \<and> job_ID j = k"
proof (cases f)
  case Op_get
  with assms GetJob_result [OF assms(1), of t k] show ?thesis
    by (auto simp: own_def split: option.splits if_splits dest: job_of_ID)
next
  case Op_cancel
  then have "CancelJob p t k = (fst (CancelJob p t k), Inr j)" using assms(2) by (simp add: prod_eq_iff)
  from CancelJob_ok(1) [OF assms(1) this] show ?thesis
    by (auto simp: set_row_def split: option.splits if_splits dest: job_of_ID)
next
  case Op_retry
  then have "RetryJob p t k = (fst (RetryJob p t k), Inr j)" using assms(2) by (simp add: prod_eq_iff)
  from RetryJob_ok [OF assms(1) this] show ?thesis
    by (auto simp: set_row_def retryable_def split: option.splits if_splits dest: job_of_ID)
qed

lemma tenant_call_depends:
  assumes "same_view t p q"
  shows "snd (tenant_call f p t k) = snd (tenant_call f q t k)"
proof -
  have s: "schema_ok (pg_db p)" "schema_ok (pg_db q)" and v: "own t (pg_db p) = own t (pg_db q)"
    and e: "pg_net p = pg_net q" "pg_now p = pg_now q"
    using assms by (simp_all add: same_view_def same_server_def)
  show ?thesis
  proof (cases f)
    case Op_get
    with s v e show ?thesis by (simp add: GetJob_result)
  next
    case Op_cancel
    with s v e show ?thesis by (simp add: CancelJob_result split: prod.splits option.splits)
  next
    case Op_retry
    with s v e show ?thesis
      by (simp add: RetryJob_result retry_tx_result Let_def split: prod.splits option.splits)
  qed
qed

lemma tenant_call_server: "pg_net p = [] \<Longrightarrow> same_server (fst (tenant_call f p t k)) p"
proof (cases f)
  case Op_get
  assume "pg_net p = []"
  with Op_get show ?thesis
    by (auto simp: GetJob_def exec_healthy select_jobs_def same_server_def split: prod.splits sum.splits option.splits)
next
  case Op_cancel
  assume "pg_net p = []"
  with Op_cancel show ?thesis
    by (auto simp: CancelJob_def jobExists_def exec_healthy cancel_stmt_def Let_def select_jobs_def same_server_def
        split: prod.splits sum.splits option.splits bool.splits)
next
  case Op_retry
  assume "pg_net p = []"
  with Op_retry show ?thesis
    by (auto simp: RetryJob_def retry_tx_def healthy_simps select_jobs_def same_server_def
        split: prod.splits sum.splits option.splits bool.splits if_splits)
qed

interpretation api: tenant_scoped tenant_call
proof (unfold_locales, goal_cases)
  case (1 p f t k)
  then show ?case by (cases f) (auto intro: store_schema)
next
  case (2 p f t k)
  then show ?case by (rule tenant_call_server)
next
  case (3 p f t k j)
  then show ?case by (rule tenant_call_own)
next
  case (4 p t' t f k)
  then show ?case by (rule tenant_call_others)
next
  case (5 t p q f k)
  then show ?case by (rule tenant_call_depends)
qed

subsection \<open>Competing claims\<close>

text \<open>
  The guarded \<open>UPDATE\<close>s of the store are compare-and-swap operations: an attempt that reports
  success found the guard true and left it false, and no attempt makes it true again. \<open>fair\<close> is
  what a caller has to respect, \<open>up\<close> that its connection works.
\<close>

fun winners :: "('a \<Rightarrow> 's \<Rightarrow> 's \<times> bool) \<Rightarrow> 'a list \<Rightarrow> 's \<Rightarrow> 'a list" where
  "winners attempt [] s = []"
| "winners attempt (a # as) s =
     (case attempt a s of (s', won) \<Rightarrow> (if won then [a] else []) @ winners attempt as s')"

locale compare_and_swap =
  fixes attempt :: "'a \<Rightarrow> 's \<Rightarrow> 's \<times> bool"
    and ok :: "'s \<Rightarrow> bool" and guard :: "'s \<Rightarrow> bool" and fair :: "'a \<Rightarrow> bool" and up :: "'a \<Rightarrow> bool"
  assumes ok_attempt: "ok s \<Longrightarrow> fair a \<Longrightarrow> ok (fst (attempt a s))"
    and win: "ok s \<Longrightarrow> fair a \<Longrightarrow> snd (attempt a s) \<Longrightarrow> guard s \<and> \<not> guard (fst (attempt a s))"
    and closed: "ok s \<Longrightarrow> fair a \<Longrightarrow> \<not> guard s \<Longrightarrow> \<not> guard (fst (attempt a s))"
    and progress: "ok s \<Longrightarrow> fair a \<Longrightarrow> up a \<Longrightarrow> guard s \<Longrightarrow> snd (attempt a s)"
begin

lemma no_winner: "ok s \<Longrightarrow> \<forall>a \<in> set as. fair a \<Longrightarrow> \<not> guard s \<Longrightarrow> winners attempt as s = []"
proof (induction as arbitrary: s)
  case Nil
  then show ?case by simp
next
  case (Cons a as)
  then show ?case
    using ok_attempt [of s a] closed [of s a] win [of s a] by (auto split: prod.split)
qed

lemma at_most_one: "ok s \<Longrightarrow> \<forall>a \<in> set as. fair a \<Longrightarrow> length (winners attempt as s) \<le> 1"
proof (induction as arbitrary: s)
  case Nil
  then show ?case by simp
next
  case (Cons a as)
  then have IH: "length (winners attempt as (fst (attempt a s))) \<le> 1"
    using ok_attempt [of s a] by simp
  show ?case
  proof (cases "snd (attempt a s)")
    case True
    with Cons.prems win [of s a] no_winner [of "fst (attempt a s)" as] ok_attempt [of s a]
    show ?thesis by (auto split: prod.split)
  next
    case False
    with IH show ?thesis by (auto split: prod.split)
  qed
qed

lemma first_wins:
  "ok s \<Longrightarrow> \<forall>a \<in> set (a # as). fair a \<Longrightarrow> guard s \<Longrightarrow> up a \<Longrightarrow> winners attempt (a # as) s = [a]"
  using progress [of s a] win [of s a] no_winner [of "fst (attempt a s)" as] ok_attempt [of s a]
  by (auto split: prod.split)

end

text \<open>\<open>ClaimJob\<close> by several workers: each attempt comes with its own time and network script.\<close>

definition claim_attempt :: "uuid \<Rightarrow> time \<times> fault list \<Rightarrow> pg \<Rightarrow> pg \<times> bool" where
  "claim_attempt k a p =
     (case ClaimJob (p\<lparr>pg_now := fst a, pg_net := snd a\<rparr>) k of (p', r) \<Rightarrow> (p', \<not> isl r))"

definition claimable :: "uuid \<Rightarrow> db \<Rightarrow> bool" where
  "claimable k d = (case job_of d k of None \<Rightarrow> False | Some j \<Rightarrow> job_Status j = StatusPending)"

lemma claimable_set_job:
  "\<not> claimable k (set_job p k (\<lambda>j. job_Status j = StatusPending) (claimed now))"
  by (auto simp: claimable_def job_of_set_job split: option.splits)

lemma ClaimJob_healthy:
  assumes "schema_ok (pg_db p)" and "next_fault (pg_net p) = (Delivered, fs)"
  shows "snd (ClaimJob p k) =
    (case set_row p k (\<lambda>j. job_Status j = StatusPending) (claimed (pg_now p)) of
       None \<Rightarrow> Inl ErrJobNotClaimable | Some j \<Rightarrow> Inr j)"
  using assms by (auto simp: ClaimJob_def exec_result claim_stmt_eq split: option.splits)

interpretation job_claim: compare_and_swap "claim_attempt k" "\<lambda>p. schema_ok (pg_db p)"
  "\<lambda>p. claimable k (pg_db p)" "\<lambda>_. True" "\<lambda>a. fst (next_fault (snd a)) = Delivered"
proof (unfold_locales, goal_cases)
  case (1 s a)
  then show ?case
    using ClaimJob_schema [of "s\<lparr>pg_now := fst a, pg_net := snd a\<rparr>" k]
    by (auto simp: claim_attempt_def split: prod.split)
next
  case (2 s a)
  then obtain p' j where c: "ClaimJob (s\<lparr>pg_now := fst a, pg_net := snd a\<rparr>) k = (p', Inr j)"
    by (auto simp: claim_attempt_def split: prod.splits sum.splits) (metis isl_def sum.exhaust)
  have "schema_ok (pg_db (s\<lparr>pg_now := fst a, pg_net := snd a\<rparr>))" using 2 by simp
  note r = ClaimJob_ok [OF this c]
  from r(1) have "claimable k (pg_db s)"
    by (auto simp: set_row_def claimable_def split: option.splits if_splits)
  with r(2) c show ?case by (simp add: claim_attempt_def claimable_set_job)
next
  case (3 s a)
  then show ?case
    using ClaimJob_db [of "s\<lparr>pg_now := fst a, pg_net := snd a\<rparr>" k]
    by (auto simp: claim_attempt_def claimable_set_job split: prod.split)
next
  case (4 s a)
  obtain fs where "next_fault (snd a) = (Delivered, fs)" using 4 by (metis prod.collapse)
  with 4 ClaimJob_healthy [of "s\<lparr>pg_now := fst a, pg_net := snd a\<rparr>" fs k] show ?case
    by (auto simp: claim_attempt_def set_row_def claimable_def split: prod.split option.splits)
qed

end
