(* ===== verification/Redis.thy ===== *)
theory Redis
  imports Models
begin

section \<open>The Redis server as the queue sees it\<close>

text \<open>
  Redis is a service outside the repository. It is a parameter \<open>R\<close> of every definition that
  uses it: the record \<open>'r redis\<close> of the commands \<^verbatim>\<open>src/internal/queue/queue.go\<close> issues, over a
  server state of any type \<open>'r\<close>. What the repository relies on is the locale
  \<open>redis_server\<close>: the documented effect of each command, stated through what
  \<open>LRANGE k 0 -1\<close>, \<open>ZRANGE k 0 -1 WITHSCORES\<close> and the expiry times show. The key families of the
  repository have different prefixes, so a command never meets a key of another type.

  Scores are integers here: the repository only stores Unix seconds, which a \<open>float64\<close> holds
  exactly. The section ends with a keyspace that satisfies the locale, so that nothing
  proved from it is empty.
\<close>

record 'r redis =
  lpush :: "string \<Rightarrow> string \<Rightarrow> 'r \<Rightarrow> 'r \<times> int"
  brpop :: "string list \<Rightarrow> 'r \<Rightarrow> 'r \<times> (string \<times> string) option"
  llen :: "string \<Rightarrow> 'r \<Rightarrow> int"
  lrem :: "string \<Rightarrow> int \<Rightarrow> string \<Rightarrow> 'r \<Rightarrow> 'r \<times> int"
  zadd :: "string \<Rightarrow> int \<Rightarrow> string \<Rightarrow> 'r \<Rightarrow> 'r \<times> int"
  zcard :: "string \<Rightarrow> 'r \<Rightarrow> int"
  zrem :: "string \<Rightarrow> string \<Rightarrow> 'r \<Rightarrow> 'r \<times> int"
  zrangebyscore :: "string \<Rightarrow> int \<Rightarrow> int \<Rightarrow> int \<Rightarrow> 'r \<Rightarrow> string list"
  set_ex :: "string \<Rightarrow> int \<Rightarrow> time \<Rightarrow> time \<Rightarrow> 'r \<Rightarrow> 'r"
  del :: "string \<Rightarrow> 'r \<Rightarrow> 'r \<times> int"
  scan :: "64 word \<Rightarrow> string \<Rightarrow> int \<Rightarrow> time \<Rightarrow> 'r \<Rightarrow> string list \<times> 64 word"
  lrange :: "'r \<Rightarrow> string \<Rightarrow> string list"
  zrange :: "'r \<Rightarrow> string \<Rightarrow> (string \<times> int) list"
  expires :: "'r \<Rightarrow> string \<Rightarrow> time option"

text \<open>\<open>LIMIT 0 n\<close>: the first \<open>n\<close> members, all of them for a negative \<open>n\<close>.\<close>

definition limit_of :: "int \<Rightarrow> 'a list \<Rightarrow> 'a list" where
  "limit_of n xs = (if n < 0 then xs else take (nat n) xs)"

text \<open>The batches of a full \<open>SCAN\<close> iteration, until the server returns cursor 0.\<close>

fun scan_iter :: "'r redis \<Rightarrow> string \<Rightarrow> int \<Rightarrow> time \<Rightarrow> 'r \<Rightarrow> nat \<Rightarrow> 64 word \<Rightarrow> string list list option" where
  "scan_iter R pat cnt t r 0 c = None"
| "scan_iter R pat cnt t r (Suc n) c =
     (case scan R c pat cnt t r of (ks, c') \<Rightarrow>
        if c' = 0 then Some [ks] else map_option (Cons ks) (scan_iter R pat cnt t r n c'))"

text \<open>The keys with prefix \<open>p\<close> that exist at server time \<open>t\<close>.\<close>

definition live_keys :: "'r redis \<Rightarrow> 'r \<Rightarrow> string \<Rightarrow> time \<Rightarrow> string set" where
  "live_keys R r p t = {k. HasPrefix k p \<and> (\<exists>e. expires R r k = Some e \<and> t < e)}"

text \<open>A pattern text without the characters \<open>MATCH\<close> treats specially.\<close>

definition glob_free :: "string \<Rightarrow> bool" where
  "glob_free p \<longleftrightarrow> set p \<inter> {CHR ''*'', CHR ''?'', CHR ''['', CHR '']'', CHR 0x5C} = {}"

locale redis_server =
  fixes R :: "'r redis"
  assumes lrange_lpush: "lrange R (fst (lpush R k x r)) = (lrange R r)(k := x # lrange R r k)"
    and zrange_lpush: "zrange R (fst (lpush R k x r)) = zrange R r"
    and expires_lpush: "expires R (fst (lpush R k x r)) = expires R r"
    and brpop_empty: "ks \<noteq> [] \<Longrightarrow> find (\<lambda>k. lrange R r k \<noteq> []) ks = None \<Longrightarrow> brpop R ks r = (r, None)"
    and brpop_key: "find (\<lambda>k. lrange R r k \<noteq> []) ks = Some k \<Longrightarrow>
          snd (brpop R ks r) = Some (k, last (lrange R r k))"
    and lrange_brpop: "find (\<lambda>k. lrange R r k \<noteq> []) ks = Some k \<Longrightarrow>
          lrange R (fst (brpop R ks r)) = (lrange R r)(k := butlast (lrange R r k))"
    and zrange_brpop: "zrange R (fst (brpop R ks r)) = zrange R r"
    and expires_brpop: "expires R (fst (brpop R ks r)) = expires R r"
    and llen_lrange: "llen R k r = int (length (lrange R r k))"
    and lrange_lrem: "lrange R (fst (lrem R k 0 x r)) = (lrange R r)(k := filter (\<lambda>y. y \<noteq> x) (lrange R r k))"
    and zrange_lrem: "zrange R (fst (lrem R k n x r)) = zrange R r"
    and expires_lrem: "expires R (fst (lrem R k n x r)) = expires R r"
    and set_zrange_zadd: "set (zrange R (fst (zadd R k s m r)) k) = insert (m, s) {e \<in> set (zrange R r k). fst e \<noteq> m}"
    and zrange_zadd_other: "k' \<noteq> k \<Longrightarrow> zrange R (fst (zadd R k s m r)) k' = zrange R r k'"
    and lrange_zadd: "lrange R (fst (zadd R k s m r)) = lrange R r"
    and expires_zadd: "expires R (fst (zadd R k s m r)) = expires R r"
    and zrange_members: "distinct (map fst (zrange R r k))"
    and zrange_order: "sorted (map snd (zrange R r k))"
    and zcard_zrange: "zcard R k r = int (length (zrange R r k))"
    and zrange_zrem: "zrange R (fst (zrem R k m r)) = (zrange R r)(k := filter (\<lambda>e. fst e \<noteq> m) (zrange R r k))"
    and lrange_zrem: "lrange R (fst (zrem R k m r)) = lrange R r"
    and expires_zrem: "expires R (fst (zrem R k m r)) = expires R r"
    and zrangebyscore_zrange:
      "zrangebyscore R k mx 0 n r = map fst (limit_of n (filter (\<lambda>e. snd e \<le> mx) (zrange R r k)))"
    and expires_set_ex: "expires R (set_ex R k v ttl t r) = (expires R r)(k \<mapsto> t + ttl)"
    and lrange_set_ex: "lrange R (set_ex R k v ttl t r) = (lrange R r)(k := [])"
    and zrange_set_ex: "zrange R (set_ex R k v ttl t r) = (zrange R r)(k := [])"
    and expires_del: "expires R (fst (del R k r)) = (expires R r)(k := None)"
    and lrange_del: "lrange R (fst (del R k r)) = (lrange R r)(k := [])"
    and zrange_del: "zrange R (fst (del R k r)) = (zrange R r)(k := [])"
    and scan_complete:
      "glob_free p \<Longrightarrow>
       \<exists>n kss. scan_iter R (p @ ''*'') cnt t r n 0 = Some kss \<and> set (concat kss) = live_keys R r p t"
    and finite_keys: "finite {k. expires R r k \<noteq> None}"
begin

lemmas command_laws [redis_laws] =
  lrange_lpush zrange_lpush expires_lpush zrange_brpop expires_brpop lrange_lrem zrange_lrem expires_lrem
  lrange_zadd expires_zadd zrange_zrem lrange_zrem expires_zrem llen_lrange zcard_zrange zrangebyscore_zrange
  expires_set_ex lrange_set_ex zrange_set_ex expires_del lrange_del zrange_del

text \<open>Adding a member keeps one entry per member, so it is a change of the member's score.\<close>

lemma zrange_zadd_members:
  "fst ` set (zrange R (fst (zadd R k s m r)) k') =
     (if k' = k then insert m (fst ` set (zrange R r k)) else fst ` set (zrange R r k'))"
  by (cases "k' = k") (force simp: set_zrange_zadd zrange_zadd_other)+

lemma finite_live_keys: "finite (live_keys R r p t)"
  by (rule finite_subset [OF _ finite_keys [of r]]) (auto simp: live_keys_def)

end

subsection \<open>A keyspace with these laws\<close>

record keyspace =
  ks_lists :: "string \<Rightarrow> string list"
  ks_zsets :: "string \<Rightarrow> (string \<times> int) list"
  ks_strings :: "(string \<times> time) list"

definition empty_keyspace :: keyspace where
  "empty_keyspace = \<lparr>ks_lists = (\<lambda>_. []), ks_zsets = (\<lambda>_. []), ks_strings = []\<rparr>"

text \<open>A sorted set in the order Redis keeps it: by score, equal scores by member.\<close>

definition zset_order :: "(string \<times> int) list \<Rightarrow> (string \<times> int) list" where
  "zset_order xs = sort_key (\<lambda>e. (snd e, fst e)) (AList.clearjunk xs)"

definition ref_redis :: "keyspace redis" where
  "ref_redis = \<lparr>
     lpush = (\<lambda>k x r. (r\<lparr>ks_lists := (ks_lists r)(k := x # ks_lists r k)\<rparr>,
                       int (length (ks_lists r k)) + 1)),
     brpop = (\<lambda>ks r. case find (\<lambda>k. ks_lists r k \<noteq> []) ks of
                None \<Rightarrow> (r, None)
              | Some k \<Rightarrow> (r\<lparr>ks_lists := (ks_lists r)(k := butlast (ks_lists r k))\<rparr>,
                           Some (k, last (ks_lists r k)))),
     llen = (\<lambda>k r. int (length (ks_lists r k))),
     lrem = (\<lambda>k n x r. (r\<lparr>ks_lists := (ks_lists r)(k := filter (\<lambda>y. y \<noteq> x) (ks_lists r k))\<rparr>,
                       int (count_list (ks_lists r k) x))),
     zadd = (\<lambda>k s m r. (r\<lparr>ks_zsets := (ks_zsets r)(k := (m, s) # ks_zsets r k)\<rparr>,
                       if m \<in> fst ` set (ks_zsets r k) then 0 else 1)),
     zcard = (\<lambda>k r. int (length (zset_order (ks_zsets r k)))),
     zrem = (\<lambda>k m r. (r\<lparr>ks_zsets := (ks_zsets r)(k := filter (\<lambda>e. fst e \<noteq> m) (ks_zsets r k))\<rparr>,
                     if m \<in> fst ` set (ks_zsets r k) then 1 else 0)),
     zrangebyscore = (\<lambda>k mx off n r.
        map fst (limit_of n (drop (nat off) (filter (\<lambda>e. snd e \<le> mx) (zset_order (ks_zsets r k)))))),
     set_ex = (\<lambda>k v ttl t r. r\<lparr>ks_lists := (ks_lists r)(k := []), ks_zsets := (ks_zsets r)(k := []),
                  ks_strings := (k, t + ttl) # filter (\<lambda>e. fst e \<noteq> k) (ks_strings r)\<rparr>),
     del = (\<lambda>k r. (r\<lparr>ks_lists := (ks_lists r)(k := []), ks_zsets := (ks_zsets r)(k := []),
                  ks_strings := filter (\<lambda>e. fst e \<noteq> k) (ks_strings r)\<rparr>,
                  if k \<in> fst ` set (ks_strings r) \<or> ks_lists r k \<noteq> [] \<or> ks_zsets r k \<noteq> [] then 1 else 0)),
     scan = (\<lambda>c pat n t r.
        (filter (\<lambda>k. HasPrefix k (butlast pat) \<and>
                       (case map_of (ks_strings r) k of None \<Rightarrow> False | Some e \<Rightarrow> t < e))
           (map fst (ks_strings r)), 0)),
     lrange = ks_lists,
     zrange = (\<lambda>r k. zset_order (ks_zsets r k)),
     expires = (\<lambda>r k. map_of (ks_strings r) k)\<rparr>"

lemma zset_order_Nil: "zset_order [] = []"
  by (simp add: zset_order_def)

lemma delete_filter: "AList.delete m xs = filter (\<lambda>e. fst e \<noteq> m) xs"
  by (induction xs) auto

lemma distinct_zset_order: "distinct (map fst (zset_order xs))"
proof -
  have "mset (map fst (zset_order xs)) = mset (map fst (AList.clearjunk xs))"
    by (simp add: zset_order_def)
  then show ?thesis
    by (metis distinct_clearjunk mset_eq_imp_distinct_iff)
qed

lemma set_zset_order: "set (zset_order xs) = set (AList.clearjunk xs)"
  by (simp add: zset_order_def)

lemma sorted_zset_order: "sorted (map snd (zset_order xs))"
proof -
  have "sorted (map (\<lambda>e. (snd e, fst e)) (zset_order xs))"
    by (simp add: zset_order_def)
  then show ?thesis
    by (auto simp: sorted_map less_eq_prod_def elim!: sorted_wrt_mono_rel [rotated])
qed

lemma filter_clearjunk:
  "AList.clearjunk (filter (\<lambda>e. fst e \<noteq> m) xs) = filter (\<lambda>e. fst e \<noteq> m) (AList.clearjunk xs)"
  using AList.clearjunk_delete [of m xs] by (simp only: delete_filter)

lemma filter_zset_order:
  "zset_order (filter (\<lambda>e. fst e \<noteq> m) xs) = filter (\<lambda>e. fst e \<noteq> m) (zset_order xs)"
  by (simp add: zset_order_def filter_sort filter_clearjunk)

lemma set_zset_order_Cons:
  "set (zset_order ((m, s) # xs)) = insert (m, s) {e \<in> set (zset_order xs). fst e \<noteq> m}"
  by (simp add: set_zset_order delete_filter filter_clearjunk)

lemma map_of_filter_neq: "map_of (filter (\<lambda>e. fst e \<noteq> k) xs) = (map_of xs)(k := None)"
  by (induction xs) (auto simp: fun_eq_iff)

interpretation ref: redis_server ref_redis
proof (unfold_locales, goal_cases)
  case (30 p cnt t r)
  have "scan_iter ref_redis (p @ ''*'') cnt t r 1 0 = Some [fst (scan ref_redis 0 (p @ ''*'') cnt t r)]"
    by (simp add: ref_redis_def)
  moreover have "set (fst (scan ref_redis 0 (p @ ''*'') cnt t r)) = live_keys ref_redis r p t"
    by (force simp: ref_redis_def live_keys_def split: option.splits dest: map_of_SomeD)
  ultimately show ?case
    by (metis concat.simps append_Nil2)
next
  case (31 r)
  have "{k. expires ref_redis r k \<noteq> None} \<subseteq> fst ` set (ks_strings r)"
    by (auto simp: ref_redis_def map_of_eq_None_iff dest: map_of_SomeD)
  then show ?case
    by (rule finite_subset) simp
qed (auto simp: ref_redis_def zset_order_Nil distinct_zset_order sorted_zset_order filter_zset_order
      set_zset_order_Cons map_of_filter_neq split: option.splits)

lemma ref_redis_server: "redis_server ref_redis"
  by (rule ref.redis_server_axioms)

end
