(* ===== verification/Queue.thy ===== *)
theory Queue
  imports Redis
begin

section \<open>The Redis-backed work queue\<close>

text \<open>
  \<^verbatim>\<open>src/internal/queue/queue.go\<close>, one definition per function, over a connection
  (\<open>'r rconn\<close>: the server's state, its clock, the script of network outcomes). A queue is the
  list under \<open>keyPrefix\<close> and the sorted set under \<open>delayedKeyPrefix\<close>; the Lua script of
  \<open>PromoteDue\<close> is \<open>promoteScript\<close>, run by the server without interleaving. \<open>BRPOP\<close> answers
  \<open>redis.Nil\<close> when the timeout, whose length does not matter here, passes with every list empty.

  The second half gives the effect of each operation on what waits in a queue and what is
  delayed, and the contract \<open>fifo_queue\<close> the producers and the worker rely on.
\<close>

record 'r rconn =
  r_srv :: 'r
  r_now :: time
  r_net :: "fault list"

datatype redis_err = Redis_Nil | Redis_error

datatype queue_err =
    Redis redis_err
  | Lpush_failed string redis_err
  | Zadd_failed string redis_err
  | Promote_failed string redis_err
  | Lrem_failed string redis_err
  | Zrem_failed string redis_err
  | Heartbeat_failed redis_err
  | Remove_worker_failed redis_err
  | Count_workers_failed redis_err

text \<open>One round trip to the server.\<close>

definition redis_do :: "('r \<Rightarrow> 'r \<times> 'a) \<Rightarrow> 'r rconn \<Rightarrow> 'r rconn \<times> (redis_err + 'a)" where
  "redis_do cmd c =
     (let (f, fs) = next_fault (r_net c); c' = c\<lparr>r_net := fs\<rparr> in
      case f of
        Lost_request \<Rightarrow> (c', Inl Redis_error)
      | Lost_reply \<Rightarrow> (c'\<lparr>r_srv := fst (cmd (r_srv c))\<rparr>, Inl Redis_error)
      | Delivered \<Rightarrow> (c'\<lparr>r_srv := fst (cmd (r_srv c))\<rparr>, Inr (snd (cmd (r_srv c)))))"

definition keyPrefix :: string where "keyPrefix = ''dispatch:queue:''"
definition delayedKeyPrefix :: string where "delayedKeyPrefix = ''dispatch:delayed:''"
definition workerKeyPrefix :: string where "workerKeyPrefix = ''dispatch:worker:''"

definition HeartbeatInterval :: time where "HeartbeatInterval = 10 * second"
definition WorkerTTL :: time where "WorkerTTL = 30 * second"

definition Enqueue :: "'r redis \<Rightarrow> 'r rconn \<Rightarrow> string \<Rightarrow> string \<Rightarrow> 'r rconn \<times> (queue_err + unit)" where
  "Enqueue R c queueName jobID =
     (case redis_do (lpush R (keyPrefix @ queueName) jobID) c of
        (c', Inl e) \<Rightarrow> (c', Inl (Lpush_failed queueName e))
      | (c', Inr _) \<Rightarrow> (c', Inr ()))"

definition Dequeue :: "'r redis \<Rightarrow> 'r rconn \<Rightarrow> string list \<Rightarrow> 'r rconn \<times> (redis_err + string \<times> string)" where
  "Dequeue R c queueNames =
     (let keys = map (\<lambda>name. keyPrefix @ name) queueNames in
      case redis_do (brpop R keys) c of
        (c', Inl e) \<Rightarrow> (c', Inl e)
      | (c', Inr None) \<Rightarrow> (c', Inl Redis_Nil)
      | (c', Inr (Some (key, val))) \<Rightarrow> (c', Inr (val, TrimPrefix key keyPrefix)))"

definition Len :: "'r redis \<Rightarrow> 'r rconn \<Rightarrow> string \<Rightarrow> 'r rconn \<times> (redis_err + int)" where
  "Len R c queueName = redis_do (\<lambda>r. (r, llen R (keyPrefix @ queueName) r)) c"

definition EnqueueDelayed ::
  "'r redis \<Rightarrow> 'r rconn \<Rightarrow> string \<Rightarrow> string \<Rightarrow> time \<Rightarrow> 'r rconn \<times> (queue_err + unit)" where
  "EnqueueDelayed R c queueName jobID runAt =
     (case redis_do (zadd R (delayedKeyPrefix @ queueName) (Unix runAt) jobID) c of
        (c', Inl e) \<Rightarrow> (c', Inl (Zadd_failed queueName e))
      | (c', Inr _) \<Rightarrow> (c', Inr ()))"

fun promote_members :: "'r redis \<Rightarrow> string \<Rightarrow> string \<Rightarrow> string list \<Rightarrow> 'r \<Rightarrow> 'r" where
  "promote_members R key1 key2 [] r = r"
| "promote_members R key1 key2 (member # due) r =
     promote_members R key1 key2 due (fst (zrem R key1 member (fst (lpush R key2 member r))))"

definition promoteScript :: "'r redis \<Rightarrow> string \<Rightarrow> string \<Rightarrow> int \<Rightarrow> int \<Rightarrow> 'r \<Rightarrow> 'r \<times> int" where
  "promoteScript R key1 key2 now limit r =
     (let due = zrangebyscore R key1 now 0 limit r
      in (promote_members R key1 key2 due r, int (length due)))"

definition PromoteDue ::
  "'r redis \<Rightarrow> 'r rconn \<Rightarrow> string \<Rightarrow> time \<Rightarrow> int \<Rightarrow> 'r rconn \<times> (queue_err + int)" where
  "PromoteDue R c queueName now limit =
     (case redis_do (promoteScript R (delayedKeyPrefix @ queueName) (keyPrefix @ queueName)
                       (Unix now) limit) c of
        (c', Inl e) \<Rightarrow> (c', Inl (Promote_failed queueName e))
      | (c', Inr n) \<Rightarrow> (c', Inr n))"

definition DelayedLen :: "'r redis \<Rightarrow> 'r rconn \<Rightarrow> string \<Rightarrow> 'r rconn \<times> (redis_err + int)" where
  "DelayedLen R c queueName = redis_do (\<lambda>r. (r, zcard R (delayedKeyPrefix @ queueName) r)) c"

definition Remove :: "'r redis \<Rightarrow> 'r rconn \<Rightarrow> string \<Rightarrow> string \<Rightarrow> 'r rconn \<times> (queue_err + unit)" where
  "Remove R c queueName jobID =
     (case redis_do (lrem R (keyPrefix @ queueName) 0 jobID) c of
        (c', Inl e) \<Rightarrow> (c', Inl (Lrem_failed queueName e))
      | (c', Inr _) \<Rightarrow>
          (case redis_do (zrem R (delayedKeyPrefix @ queueName) jobID) c' of
             (c'', Inl e) \<Rightarrow> (c'', Inl (Zrem_failed queueName e))
           | (c'', Inr _) \<Rightarrow> (c'', Inr ())))"

text \<open>\<open>now\<close> is \<open>time.Now()\<close> on the worker: the value stored, not the expiry.\<close>

definition Heartbeat :: "'r redis \<Rightarrow> 'r rconn \<Rightarrow> time \<Rightarrow> string \<Rightarrow> 'r rconn \<times> (queue_err + unit)" where
  "Heartbeat R c now workerID =
     (case redis_do (\<lambda>r. (set_ex R (workerKeyPrefix @ workerID) (Unix now) WorkerTTL (r_now c) r, ())) c of
        (c', Inl e) \<Rightarrow> (c', Inl (Heartbeat_failed e))
      | (c', Inr _) \<Rightarrow> (c', Inr ()))"

definition RemoveWorker :: "'r redis \<Rightarrow> 'r rconn \<Rightarrow> string \<Rightarrow> 'r rconn \<times> (queue_err + unit)" where
  "RemoveWorker R c workerID =
     (case redis_do (del R (workerKeyPrefix @ workerID)) c of
        (c', Inl e) \<Rightarrow> (c', Inl (Remove_worker_failed e))
      | (c', Inr _) \<Rightarrow> (c', Inr ()))"

text \<open>
  The cursor loop of \<open>CountActiveWorkers\<close>: nothing in the code bounds it, the server ends it by
  returning cursor 0. \<open>seen\<close> is the Go map used as a set, kept as a list without repetitions.
\<close>

partial_function (option) scan_loop ::
  "'r redis \<Rightarrow> 64 word \<Rightarrow> string list \<Rightarrow> 'r rconn \<Rightarrow> ('r rconn \<times> (queue_err + int)) option" where
  "scan_loop R cursor seen c =
     (case redis_do (\<lambda>r. (r, scan R cursor (workerKeyPrefix @ ''*'') 100 (r_now c) r)) c of
        (c', Inl e) \<Rightarrow> Some (c', Inl (Count_workers_failed e))
      | (c', Inr (keys, nxt)) \<Rightarrow>
          (let seen' = fold List.insert keys seen in
           if nxt = 0 then Some (c', Inr (int (length seen')))
           else scan_loop R nxt seen' c'))"

definition CountActiveWorkers :: "'r redis \<Rightarrow> 'r rconn \<Rightarrow> ('r rconn \<times> (queue_err + int)) option" where
  "CountActiveWorkers R c = scan_loop R 0 [] c"

subsection \<open>What waits in a queue and what is delayed\<close>

definition queued :: "'r redis \<Rightarrow> 'r rconn \<Rightarrow> string \<Rightarrow> string list" where
  "queued R c q = lrange R (r_srv c) (keyPrefix @ q)"

definition delayed :: "'r redis \<Rightarrow> 'r rconn \<Rightarrow> string \<Rightarrow> (string \<times> int) list" where
  "delayed R c q = zrange R (r_srv c) (delayedKeyPrefix @ q)"

lemma key_families_disjoint [simp, string_simps]:
  "keyPrefix @ a \<noteq> delayedKeyPrefix @ b" "delayedKeyPrefix @ b \<noteq> keyPrefix @ a"
  "workerKeyPrefix @ a \<noteq> keyPrefix @ b" "workerKeyPrefix @ a \<noteq> delayedKeyPrefix @ b"
  "keyPrefix @ b \<noteq> workerKeyPrefix @ a" "delayedKeyPrefix @ b \<noteq> workerKeyPrefix @ a"
  by (simp_all add: keyPrefix_def delayedKeyPrefix_def workerKeyPrefix_def)

lemma redis_do_healthy:
  "r_net c = [] \<Longrightarrow> redis_do cmd c = (c\<lparr>r_srv := fst (cmd (r_srv c))\<rparr>, Inr (snd (cmd (r_srv c))))"
  by (cases c) (simp add: redis_do_def)

lemma redis_do_srv_cases:
  "r_srv (fst (redis_do cmd c)) = r_srv c \<or> r_srv (fst (redis_do cmd c)) = fst (cmd (r_srv c))"
  by (auto simp: redis_do_def Let_def split: prod.splits fault.splits)

lemma redis_do_ok:
  "redis_do cmd c = (c', Inr a) \<Longrightarrow> r_srv c' = fst (cmd (r_srv c)) \<and> a = snd (cmd (r_srv c))"
  by (auto simp: redis_do_def Let_def split: prod.splits fault.splits)

text \<open>
  The server state an operation leaves, whatever the network does: the one it found, or the one
  its command makes of it. Each queue operation runs one command, \<open>Remove\<close> two.
\<close>

lemma Enqueue_srv: "r_srv (fst (Enqueue R c q x)) \<in> {r_srv c, fst (lpush R (keyPrefix @ q) x (r_srv c))}"
  using redis_do_srv_cases [of "lpush R (keyPrefix @ q) x" c]
  by (auto simp: Enqueue_def split: prod.splits sum.splits)

lemma Enqueue_ok: "Enqueue R c q x = (c', Inr u) \<Longrightarrow> r_srv c' = fst (lpush R (keyPrefix @ q) x (r_srv c))"
  by (auto simp: Enqueue_def split: prod.splits sum.splits dest: redis_do_ok)

lemma EnqueueDelayed_srv:
  "r_srv (fst (EnqueueDelayed R c q x t)) \<in> {r_srv c, fst (zadd R (delayedKeyPrefix @ q) (Unix t) x (r_srv c))}"
  using redis_do_srv_cases [of "zadd R (delayedKeyPrefix @ q) (Unix t) x" c]
  by (auto simp: EnqueueDelayed_def split: prod.splits sum.splits)

lemma PromoteDue_srv:
  "r_srv (fst (PromoteDue R c q t n)) \<in>
     {r_srv c, fst (promoteScript R (delayedKeyPrefix @ q) (keyPrefix @ q) (Unix t) n (r_srv c))}"
  using redis_do_srv_cases [of "promoteScript R (delayedKeyPrefix @ q) (keyPrefix @ q) (Unix t) n" c]
  by (auto simp: PromoteDue_def split: prod.splits sum.splits)

lemma Dequeue_srv:
  "r_srv (fst (Dequeue R c qs)) \<in> {r_srv c, fst (brpop R (map ((@) keyPrefix) qs) (r_srv c))}"
  using redis_do_srv_cases [of "brpop R (map ((@) keyPrefix) qs)" c]
  by (auto simp: Dequeue_def Let_def split: prod.splits sum.splits option.splits)

lemma Remove_srv:
  "r_srv (fst (Remove R c q x)) \<in>
     {r_srv c, fst (lrem R (keyPrefix @ q) 0 x (r_srv c)),
      fst (zrem R (delayedKeyPrefix @ q) x (fst (lrem R (keyPrefix @ q) 0 x (r_srv c))))}"
proof (cases "redis_do (lrem R (keyPrefix @ q) 0 x) c")
  case (Pair c1 a)
  show ?thesis
  proof (cases a)
    case (Inl e)
    with Pair redis_do_srv_cases [of "lrem R (keyPrefix @ q) 0 x" c] show ?thesis
      by (auto simp: Remove_def)
  next
    case (Inr n)
    with Pair have "r_srv c1 = fst (lrem R (keyPrefix @ q) 0 x (r_srv c))"
      by (auto dest: redis_do_ok)
    with Pair Inr redis_do_srv_cases [of "zrem R (delayedKeyPrefix @ q) x" c1] show ?thesis
      by (auto simp: Remove_def split: prod.splits sum.splits)
  qed
qed

subsection \<open>First in, first out\<close>

text \<open>
  The contract of the work list for its clients: producers append, the worker takes the oldest.
  \<open>ok\<close> is the connection being healthy; \<open>drain\<close> pops a number of times.
\<close>

fun drain :: "('c \<Rightarrow> 'c \<times> 'a option) \<Rightarrow> nat \<Rightarrow> 'c \<Rightarrow> 'c \<times> 'a list" where
  "drain pop 0 c = (c, [])"
| "drain pop (Suc n) c =
     (case pop c of
        (c', None) \<Rightarrow> (c', [])
      | (c', Some x) \<Rightarrow> (case drain pop n c' of (c'', xs) \<Rightarrow> (c'', x # xs)))"

locale fifo_queue =
  fixes ok :: "'c \<Rightarrow> bool"
    and waiting :: "'c \<Rightarrow> string \<Rightarrow> string list"
    and enq :: "'c \<Rightarrow> string \<Rightarrow> string \<Rightarrow> 'c"
    and deq :: "'c \<Rightarrow> string \<Rightarrow> 'c \<times> string option"
  assumes waiting_enq: "ok c \<Longrightarrow> waiting (enq c q x) = (waiting c)(q := waiting c q @ [x])"
    and ok_enq: "ok c \<Longrightarrow> ok (enq c q x)"
    and deq_front: "ok c \<Longrightarrow> waiting c q = x # xs \<Longrightarrow>
          snd (deq c q) = Some x \<and> waiting (fst (deq c q)) = (waiting c)(q := xs) \<and> ok (fst (deq c q))"
begin

lemma waiting_enq_all:
  "ok c \<Longrightarrow> ok (fold (\<lambda>x c. enq c q x) xs c) \<and>
           waiting (fold (\<lambda>x c. enq c q x) xs c) = (waiting c)(q := waiting c q @ xs)"
  by (induction xs arbitrary: c) (auto simp: waiting_enq ok_enq)

lemma drain_front:
  "ok c \<Longrightarrow> waiting c q = xs @ ys \<Longrightarrow>
   snd (drain (\<lambda>c. deq c q) (length xs) c) = xs \<and>
   waiting (fst (drain (\<lambda>c. deq c q) (length xs) c)) = (waiting c)(q := ys)"
proof (induction xs arbitrary: c)
  case Nil
  then show ?case by auto
next
  case (Cons x xs)
  then have d: "snd (deq c q) = Some x" "waiting (fst (deq c q)) = (waiting c)(q := xs @ ys)"
    "ok (fst (deq c q))"
    using deq_front [of c q x "xs @ ys"] by auto
  with Cons.IH [of "fst (deq c q)"] show ?case
    by (cases "deq c q") (auto split: prod.splits)
qed

lemma enq_drain:
  assumes "ok c" and "waiting c q = []"
  shows "snd (drain (\<lambda>c. deq c q) (length xs) (fold (\<lambda>x c. enq c q x) xs c)) = xs"
  using assms waiting_enq_all [of c q xs] drain_front [of "fold (\<lambda>x c. enq c q x) xs c" q xs "[]"] by simp

end

text \<open>\<open>Dequeue\<close> watching one queue, as a pop.\<close>

definition pop_one :: "'r redis \<Rightarrow> 'r rconn \<Rightarrow> string \<Rightarrow> 'r rconn \<times> string option" where
  "pop_one R c q =
     (case Dequeue R c [q] of (c', Inl e) \<Rightarrow> (c', None) | (c', Inr (x, _)) \<Rightarrow> (c', Some x))"

context redis_server
begin

lemma queued_Enqueue [queue_simps]:
  "r_net c = [] \<Longrightarrow> queued R (fst (Enqueue R c q x)) = (queued R c)(q := x # queued R c q)"
  by (auto simp: Enqueue_def redis_do_healthy queued_def fun_eq_iff redis_laws)

lemma delayed_Enqueue [queue_simps]:
  "r_net c = [] \<Longrightarrow> delayed R (fst (Enqueue R c q x)) = delayed R c"
  by (auto simp: Enqueue_def redis_do_healthy delayed_def fun_eq_iff redis_laws)

lemma net_Enqueue: "r_net c = [] \<Longrightarrow> r_net (fst (Enqueue R c q x)) = []"
  by (simp add: Enqueue_def redis_do_healthy)

lemma find_keys:
  "find (\<lambda>k. lrange R r k \<noteq> []) (map ((@) keyPrefix) qs) =
     map_option ((@) keyPrefix) (find (\<lambda>q. lrange R r (keyPrefix @ q) \<noteq> []) qs)"
  by (induction qs) auto

text \<open>\<open>Dequeue\<close> takes the oldest id of the first queue, in the order given, that is not empty.\<close>

lemma Dequeue_some:
  assumes "r_net c = []" and "find (\<lambda>q. queued R c q \<noteq> []) qs = Some q"
  shows "snd (Dequeue R c qs) = Inr (last (queued R c q), q)"
    and "queued R (fst (Dequeue R c qs)) = (queued R c)(q := butlast (queued R c q))"
    and "delayed R (fst (Dequeue R c qs)) = delayed R c"
    and "r_net (fst (Dequeue R c qs)) = []"
proof -
  have "find (\<lambda>k. lrange R (r_srv c) k \<noteq> []) (map ((@) keyPrefix) qs) = Some (keyPrefix @ q)"
    using assms(2) by (simp add: find_keys queued_def)
  note b = brpop_key [OF this] lrange_brpop [OF this]
  from assms(1) b show "snd (Dequeue R c qs) = Inr (last (queued R c q), q)"
    by (simp add: Dequeue_def redis_do_healthy queued_def)
  from assms(1) b show "queued R (fst (Dequeue R c qs)) = (queued R c)(q := butlast (queued R c q))"
    by (auto simp: Dequeue_def redis_do_healthy queued_def fun_eq_iff)
  from assms(1) b show "delayed R (fst (Dequeue R c qs)) = delayed R c"
    by (simp add: Dequeue_def redis_do_healthy delayed_def fun_eq_iff zrange_brpop)
  from assms(1) b show "r_net (fst (Dequeue R c qs)) = []"
    by (simp add: Dequeue_def redis_do_healthy)
qed

lemma Dequeue_none:
  "r_net c = [] \<Longrightarrow> qs \<noteq> [] \<Longrightarrow> find (\<lambda>q. queued R c q \<noteq> []) qs = None \<Longrightarrow>
   Dequeue R c qs = (c, Inl Redis_Nil)"
  by (cases c) (simp add: Dequeue_def redis_do_healthy find_keys queued_def brpop_empty)

lemma pop_one_front:
  assumes "r_net c = []" and "rev (queued R c q) = x # xs"
  shows "snd (pop_one R c q) = Some x \<and> queued R (fst (pop_one R c q)) = (queued R c)(q := rev xs) \<and>
         r_net (fst (pop_one R c q)) = []"
proof -
  from assms(2) have l: "queued R c q = rev xs @ [x]"
    by (metis rev.simps(2) rev_rev_ident)
  then have "find (\<lambda>q. queued R c q \<noteq> []) [q] = Some q" by simp
  note d = Dequeue_some [OF assms(1) this]
  from d(1) show ?thesis
    using d(2,4) l by (auto simp: pop_one_def split: prod.splits)
qed

end

sublocale redis_server \<subseteq> wq: fifo_queue
  "\<lambda>c. r_net c = []" "\<lambda>c q. rev (queued R c q)" "\<lambda>c q x. fst (Enqueue R c q x)" "pop_one R"
proof (unfold_locales, goal_cases)
  case (1 c q x)
  then show ?case by (auto simp: queued_Enqueue)
next
  case (2 c q x)
  then show ?case by (rule net_Enqueue)
next
  case (3 c q x xs)
  then show ?case using pop_one_front [of c q x xs] by auto
qed

context redis_server
begin

lemma Enqueue_drain:
  "r_net c = [] \<Longrightarrow> queued R c q = [] \<Longrightarrow>
   snd (drain (\<lambda>c. pop_one R c q) (length xs) (fold (\<lambda>x c. fst (Enqueue R c q x)) xs c)) = xs"
  by (rule wq.enq_drain) simp_all

end

subsection \<open>Promotion of due retries\<close>

text \<open>The entries of the delayed set one call of \<open>PromoteDue\<close> moves.\<close>

definition due_entries :: "'r redis \<Rightarrow> 'r rconn \<Rightarrow> string \<Rightarrow> time \<Rightarrow> int \<Rightarrow> (string \<times> int) list" where
  "due_entries R c q now limit = limit_of limit (filter (\<lambda>e. snd e \<le> Unix now) (delayed R c q))"

lemma set_limit_of: "set (limit_of n xs) \<subseteq> set xs"
  by (auto simp: limit_of_def dest: in_set_takeD)

lemma distinct_limit_of: "distinct (map f xs) \<Longrightarrow> distinct (map f (limit_of n xs))"
  by (simp add: limit_of_def flip: take_map)

lemma length_limit_of: "0 \<le> n \<Longrightarrow> int (length (limit_of n xs)) = min n (int (length xs))"
  by (auto simp: limit_of_def)

lemma mset_filter_keys:
  "distinct (map fst xs) \<Longrightarrow> distinct (map fst ys) \<Longrightarrow> set ys \<subseteq> set xs \<Longrightarrow>
   mset (map fst ys) + mset (map fst (filter (\<lambda>e. fst e \<notin> fst ` set ys) xs)) = mset (map fst xs)"
proof -
  assume d: "distinct (map fst xs)" "distinct (map fst ys)" and sub: "set ys \<subseteq> set xs"
  let ?zs = "map fst ys @ map fst (filter (\<lambda>e. fst e \<notin> fst ` set ys) xs)"
  have "distinct ?zs"
    using d by (simp add: distinct_map_filter) (auto simp: image_iff)
  moreover have "set ?zs = set (map fst xs)"
    using sub by auto
  ultimately have "mset ?zs = mset (map fst xs)"
    using d(1) set_eq_iff_mset_eq_distinct by blast
  then show ?thesis by simp
qed

lemma fold_insert_set: "set (fold List.insert ks seen) = set ks \<union> set seen"
  by (induction ks arbitrary: seen) auto

lemma distinct_fold_insert: "distinct seen \<Longrightarrow> distinct (fold List.insert ks seen)"
  by (induction ks arbitrary: seen) auto

lemma length_fold_insert: "length (fold List.insert ks []) = card (set ks)"
  using distinct_card [OF distinct_fold_insert [of "[]" ks]] by (simp add: fold_insert_set)

context redis_server
begin

lemma promote_members_effect:
  "lrange R (promote_members R k1 k2 ms r) = (lrange R r)(k2 := rev ms @ lrange R r k2)"
  "zrange R (promote_members R k1 k2 ms r) =
     (zrange R r)(k1 := filter (\<lambda>e. fst e \<notin> set ms) (zrange R r k1))"
  "expires R (promote_members R k1 k2 ms r) = expires R r"
  by (induction ms arbitrary: r) (auto simp: redis_laws fun_eq_iff conj_commute)

lemma promoteScript_due:
  "promoteScript R (delayedKeyPrefix @ q) (keyPrefix @ q) (Unix now) limit (r_srv c) =
     (promote_members R (delayedKeyPrefix @ q) (keyPrefix @ q) (map fst (due_entries R c q now limit)) (r_srv c),
      int (length (due_entries R c q now limit)))"
  by (simp add: promoteScript_def due_entries_def delayed_def zrangebyscore_zrange)

lemma promoted_views:
  assumes "r_srv c' = fst (promoteScript R (delayedKeyPrefix @ q) (keyPrefix @ q) (Unix now) limit (r_srv c))"
  shows "queued R c' = (queued R c)(q := rev (map fst (due_entries R c q now limit)) @ queued R c q)"
    and "delayed R c' =
      (delayed R c)(q := filter (\<lambda>e. fst e \<notin> fst ` set (due_entries R c q now limit)) (delayed R c q))"
  using assms by (auto simp: promoteScript_due promote_members_effect queued_def delayed_def fun_eq_iff)

lemma delayed_members: "distinct (map fst (delayed R c q))"
  by (simp add: delayed_def zrange_members)

lemma due_distinct: "distinct (map fst (due_entries R c q now limit))"
  by (simp add: due_entries_def distinct_limit_of distinct_map_filter delayed_members)

lemma due_subset: "set (due_entries R c q now limit) \<subseteq> {e \<in> set (delayed R c q). snd e \<le> Unix now}"
  using set_limit_of [of limit "filter (\<lambda>e. snd e \<le> Unix now) (delayed R c q)"]
  by (auto simp: due_entries_def)

lemma PromoteDue_effect:
  assumes "r_net c = []"
  shows "snd (PromoteDue R c q now limit) = Inr (int (length (due_entries R c q now limit)))"
    and "queued R (fst (PromoteDue R c q now limit)) =
      (queued R c)(q := rev (map fst (due_entries R c q now limit)) @ queued R c q)"
    and "delayed R (fst (PromoteDue R c q now limit)) =
      (delayed R c)(q := filter (\<lambda>e. fst e \<notin> fst ` set (due_entries R c q now limit)) (delayed R c q))"
proof -
  let ?s = "promoteScript R (delayedKeyPrefix @ q) (keyPrefix @ q) (Unix now) limit"
  have p: "PromoteDue R c q now limit = (c\<lparr>r_srv := fst (?s (r_srv c))\<rparr>, Inr (snd (?s (r_srv c))))"
    using assms by (simp add: PromoteDue_def redis_do_healthy)
  then show "snd (PromoteDue R c q now limit) = Inr (int (length (due_entries R c q now limit)))"
    by (simp add: promoteScript_due)
  show "queued R (fst (PromoteDue R c q now limit)) =
      (queued R c)(q := rev (map fst (due_entries R c q now limit)) @ queued R c q)"
    by (rule promoted_views) (simp add: p)
  show "delayed R (fst (PromoteDue R c q now limit)) =
      (delayed R c)(q := filter (\<lambda>e. fst e \<notin> fst ` set (due_entries R c q now limit)) (delayed R c q))"
    by (rule promoted_views) (simp add: p)
qed

text \<open>
  Whatever the network does to the call, an id is neither duplicated nor lost: the work list and
  the delayed set together hold what they held before.
\<close>

lemma PromoteDue_conserves:
  "mset (queued R (fst (PromoteDue R c q now limit)) q') + mset (map fst (delayed R (fst (PromoteDue R c q now limit)) q'))
   = mset (queued R c q') + mset (map fst (delayed R c q'))"
proof -
  let ?c' = "fst (PromoteDue R c q now limit)"
  consider "r_srv ?c' = r_srv c"
    | "r_srv ?c' = fst (promoteScript R (delayedKeyPrefix @ q) (keyPrefix @ q) (Unix now) limit (r_srv c))"
    using PromoteDue_srv [of R c q now limit] by blast
  then show ?thesis
  proof cases
    case 1
    then show ?thesis by (simp add: queued_def delayed_def)
  next
    case 2
    note views = promoted_views [OF 2]
    have "set (due_entries R c q now limit) \<subseteq> set (delayed R c q)"
      using due_subset [of c q now limit] by auto
    from mset_filter_keys [OF delayed_members due_distinct this] views show ?thesis
      by (cases "q' = q") auto
  qed
qed

text \<open>\<open>Remove\<close> on a healthy connection takes the id out of both structures of its queue.\<close>

lemma Remove_effect:
  assumes "r_net c = []"
  shows "queued R (fst (Remove R c q x)) = (queued R c)(q := filter (\<lambda>y. y \<noteq> x) (queued R c q))"
    and "delayed R (fst (Remove R c q x)) = (delayed R c)(q := filter (\<lambda>e. fst e \<noteq> x) (delayed R c q))"
  using assms by (auto simp: Remove_def redis_do_healthy queued_def delayed_def fun_eq_iff redis_laws)

lemma EnqueueDelayed_effect:
  assumes "r_net c = []"
  shows "queued R (fst (EnqueueDelayed R c q x t)) = queued R c"
    and "set (delayed R (fst (EnqueueDelayed R c q x t)) q) =
           insert (x, Unix t) {e \<in> set (delayed R c q). fst e \<noteq> x}"
  using assms
  by (auto simp: EnqueueDelayed_def redis_do_healthy queued_def delayed_def fun_eq_iff redis_laws
      set_zrange_zadd)

subsection \<open>Worker liveness\<close>

lemma scan_loop_iter:
  "r_net c = [] \<Longrightarrow> scan_iter R (workerKeyPrefix @ ''*'') 100 (r_now c) (r_srv c) n cur = Some kss \<Longrightarrow>
   scan_loop R cur seen c = Some (c, Inr (int (length (fold List.insert (concat kss) seen))))"
proof (induction n arbitrary: cur seen kss)
  case 0
  then show ?case by simp
next
  case (Suc n)
  obtain ks nxt where s: "scan R cur (workerKeyPrefix @ ''*'') 100 (r_now c) (r_srv c) = (ks, nxt)"
    by force
  have c: "c\<lparr>r_srv := r_srv c\<rparr> = c" by simp
  show ?case
  proof (cases "nxt = 0")
    case True
    with Suc.prems s have "kss = [ks]" by simp
    with True Suc.prems(1) s c show ?thesis
      by (subst scan_loop.simps) (simp add: redis_do_healthy)
  next
    case False
    with Suc.prems s obtain kss' where k: "kss = ks # kss'"
      "scan_iter R (workerKeyPrefix @ ''*'') 100 (r_now c) (r_srv c) n nxt = Some kss'"
      by auto
    from Suc.IH [OF Suc.prems(1) k(2)] False s c k(1) Suc.prems(1) show ?thesis
      by (subst scan_loop.simps) (simp add: redis_do_healthy Let_def)
  qed
qed

lemma CountActiveWorkers_live:
  assumes "r_net c = []"
  shows "CountActiveWorkers R c =
    Some (c, Inr (int (card (live_keys R (r_srv c) workerKeyPrefix (r_now c)))))"
proof -
  have "glob_free workerKeyPrefix"
    by (simp add: glob_free_def workerKeyPrefix_def)
  then obtain n kss where
    "scan_iter R (workerKeyPrefix @ ''*'') 100 (r_now c) (r_srv c) n 0 = Some kss"
    and "set (concat kss) = live_keys R (r_srv c) workerKeyPrefix (r_now c)"
    using scan_complete by blast
  then show ?thesis
    by (simp add: CountActiveWorkers_def scan_loop_iter [OF assms] length_fold_insert)
qed

lemma Heartbeat_expiry:
  "r_net c = [] \<Longrightarrow> expires R (r_srv (fst (Heartbeat R c now w))) =
     (expires R (r_srv c))(workerKeyPrefix @ w \<mapsto> r_now c + WorkerTTL)"
  by (simp add: Heartbeat_def redis_do_healthy redis_laws)

lemma RemoveWorker_expiry:
  "r_net c = [] \<Longrightarrow> expires R (r_srv (fst (RemoveWorker R c w))) =
     (expires R (r_srv c))(workerKeyPrefix @ w := None)"
  by (simp add: RemoveWorker_def redis_do_healthy redis_laws)

end

end
