(* ===== verification/Enqueuer.thy ===== *)
theory Enqueuer
  imports StoreInv Queue
begin

section \<open>Admitting a job\<close>

text \<open>
  \<^verbatim>\<open>src/internal/enqueue/enqueue.go\<close>: \<open>Submit\<close> fills defaults, refuses a job without a tenant,
  writes the row and only then pushes the id. It changes the job in place, so the job it leaves is
  part of the result. The package \<^verbatim>\<open>github.com/google/uuid\<close> is the parameter \<open>U\<close>; what
  \<open>uuid.New\<close> would return is the argument \<open>fresh\<close>. The code relies on \<open>Parse\<close> reading back what
  \<open>String\<close> prints: the locale \<open>uuid_codec\<close>.
\<close>

record uuid_pkg =
  uuid_String :: "uuid \<Rightarrow> string"
  uuid_Parse :: "string \<Rightarrow> uuid option"

locale uuid_codec =
  fixes U :: uuid_pkg
  assumes Parse_String: "uuid_Parse U (uuid_String U u) = Some u"
begin

lemma String_inject: "uuid_String U u = uuid_String U v \<longleftrightarrow> u = v"
  by (metis Parse_String option.inject)

end

text \<open>A codec with this law, one character per bit.\<close>

definition bits_uuid :: uuid_pkg where
  "bits_uuid = \<lparr>
     uuid_String = (\<lambda>u. map (\<lambda>i. if bit u i then CHR ''1'' else CHR ''0'') [0..<128]),
     uuid_Parse = (\<lambda>s. if length s = 128 \<and> set s \<subseteq> {CHR ''0'', CHR ''1''}
        then Some (horner_sum of_bool 2 (map (\<lambda>c. c = CHR ''1'') s)) else None)\<rparr>"

interpretation bits: uuid_codec bits_uuid
proof
  fix u :: uuid
  have "(horner_sum of_bool 2 (map (bit u) [0..<128]) :: uuid) = u"
    using horner_sum_bit_eq_take_bit [of u 128] by (simp add: take_bit_word_eq_self)
  then show "uuid_Parse bits_uuid (uuid_String bits_uuid u) = Some u"
    by (auto simp: bits_uuid_def comp_def)
qed

lemma bits_uuid_codec: "uuid_codec bits_uuid"
  by (rule bits.uuid_codec_axioms)

definition DefaultMaxRetries :: int where "DefaultMaxRetries = 3"

datatype submit_err =
    ErrMissingTenant
  | Persist_job pgerr
  | ErrEnqueueAfterPersist queue_err

definition applyDefaults :: "uuid \<Rightarrow> job \<Rightarrow> job" where
  "applyDefaults fresh job =
     (let job = (if job_ID job = uuid_Nil then job\<lparr>job_ID := fresh\<rparr> else job);
          job = (if job_QueueName job = [] then job\<lparr>job_QueueName := ''default''\<rparr> else job);
          job = (if job_Payload job = None then job\<lparr>job_Payload := Some (JObj [])\<rparr> else job);
          job = (if job_Status job = [] then job\<lparr>job_Status := StatusPending\<rparr> else job)
      in job)"

definition Submit ::
  "'r redis \<Rightarrow> uuid_pkg \<Rightarrow> uuid \<Rightarrow> pg \<Rightarrow> 'r rconn \<Rightarrow> job \<Rightarrow> pg \<times> 'r rconn \<times> job \<times> (submit_err + unit)" where
  "Submit R U fresh p c job =
     (let job = applyDefaults fresh job in
      if job_TenantID job = uuid_Nil then (p, c, job, Inl ErrMissingTenant)
      else
        (case CreateJob p job of
           (p', Inl e) \<Rightarrow> (p', c, job, Inl (Persist_job e))
         | (p', Inr job') \<Rightarrow>
             (case Enqueue R c (job_QueueName job') (uuid_String U (job_ID job')) of
                (c', Inl e) \<Rightarrow> (p', c', job', Inl (ErrEnqueueAfterPersist e))
              | (c', Inr _) \<Rightarrow> (p', c', job', Inr ()))))"

subsection \<open>What the defaults leave\<close>

lemma applyDefaults_fields:
  "job_TenantID (applyDefaults u j) = job_TenantID j" "job_JobType (applyDefaults u j) = job_JobType j"
  "job_MaxRetries (applyDefaults u j) = job_MaxRetries j" "job_ScheduledAt (applyDefaults u j) = job_ScheduledAt j"
  "job_ID (applyDefaults u j) = (if job_ID j = uuid_Nil then u else job_ID j)"
  "job_QueueName (applyDefaults u j) = (if job_QueueName j = [] then ''default'' else job_QueueName j)"
  "job_Payload (applyDefaults u j) = (if job_Payload j = None then Some (JObj []) else job_Payload j)"
  "job_Status (applyDefaults u j) = (if job_Status j = [] then StatusPending else job_Status j)"
  by (simp_all add: applyDefaults_def Let_def)

lemma inserted_fields [simp]:
  "job_ID (inserted p j x) = job_ID j" "job_TenantID (inserted p j x) = job_TenantID j"
  "job_QueueName (inserted p j x) = job_QueueName j" "job_Status (inserted p j x) = job_Status j"
  "job_MaxRetries (inserted p j x) = job_MaxRetries j" "job_RetryCount (inserted p j x) = 0"
  "job_JobType (inserted p j x) = job_JobType j"
  by (simp_all add: inserted_def)

lemma CreateJob_row:
  "CreateJob p job = (p', Inr row) \<Longrightarrow>
     job_of (pg_db p) (job_ID row) = None \<and> job_of (pg_db p') (job_ID row) = Some row \<and> job_ID row = job_ID job"
  by (auto simp: insertable_def row_by_append dest!: CreateJob_ok split: option.split)

subsection \<open>The row before the id\<close>

text \<open>
  Whatever the network does: the queue is touched only when the row is in the table, and the
  table gains at most the job's row.
\<close>

lemma Submit_row_first:
  assumes "Submit R U fresh p c job = (p', c', job', r)" and "r_srv c' \<noteq> r_srv c"
  shows "job_of (pg_db p) (job_ID job') = None \<and> job_of (pg_db p') (job_ID job') = Some job'"
proof -
  from assms obtain q where
    c: "CreateJob p (applyDefaults fresh job) = (p', Inr job')"
    by (auto simp: Submit_def Let_def split: if_splits prod.splits sum.splits)
  from CreateJob_row [OF c] show ?thesis by blast
qed

lemma Submit_db:
  assumes "Submit R U fresh p c job = (p', c', job', r)"
  shows "pg_db p' = pg_db p \<or> (\<exists>payload. insertable (pg_db p) (applyDefaults fresh job) \<and>
    pg_db p' = (pg_db p)\<lparr>jobs := jobs (pg_db p) @ [inserted p (applyDefaults fresh job) payload]\<rparr>)"
  using assms CreateJob_db [of p "applyDefaults fresh job"]
  by (auto simp: Submit_def Let_def split: if_splits prod.splits sum.splits)

lemma Submit_ok:
  assumes "Submit R U fresh p c job = (p', c', job', r)" and "r = Inr () \<or> r = Inl (ErrEnqueueAfterPersist e)"
  shows "job_TenantID job \<noteq> uuid_Nil \<and> job_of (pg_db p') (job_ID job') = Some job' \<and>
    (\<exists>payload. job' = inserted p (applyDefaults fresh job) payload)"
    and "r = Inr () \<Longrightarrow> r_srv c' = fst (lpush R (keyPrefix @ job_QueueName job') (uuid_String U (job_ID job')) (r_srv c))"
proof -
  from assms have t: "job_TenantID job \<noteq> uuid_Nil" and c: "CreateJob p (applyDefaults fresh job) = (p', Inr job')"
    and e: "\<And>u. r = Inr u \<Longrightarrow> Enqueue R c (job_QueueName job') (uuid_String U (job_ID job')) = (c', Inr ())"
    by (auto simp: Submit_def Let_def applyDefaults_fields split: if_splits prod.splits sum.splits)
  from CreateJob_ok [OF c] CreateJob_row [OF c] t
  show "job_TenantID job \<noteq> uuid_Nil \<and> job_of (pg_db p') (job_ID job') = Some job' \<and>
    (\<exists>payload. job' = inserted p (applyDefaults fresh job) payload)"
    by auto
  show "r = Inr () \<Longrightarrow> r_srv c' = fst (lpush R (keyPrefix @ job_QueueName job') (uuid_String U (job_ID job')) (r_srv c))"
    using e by (auto dest: Enqueue_ok)
qed

lemma Submit_new:
  assumes "Submit R U fresh p c job = (p', c', job', r)" and "r = Inr () \<or> r = Inl (ErrEnqueueAfterPersist e)"
  shows "job_of (pg_db p) (job_ID job') = None"
proof -
  from assms have "CreateJob p (applyDefaults fresh job) = (p', Inr job')"
    by (auto simp: Submit_def Let_def split: if_splits prod.splits sum.splits)
  from CreateJob_row [OF this] show ?thesis by blast
qed

end
