(* ===== verification/Registry.thy ===== *)
theory Registry
  imports Json
begin

section \<open>Job handlers and their registry\<close>

text \<open>
  \<^verbatim>\<open>src/internal/jobs/registry.go\<close> and \<^verbatim>\<open>src/internal/jobs/handlers.go\<close>. A handler is a function of
  its environment (what \<open>uuid.NewString\<close> returns, and whether the context ends before the
  simulated work is over) and the decoded payload, a Go map; its result is the JSON document
  \<open>json.Marshal\<close> prints for the value it returns. Every value a built-in handler returns is made
  of maps, strings and decoded JSON, which \<open>json.Marshal\<close> accepts; a handler whose result it
  rejects is \<open>Unencodable\<close>. \<open>Register\<close> panics on a duplicate: \<open>None\<close>.
\<close>

type_synonym gomap = "(string \<times> json) list"

record henv =
  h_NewString :: string
  h_ctx_Err :: "string option"

datatype go_result = Encodable json | Unencodable

type_synonym JobHandler = "henv \<Rightarrow> gomap \<Rightarrow> string + go_result"

datatype dispatch_err =
    No_handler string
  | Invalid_payload
  | Handler_failed string
  | Encode_failed string

type_synonym registry = "(string \<times> JobHandler) list"

definition NewRegistry :: registry where "NewRegistry = []"

definition Register :: "registry \<Rightarrow> string \<Rightarrow> JobHandler \<Rightarrow> registry option" where
  "Register r jobType h = (if map_of r jobType \<noteq> None then None else Some ((jobType, h) # r))"

definition Get :: "registry \<Rightarrow> string \<Rightarrow> dispatch_err + JobHandler" where
  "Get r jobType = (case map_of r jobType of None \<Rightarrow> Inl (No_handler jobType) | Some h \<Rightarrow> Inr h)"

definition Types :: "registry \<Rightarrow> string list" where
  "Types r = sort (map fst r)"

definition decodePayload :: "(string \<Rightarrow> string option) \<Rightarrow> raw_message \<Rightarrow> dispatch_err + gomap" where
  "decodePayload f64 raw =
     (case raw of
        None \<Rightarrow> Inr []
      | Some JNull \<Rightarrow> Inr []
      | Some (JObj es) \<Rightarrow>
          (case decode_entries f64 es of
             None \<Rightarrow> Inl Invalid_payload
           | Some es' \<Rightarrow> Inr (map_of_entries es' []))
      | Some _ \<Rightarrow> Inl Invalid_payload)"

definition Dispatch ::
  "(string \<Rightarrow> string option) \<Rightarrow> henv \<Rightarrow> registry \<Rightarrow> string \<Rightarrow> raw_message \<Rightarrow> dispatch_err + json" where
  "Dispatch f64 env r jobType rawPayload =
     (case Get r jobType of
        Inl e \<Rightarrow> Inl e
      | Inr handler \<Rightarrow>
          (case decodePayload f64 rawPayload of
             Inl e \<Rightarrow> Inl e
           | Inr payload \<Rightarrow>
               (case handler env payload of
                  Inl e \<Rightarrow> Inl (Handler_failed e)
                | Inr Unencodable \<Rightarrow> Inl (Encode_failed jobType)
                | Inr (Encodable j) \<Rightarrow> Inr j)))"

subsection \<open>The built-in handlers\<close>

definition echoHandler :: JobHandler where
  "echoHandler env payload = Inr (Encodable (JObj payload))"

definition alwaysFailHandler :: JobHandler where
  "alwaysFailHandler env payload = Inl ''always_fail: deliberate failure for testing retries''"

text \<open>\<open>s, _ := payload[k].(string)\<close>: the zero value when the key is absent or not a string.\<close>

definition string_field :: "gomap \<Rightarrow> string \<Rightarrow> string" where
  "string_field m k = (case map_of m k of Some (JStr s) \<Rightarrow> s | _ \<Rightarrow> [])"

definition SendEmailHandler :: JobHandler where
  "SendEmailHandler env payload =
     (let to = string_field payload ''to'' in
      if to = [] then Inl ''send_email: payload field \"to\" is required''
      else Inr (Encodable (JObj (map_of_entries
        [(''message_id'', JStr (''msg_'' @ h_NewString env)), (''to'', JStr to), (''status'', JStr ''sent'')] []))))"

definition ExportPDFHandler :: JobHandler where
  "ExportPDFHandler env payload =
     (case h_ctx_Err env of
        Some e \<Rightarrow> Inl e
      | None \<Rightarrow>
          (let docID = string_field payload ''document_id'';
               docID = (if docID = [] then h_NewString env else docID)
           in Inr (Encodable (JObj (map_of_entries
                [(''document_id'', JStr docID),
                 (''url'', JStr (''https://files.example.com/exports/'' @ docID @ ''.pdf'')),
                 (''status'', JStr ''ready'')] [])))))"

definition DefaultRegistry :: "registry option" where
  "DefaultRegistry =
     (case Register NewRegistry ''echo'' echoHandler of
        None \<Rightarrow> None
      | Some r \<Rightarrow>
          (case Register r ''always_fail'' alwaysFailHandler of
             None \<Rightarrow> None
           | Some r \<Rightarrow>
               (case Register r ''send_email'' SendEmailHandler of
                  None \<Rightarrow> None
                | Some r \<Rightarrow> Register r ''export_pdf'' ExportPDFHandler)))"

subsection \<open>The registry is a map\<close>

lemma Register_Get:
  "Register r t h = Some r' \<Longrightarrow> Get r' t' = (if t' = t then Inr h else Get r t')"
  by (auto simp: Register_def Get_def split: if_splits)

lemma Register_Types:
  "Register r t h = Some r' \<Longrightarrow> mset (Types r') = add_mset t (mset (Types r)) \<and> sorted (Types r')"
  by (auto simp: Register_def Types_def split: if_splits)

lemma Register_distinct:
  "distinct (map fst r) \<Longrightarrow> Register r t h = Some r' \<Longrightarrow> distinct (map fst r')"
  by (auto simp: Register_def map_of_eq_None_iff split: if_splits)

lemma DefaultRegistry_eq:
  "DefaultRegistry = Some [(''export_pdf'', ExportPDFHandler), (''send_email'', SendEmailHandler),
     (''always_fail'', alwaysFailHandler), (''echo'', echoHandler)]"
  by (simp add: DefaultRegistry_def Register_def NewRegistry_def)

subsection \<open>Decoding twice\<close>

text \<open>
  A document that went through a Go map once comes out of it unchanged the next time, when
  printing and reading a \<open>float64\<close> does.
\<close>

lemma decode_entries_list:
  "decode_entries f64 es = Some es' \<longleftrightarrow> map fst es = map fst es' \<and>
     list_all2 (\<lambda>e e'. decode_any f64 (snd e) = Some (snd e')) es es'"
proof (induction es arbitrary: es')
  case Nil
  then show ?case by auto
next
  case (Cons e es)
  show ?case
    by (cases e; cases es') (auto simp: Cons.IH split: option.splits)
qed

lemma decode_list_list:
  "decode_list f64 js = Some js' \<longleftrightarrow> list_all2 (\<lambda>j j'. decode_any f64 j = Some j') js js'"
proof (induction js arbitrary: js')
  case Nil
  then show ?case by auto
next
  case (Cons j js)
  show ?case
    by (cases js') (auto simp: Cons.IH split: option.splits)
qed

lemma snd_map_put: "snd ` set (map_put k v m) \<subseteq> insert v (snd ` set m)"
  by (induction k v m rule: map_put.induct) auto

lemma snd_map_of_entries: "snd ` set (map_of_entries es m) \<subseteq> snd ` set es \<union> snd ` set m"
proof (induction es m rule: map_of_entries.induct)
  case (1 m)
  then show ?case by simp
next
  case (2 k v es m)
  then show ?case using snd_map_put [of k v m] by auto
qed

lemma decode_entries_fixed:
  assumes "\<forall>v \<in> snd ` set es. decode_any f64 v = Some v"
  shows "decode_entries f64 (map_of_entries es []) = Some (map_of_entries es [])"
proof -
  have "\<forall>v \<in> snd ` set (map_of_entries es []). decode_any f64 v = Some v"
    using assms snd_map_of_entries [of es "[]"] by fastforce
  then show ?thesis
    by (auto simp: decode_entries_list list_all2_same)
qed

lemma map_of_entries_twice: "map_of_entries (map_of_entries es []) [] = map_of_entries es []"
  using map_of_entries_sorted [of "[]" "map_of_entries es []"] sorted_map_of_entries [of "[]" es] by simp


lemma list_all2_fixed:
  "list_all2 Q xs ys \<Longrightarrow> (\<And>x y. x \<in> set xs \<Longrightarrow> Q x y \<Longrightarrow> Q' y) \<Longrightarrow> \<forall>y \<in> set ys. Q' y"
  by (auto simp: list_all2_conv_all_nth in_set_conv_nth) blast

lemma decode_any_twice:
  assumes f: "\<And>s s'. f64 s = Some s' \<Longrightarrow> f64 s' = Some s'"
  shows "decode_any f64 j = Some j' \<Longrightarrow> decode_any f64 j' = Some j'"
proof (induction j arbitrary: j')
  case (JNum n)
  then show ?case using f by auto
next
  case (JArr js)
  then obtain js' where js': "list_all2 (\<lambda>j j'. decode_any f64 j = Some j') js js'" "j' = JArr js'"
    by (auto simp: decode_list_list)
  from list_all2_fixed [OF js'(1), of "\<lambda>y. decode_any f64 y = Some y"] JArr.IH
  have "\<forall>y \<in> set js'. decode_any f64 y = Some y" by blast
  then have "decode_list f64 js' = Some js'"
    by (simp add: decode_list_list list_all2_same)
  with js'(2) show ?case by simp
next
  case (JObj es)
  then obtain es' where es': "decode_entries f64 es = Some es'" "j' = JObj (map_of_entries es' [])"
    by auto
  from es'(1) have "list_all2 (\<lambda>e e'. decode_any f64 (snd e) = Some (snd e')) es es'"
    by (simp add: decode_entries_list)
  from list_all2_fixed [OF this, of "\<lambda>e. decode_any f64 (snd e) = Some (snd e)"] JObj.IH
  have "\<forall>e \<in> set es'. decode_any f64 (snd e) = Some (snd e)"
    by (meson prod_set_simps(2) sndsp.intros snds.intros)
  then have "decode_entries f64 (map_of_entries es' []) = Some (map_of_entries es' [])"
    by (intro decode_entries_fixed) auto
  with es'(2) show ?case by (simp add: map_of_entries_twice)
qed auto

lemma echo_Dispatch:
  assumes "DefaultRegistry = Some r"
  shows "Dispatch f64 env r ''echo'' (Some (JObj es)) =
    (case decode_any f64 (JObj es) of None \<Rightarrow> Inl Invalid_payload | Some j \<Rightarrow> Inr j)"
  using assms
  by (auto simp: DefaultRegistry_eq Dispatch_def Get_def decodePayload_def echoHandler_def split: option.splits)

end
