(* ===== verification/Worker.thy ===== *)
theory Worker
  imports Enqueuer Registry
begin

section \<open>The worker\<close>

text \<open>
  \<^verbatim>\<open>src/cmd/worker/main.go\<close> with the counters of \<^verbatim>\<open>src/internal/metrics/worker.go\<close>. \<open>'r wenv\<close> holds
  what does not change while a worker runs (the Redis commands, the uuid package, the registry,
  how literals read as \<open>float64\<close>, the text of an error); \<open>winput\<close> what one pass of a loop reads
  from its surroundings (clock readings, the handler's environment). The loops \<open>consume\<close>,
  \<open>poll\<close> and \<open>heartbeat\<close> run until their context is cancelled: they are functions of the list of
  passes made before that. Log lines are not modelled.
\<close>

record wmetrics =
  latency :: "(string \<times> time) list" \<comment> \<open>observations of \<open>job_latency_seconds\<close>, newest first\<close>
  processed :: "string \<rightharpoonup> nat"        \<comment> \<open>series of \<open>jobs_processed_total\<close>\<close>

definition NewWorker :: wmetrics where
  "NewWorker = \<lparr>latency = [], processed = [''completed'' \<mapsto> 0, ''failed'' \<mapsto> 0]\<rparr>"

definition ObserveLatency :: "string \<Rightarrow> time \<Rightarrow> wmetrics \<Rightarrow> wmetrics" where
  "ObserveLatency jobType d m = m\<lparr>latency := (jobType, d) # latency m\<rparr>"

definition IncProcessed :: "string \<Rightarrow> wmetrics \<Rightarrow> wmetrics" where
  "IncProcessed status m =
     m\<lparr>processed := (processed m)(status \<mapsto> (case processed m status of None \<Rightarrow> 1 | Some n \<Rightarrow> n + 1))\<rparr>"

record 'r wenv =
  we_R :: "'r redis"
  we_U :: uuid_pkg
  we_registry :: registry
  we_f64 :: "string \<Rightarrow> string option"
  we_Error :: "dispatch_err \<Rightarrow> string"

record winput =
  wi_henv :: henv
  wi_elapsed :: time
  wi_now :: time

record 'r wstate =
  ws_pg :: pg
  ws_conn :: "'r rconn"
  ws_metrics :: wmetrics

datatype process_err =
    Malformed_id
  | Claim_error store_err
  | Store_error pgerr
  | Queue_error queue_err
  | Panic

definition pollInterval :: time where "pollInterval = second"
definition promoteBatch :: int where "promoteBatch = 100"
definition maxBackoff :: i64 where "maxBackoff = word_of_int hour"

text \<open>\<open>1 << attempt\<close> panics for a negative count: \<open>None\<close>.\<close>

definition backoffFor :: "i64 \<Rightarrow> i64 option" where
  "backoffFor attempt =
     (if sint attempt \<ge> 30 then Some maxBackoff
      else if sint attempt < 0 then None
      else
        (let d = push_bit (nat (sint attempt)) 1 * word_of_int second in
         if sint d < sint maxBackoff then Some d else Some maxBackoff))"

definition handleFailure ::
  "'r wenv \<Rightarrow> winput \<Rightarrow> 'r wstate \<Rightarrow> job \<Rightarrow> dispatch_err \<Rightarrow> 'r wstate \<times> (process_err + unit)" where
  "handleFailure E i s job handlerErr =
     (let attempts = wrap64 (job_RetryCount job + 1) in
      if attempts \<ge> job_MaxRetries job then
        (case DeadLetter (ws_pg s) (job_ID job) attempts (we_Error E handlerErr) of
           (p, Inl e) \<Rightarrow> (s\<lparr>ws_pg := p\<rparr>, Inl (Store_error e))
         | (p, Inr _) \<Rightarrow> (s\<lparr>ws_pg := p, ws_metrics := IncProcessed StatusFailed (ws_metrics s)\<rparr>, Inr ()))
      else
        (case backoffFor (word_of_int attempts) of
           None \<Rightarrow> (s, Inl Panic)
         | Some backoff \<Rightarrow>
             (case MarkForRetry (ws_pg s) (job_ID job) attempts (we_Error E handlerErr) of
                (p, Inl e) \<Rightarrow> (s\<lparr>ws_pg := p\<rparr>, Inl (Store_error e))
              | (p, Inr _) \<Rightarrow>
                  (case EnqueueDelayed (we_R E) (ws_conn s) (job_QueueName job)
                          (uuid_String (we_U E) (job_ID job)) (wi_now i + sint backoff) of
                     (c, Inl e) \<Rightarrow> (s\<lparr>ws_pg := p, ws_conn := c\<rparr>, Inl (Queue_error e))
                   | (c, Inr _) \<Rightarrow> (s\<lparr>ws_pg := p, ws_conn := c\<rparr>, Inr ())))))"

definition process ::
  "'r wenv \<Rightarrow> winput \<Rightarrow> 'r wstate \<Rightarrow> string \<Rightarrow> 'r wstate \<times> (process_err + unit)" where
  "process E i s jobID =
     (case uuid_Parse (we_U E) jobID of
        None \<Rightarrow> (s, Inl Malformed_id)
      | Some k \<Rightarrow>
          (case ClaimJob (ws_pg s) k of
             (p, Inl e) \<Rightarrow>
               if e = ErrJobNotClaimable then (s\<lparr>ws_pg := p\<rparr>, Inr ())
               else (s\<lparr>ws_pg := p\<rparr>, Inl (Claim_error e))
           | (p, Inr job) \<Rightarrow>
               (let s1 = s\<lparr>ws_pg := p,
                          ws_metrics := ObserveLatency (job_JobType job) (wi_elapsed i) (ws_metrics s)\<rparr> in
                case Dispatch (we_f64 E) (wi_henv i) (we_registry E) (job_JobType job) (job_Payload job) of
                  Inl handlerErr \<Rightarrow> handleFailure E i s1 job handlerErr
                | Inr result \<Rightarrow>
                    (case MarkCompleted (ws_pg s1) k result of
                       (p, Inl e) \<Rightarrow> (s1\<lparr>ws_pg := p\<rparr>, Inl (Store_error e))
                     | (p, Inr _) \<Rightarrow>
                         (s1\<lparr>ws_pg := p, ws_metrics := IncProcessed StatusCompleted (ws_metrics s1)\<rparr>, Inr ())))))"

text \<open>
  \<open>consume\<close>, one list element per pass of the loop: a pop that times out or fails is followed by
  the next pass, a popped id is processed, and an error of \<open>process\<close> is only logged. A panic
  ends the program.
\<close>

fun consume :: "'r wenv \<Rightarrow> string list \<Rightarrow> winput list \<Rightarrow> 'r wstate \<Rightarrow> 'r wstate" where
  "consume E queues [] s = s"
| "consume E queues (i # is) s =
     (case Dequeue (we_R E) (ws_conn s) queues of
        (c, Inl e) \<Rightarrow> consume E queues is (s\<lparr>ws_conn := c\<rparr>)
      | (c, Inr (jobID, queueName)) \<Rightarrow>
          (case process E i (s\<lparr>ws_conn := c\<rparr>) jobID of
             (s', Inl Panic) \<Rightarrow> s'
           | (s', _) \<Rightarrow> consume E queues is s'))"

text \<open>
  \<open>poll\<close>: a tick carries the clock and whether the context ended meanwhile (the loop returns
  when a promotion fails then). The flag of the result says the loop goes on.
\<close>

fun poll_queues :: "'r redis \<Rightarrow> bool \<Rightarrow> time \<Rightarrow> string list \<Rightarrow> 'r rconn \<Rightarrow> 'r rconn \<times> bool" where
  "poll_queues R ended now [] c = (c, True)"
| "poll_queues R ended now (name # names) c =
     (case PromoteDue R c name now promoteBatch of
        (c', Inl e) \<Rightarrow> if ended then (c', False) else poll_queues R ended now names c'
      | (c', Inr moved) \<Rightarrow> poll_queues R ended now names c')"

fun poll :: "'r redis \<Rightarrow> string list \<Rightarrow> (time \<times> bool) list \<Rightarrow> 'r rconn \<Rightarrow> 'r rconn" where
  "poll R queues [] c = c"
| "poll R queues ((now, ended) # ticks) c =
     (case poll_queues R ended now queues c of
        (c', True) \<Rightarrow> poll R queues ticks c'
      | (c', False) \<Rightarrow> c')"

text \<open>
  \<open>heartbeat\<close>: a beat at once, one per tick, and the removal of the key when the context ends.
  Each beat happens at the server time and on the network it carries; \<open>beats\<close> are those before
  the end of the context.
\<close>

definition beat :: "'r redis \<Rightarrow> string \<Rightarrow> time \<times> fault list \<Rightarrow> 'r rconn \<Rightarrow> 'r rconn" where
  "beat R workerID b c = fst (Heartbeat R (c\<lparr>r_now := fst b, r_net := snd b\<rparr>) (fst b) workerID)"

fun beats :: "'r redis \<Rightarrow> string \<Rightarrow> (time \<times> fault list) list \<Rightarrow> 'r rconn \<Rightarrow> 'r rconn" where
  "beats R workerID [] c = c"
| "beats R workerID (b # bs) c = beats R workerID bs (beat R workerID b c)"

definition heartbeat ::
  "'r redis \<Rightarrow> string \<Rightarrow> time \<times> fault list \<Rightarrow> (time \<times> fault list) list \<Rightarrow> time \<times> fault list \<Rightarrow> 'r rconn \<Rightarrow> 'r rconn" where
  "heartbeat R workerID first ticks stop c =
     fst (RemoveWorker R ((beats R workerID ticks (beat R workerID first c))\<lparr>r_now := fst stop, r_net := snd stop\<rparr>)
            workerID)"

subsection \<open>Backoff\<close>

lemma sint_maxBackoff: "sint maxBackoff = hour"
  by (simp add: maxBackoff_def sint_word_of_int_i64 hour_def minute_def second_def)

lemma backoffFor_eq:
  assumes "0 \<le> sint a"
  shows "\<exists>b. backoffFor a = Some b \<and> sint b = min (2 ^ nat (sint a) * second) hour"
proof (cases "sint a < 30")
  case True
  let ?n = "nat (sint a)"
  have "(2::int) ^ ?n \<le> 2 ^ 29" using True by (intro power_increasing) auto
  then have d: "- (2 ^ 63) \<le> (2::int) ^ ?n * second" "(2::int) ^ ?n * second < 2 ^ 63"
    by (auto simp: second_def intro: order_trans [of _ 0])
  have w: "push_bit ?n 1 * word_of_int second = (word_of_int (2 ^ ?n * second) :: i64)"
    by (simp add: push_bit_eq_mult)
  show ?thesis
    unfolding backoffFor_def w Let_def sint_word_of_int_i64 [OF d]
    using True assms sint_word_of_int_i64 [OF d] by (auto simp: sint_maxBackoff)
next
  case False
  then have "(2::int) ^ 30 \<le> 2 ^ nat (sint a)" by (intro power_increasing) auto
  then have "hour \<le> 2 ^ nat (sint a) * second" by (simp add: hour_def minute_def second_def)
  with False show ?thesis by (simp add: backoffFor_def sint_maxBackoff)
qed

lemma backoffFor_attempts:
  assumes "0 \<le> n" and "int4 n"
  shows "\<exists>b. backoffFor (word_of_int (wrap64 (n + 1))) = Some b \<and> sint b = min (2 ^ nat (n + 1) * second) hour"
proof -
  have "sint (word_of_int (n + 1) :: i64) = n + 1"
    using assms by (intro sint_word_of_int_i64) (auto simp: int4_def)
  with backoffFor_eq [of "word_of_int (n + 1)"] assms show ?thesis by simp
qed

subsection \<open>One job on a working database\<close>

lemma ClaimJob_pending:
  assumes "schema_ok (pg_db p)" and "healthy p" and "job_of (pg_db p) k = Some j" and "job_Status j = StatusPending"
  shows "ClaimJob p k = (p\<lparr>pg_db := put_job (set_updated_at (pg_now p) (claimed (pg_now p) j)) (pg_db p)\<rparr>,
                         Inr (set_updated_at (pg_now p) (claimed (pg_now p) j)))"
  using assms by (simp add: ClaimJob_def exec_healthy claim_stmt_eq set_job_def set_row_def)

lemma ClaimJob_refused:
  assumes "schema_ok (pg_db p)" and "healthy p" and "\<not> claimable k (pg_db p)"
  shows "ClaimJob p k = (p, Inl ErrJobNotClaimable)"
  using assms
  by (cases p) (auto simp: ClaimJob_def exec_healthy claim_stmt_eq set_job_def set_row_def claimable_def split: option.splits)

lemma DeadLetter_healthy:
  assumes "schema_ok (pg_db p)" and "healthy p" and "int4 n" and "pg_text_ok p m"
  shows "DeadLetter p k n m = (p\<lparr>pg_db := dead_db p k n m\<rparr>, Inr ())"
proof -
  obtain w where f: "fail_stmt k n m p = Inr (w, ())"
    using assms(3,4) by (simp add: fail_stmt_def)
  obtain w' where d: "dlq_stmt k m n (p\<lparr>pg_db := w\<rparr>) = Inr (w', ())"
    using assms(3,4) by (simp add: dlq_stmt_def Let_def)
  from dead_stmts_eq [OF assms(1) f d] have "w' = dead_db p k n m" by simp
  with f d assms(2) show ?thesis by (simp add: DeadLetter_def healthy_simps)
qed

lemma MarkForRetry_healthy:
  assumes "schema_ok (pg_db p)" and "healthy p" and "int4 n" and "pg_text_ok p m"
  shows "MarkForRetry p k n m = (p\<lparr>pg_db := set_job p k (\<lambda>_. True) (retried n m)\<rparr>, Inr ())"
  using assms by (simp add: MarkForRetry_def exec_healthy retry_stmt_eq)

lemma MarkCompleted_healthy:
  assumes "schema_ok (pg_db p)" and "healthy p" and "pg_jsonb p r = Some r'"
  shows "MarkCompleted p k r = (p\<lparr>pg_db := set_job p k (\<lambda>_. True) (completed r' (pg_now p))\<rparr>, Inr ())"
  using assms by (simp add: MarkCompleted_def exec_healthy complete_stmt_eq)

lemma claimed_row:
  fixes p :: pg
  assumes "schema_ok (pg_db p)" and "job_of (pg_db p) k = Some j"
  shows "schema_ok (put_job (set_updated_at (pg_now p) (claimed (pg_now p) j)) (pg_db p))"
    and "job_of (put_job (set_updated_at (pg_now p) (claimed (pg_now p) j)) (pg_db p)) k =
      Some (set_updated_at (pg_now p) (claimed (pg_now p) j))"
    and "job_ID (set_updated_at (pg_now p) (claimed (pg_now p) j)) = k"
proof -
  have s: "put_job (set_updated_at (pg_now p) (claimed (pg_now p) j)) (pg_db p) =
      set_job p k (\<lambda>_. True) (claimed (pg_now p))"
    using assms(2) by (simp add: set_job_def)
  show "schema_ok (put_job (set_updated_at (pg_now p) (claimed (pg_now p) j)) (pg_db p))"
    unfolding s using row_int4 [OF assms] by (intro schema_set_job [OF assms(1)]) (use assms(2) in auto)
  show "job_of (put_job (set_updated_at (pg_now p) (claimed (pg_now p) j)) (pg_db p)) k =
      Some (set_updated_at (pg_now p) (claimed (pg_now p) j))"
    unfolding s using assms(2) by (simp add: job_of_set_job)
  show "job_ID (set_updated_at (pg_now p) (claimed (pg_now p) j)) = k"
    using job_of_ID [OF assms(2)] by simp
qed

text \<open>A processed job that succeeds ends completed with the handler's result.\<close>

lemma process_success:
  assumes "uuid_Parse (we_U E) x = Some k"
    and "schema_ok (pg_db (ws_pg s))" and "healthy (ws_pg s)"
    and "job_of (pg_db (ws_pg s)) k = Some j" and "job_Status j = StatusPending"
    and "Dispatch (we_f64 E) (wi_henv i) (we_registry E) (job_JobType j) (job_Payload j) = Inr r"
    and "pg_jsonb (ws_pg s) r = Some r'"
  shows "snd (process E i s x) = Inr ()"
    and "job_of (pg_db (ws_pg (fst (process E i s x)))) k =
      Some (set_updated_at (pg_now (ws_pg s)) (completed r' (pg_now (ws_pg s))
        (set_updated_at (pg_now (ws_pg s)) (claimed (pg_now (ws_pg s)) j))))"
    and "ws_conn (fst (process E i s x)) = ws_conn s"
    and "ws_metrics (fst (process E i s x)) =
      IncProcessed StatusCompleted (ObserveLatency (job_JobType j) (wi_elapsed i) (ws_metrics s))"
proof -
  let ?now = "pg_now (ws_pg s)"
  let ?j = "set_updated_at ?now (claimed ?now j)"
  let ?p = "(ws_pg s)\<lparr>pg_db := put_job ?j (pg_db (ws_pg s))\<rparr>"
  note c = ClaimJob_pending [OF assms(2-5)]
  note row = claimed_row [OF assms(2,4)]
  have f: "job_JobType ?j = job_JobType j" "job_Payload ?j = job_Payload j"
    by (simp_all add: set_updated_at_def claimed_def)
  have m: "MarkCompleted ?p k r = (?p\<lparr>pg_db := set_job ?p k (\<lambda>_. True) (completed r' ?now)\<rparr>, Inr ())"
    using MarkCompleted_healthy [of ?p r r' k] row(1) assms(3,7) by simp
  have p: "process E i s x = (s\<lparr>ws_pg := ?p\<lparr>pg_db := set_job ?p k (\<lambda>_. True) (completed r' ?now)\<rparr>,
      ws_metrics := IncProcessed StatusCompleted (ObserveLatency (job_JobType j) (wi_elapsed i) (ws_metrics s))\<rparr>, Inr ())"
    using assms(1,6) m by (simp add: process_def c f Let_def)
  show "snd (process E i s x) = Inr ()" "ws_conn (fst (process E i s x)) = ws_conn s"
    "ws_metrics (fst (process E i s x)) =
      IncProcessed StatusCompleted (ObserveLatency (job_JobType j) (wi_elapsed i) (ws_metrics s))"
    by (simp_all add: p)
  show "job_of (pg_db (ws_pg (fst (process E i s x)))) k = Some (set_updated_at ?now (completed r' ?now ?j))"
    using row(2) by (simp add: p job_of_set_job)
qed

text \<open>
  A failing attempt on a working database, whatever the queue's network does: below the budget
  the job waits again with one more attempt counted, at the budget it is dead-lettered.
\<close>

lemma process_failure:
  assumes "uuid_Parse (we_U E) x = Some k"
    and "schema_ok (pg_db (ws_pg s))" and "healthy (ws_pg s)"
    and "job_of (pg_db (ws_pg s)) k = Some j" and "job_Status j = StatusPending" and "0 \<le> job_RetryCount j"
    and "Dispatch (we_f64 E) (wi_henv i) (we_registry E) (job_JobType j) (job_Payload j) = Inl e"
    and "pg_text_ok (ws_pg s) (we_Error E e)" and "int4 (job_RetryCount j + 1)"
  defines "now \<equiv> pg_now (ws_pg s)" and "n \<equiv> job_RetryCount j + 1"
  defines "j1 \<equiv> set_updated_at now (claimed now j)"
  defines "p1 \<equiv> (ws_pg s)\<lparr>pg_db := put_job j1 (pg_db (ws_pg s))\<rparr>"
  shows "ws_pg (fst (process E i s x)) =
    p1\<lparr>pg_db := (if n \<ge> job_MaxRetries j then dead_db p1 k n (we_Error E e)
                 else set_job p1 k (\<lambda>_. True) (retried n (we_Error E e)))\<rparr>"
proof -
  note row = claimed_row [OF assms(2,4), folded now_def, folded j1_def]
  have f: "job_JobType j1 = job_JobType j" "job_Payload j1 = job_Payload j" "job_MaxRetries j1 = job_MaxRetries j"
    "job_RetryCount j1 = job_RetryCount j"
    by (simp_all add: j1_def set_updated_at_def claimed_def)
  have p1: "schema_ok (pg_db p1)" "healthy p1" "pg_text_ok p1 (we_Error E e)"
    using row(1) assms(3,8) by (simp_all add: p1_def)
  have w: "wrap64 (job_RetryCount j + 1) = n"
    using row_int4 [OF assms(2,4)] by (simp add: n_def)
  obtain b where b: "backoffFor (word_of_int n) = Some b"
    using backoffFor_attempts [OF assms(6)] row_int4 [OF assms(2,4)] w by auto
  have c: "process E i s x = handleFailure E i
      (s\<lparr>ws_pg := p1, ws_metrics := ObserveLatency (job_JobType j1) (wi_elapsed i) (ws_metrics s)\<rparr>) j1 e"
    using assms(1,7) ClaimJob_pending [OF assms(2-5)]
    by (simp add: process_def f Let_def p1_def flip: now_def j1_def)
  show ?thesis
  proof (cases "n \<ge> job_MaxRetries j")
    case True
    with DeadLetter_healthy [OF p1(1,2) assms(9) p1(3), of k] show ?thesis
      by (simp add: c handleFailure_def f w row(3) n_def Let_def)
  next
    case False
    with MarkForRetry_healthy [OF p1(1,2) assms(9) p1(3), of k] b show ?thesis
      by (simp add: c handleFailure_def f w row(3) n_def Let_def split: prod.split sum.split)
  qed
qed

lemma process_skips:
  assumes "uuid_Parse (we_U E) x = Some k" and "schema_ok (pg_db (ws_pg s))" and "healthy (ws_pg s)"
    and "\<not> claimable k (pg_db (ws_pg s))"
  shows "process E i s x = (s, Inr ())"
  using assms ClaimJob_refused [OF assms(2-4)] by (cases s) (simp add: process_def)

text \<open>\<open>n\<close> passes over the same id.\<close>

fun passes :: "'r wenv \<Rightarrow> string \<Rightarrow> winput list \<Rightarrow> 'r wstate \<Rightarrow> 'r wstate" where
  "passes E x [] s = s"
| "passes E x (i # is) s = passes E x is (fst (process E i s x))"

lemma passes_skip:
  assumes "uuid_Parse (we_U E) x = Some k" and "schema_ok (pg_db (ws_pg s))" and "healthy (ws_pg s)"
    and "\<not> claimable k (pg_db (ws_pg s))"
  shows "passes E x is s = s"
  using assms by (induction "is") (simp_all add: process_skips)

text \<open>The number of attempts a job gets.\<close>

definition budget :: "job \<Rightarrow> int" where
  "budget j = max 1 (job_MaxRetries j)"

definition always_fails :: "'r wenv \<Rightarrow> job \<Rightarrow> winput list \<Rightarrow> bool" where
  "always_fails E j is \<longleftrightarrow> (\<forall>i \<in> set is. isl (Dispatch (we_f64 E) (wi_henv i) (we_registry E) (job_JobType j) (job_Payload j)))"

lemma always_fails_Cons:
  "always_fails E j (i # is) \<longleftrightarrow>
     (\<exists>e. Dispatch (we_f64 E) (wi_henv i) (we_registry E) (job_JobType j) (job_Payload j) = Inl e) \<and> always_fails E j is"
  by (auto simp: always_fails_def isl_def)

text \<open>Where the job is after some failing passes, \<open>M\<close> being its budget.\<close>

definition waiting_after :: "db \<Rightarrow> uuid \<Rightarrow> int \<Rightarrow> bool" where
  "waiting_after d k n \<longleftrightarrow> (\<exists>j. job_of d k = Some j \<and> job_Status j = StatusPending \<and> job_RetryCount j = n)"

definition dead_after :: "db \<Rightarrow> uuid \<Rightarrow> int \<Rightarrow> bool" where
  "dead_after d k n \<longleftrightarrow>
     (\<exists>j r. job_of d k = Some j \<and> job_Status j = StatusFailed \<and> job_RetryCount j = n \<and> dlq_of d k = Some r \<and> dlq_attempts r = n)"

lemma passes_failing:
  assumes U: "uuid_Parse (we_U E) x = Some k"
  shows "schema_ok (pg_db (ws_pg s)) \<Longrightarrow> healthy (ws_pg s) \<Longrightarrow>
    job_of (pg_db (ws_pg s)) k = Some j \<Longrightarrow> job_Status j = StatusPending \<Longrightarrow>
    0 \<le> job_RetryCount j \<Longrightarrow> job_RetryCount j < budget j \<Longrightarrow> always_fails E j is \<Longrightarrow>
    (\<And>e. pg_text_ok (ws_pg s) (we_Error E e)) \<Longrightarrow>
    (if job_RetryCount j + int (length is) < budget j
     then waiting_after (pg_db (ws_pg (passes E x is s))) k (job_RetryCount j + int (length is))
     else dead_after (pg_db (ws_pg (passes E x is s))) k (budget j))"
proof (induction "is" arbitrary: s j)
  case Nil
  then show ?case by (auto simp: waiting_after_def)
next
  case (Cons i "is")
  let ?s = "fst (process E i s x)"
  let ?now = "pg_now (ws_pg s)"
  let ?n = "job_RetryCount j + 1"
  let ?j1 = "set_updated_at ?now (claimed ?now j)"
  let ?p1 = "(ws_pg s)\<lparr>pg_db := put_job ?j1 (pg_db (ws_pg s))\<rparr>"
  from Cons.prems(7) obtain e where
    e: "Dispatch (we_f64 E) (wi_henv i) (we_registry E) (job_JobType j) (job_Payload j) = Inl e"
    and rest: "always_fails E j is"
    by (auto simp: always_fails_Cons)
  have n: "int4 ?n"
    using row_int4 [OF Cons.prems(1,3)] Cons.prems(5,6) by (auto simp: budget_def int4_def)
  note ps = process_failure [OF U Cons.prems(1-5) e Cons.prems(8) n]
  note row = claimed_row [OF Cons.prems(1,3)]
  show ?case
  proof (cases "?n \<ge> job_MaxRetries j")
    case True
    then have b: "budget j = ?n" using Cons.prems(5,6) by (auto simp: budget_def)
    from True ps have s: "ws_pg ?s = ?p1\<lparr>pg_db := dead_db ?p1 k ?n (we_Error E e)\<rparr>" by simp
    have d: "dead_after (pg_db (ws_pg ?s)) k ?n"
      using row(2) by (auto simp: dead_after_def s job_of_dead_db dlq_of_dead_db split: option.split)
    then have "\<not> claimable k (pg_db (ws_pg ?s))" by (auto simp: dead_after_def claimable_def)
    moreover have "schema_ok (pg_db (ws_pg ?s))" "healthy (ws_pg ?s)"
      using s row(1) n Cons.prems(2) by (simp_all add: schema_dead_db)
    ultimately have "passes E x is ?s = ?s" by (intro passes_skip [OF U])
    with b d show ?thesis by simp
  next
    case False
    from False ps have s: "ws_pg ?s = ?p1\<lparr>pg_db := set_job ?p1 k (\<lambda>_. True) (retried ?n (we_Error E e))\<rparr>" by simp
    let ?j2 = "set_updated_at ?now (retried ?n (we_Error E e) ?j1)"
    have j2: "job_of (pg_db (ws_pg ?s)) k = Some ?j2"
      using row(2) by (simp add: s job_of_set_job)
    have f: "job_Status ?j2 = StatusPending" "job_RetryCount ?j2 = ?n" "budget ?j2 = budget j"
      "job_JobType ?j2 = job_JobType j" "job_Payload ?j2 = job_Payload j"
      by (simp_all add: budget_def set_clauses set_updated_at_def)
    have sc: "schema_ok (pg_db (ws_pg ?s))"
      unfolding s using row(1) n by (simp, intro schema_set_job) auto
    have "always_fails E ?j2 is" using rest f by (simp add: always_fails_def)
    note IH = Cons.IH [OF sc _ j2 f(1) _ _ this, unfolded f(2,3)]
    have "?n < budget j" using False by (auto simp: budget_def)
    with IH Cons.prems(2,5,8) show ?thesis by (simp add: s add.assoc split: if_splits)
  qed
qed

subsection \<open>The poller\<close>

lemma filter_sorted_prefix:
  assumes "sorted (map snd xs)"
  shows "filter (\<lambda>e. snd e \<le> T) xs = take (length (filter (\<lambda>e. snd e \<le> T) xs)) xs"
  using assms
proof (induction xs)
  case Nil
  then show ?case by simp
next
  case (Cons x xs)
  show ?case
  proof (cases "snd x \<le> T")
    case True
    with Cons show ?thesis by simp
  next
    case False
    with Cons.prems have "\<forall>e \<in> set xs. \<not> snd e \<le> T" by auto
    with False show ?thesis by (simp add: filter_False)
  qed
qed

lemma filter_drop_sorted:
  assumes "sorted (map snd xs)"
  shows "filter (\<lambda>e. snd e \<le> T) (drop m xs) = drop m (filter (\<lambda>e. snd e \<le> T) xs)"
  using assms
proof (induction xs arbitrary: m)
  case Nil
  then show ?case by simp
next
  case (Cons x xs)
  have "\<not> snd x \<le> T \<Longrightarrow> filter (\<lambda>e. snd e \<le> T) xs = []"
    using Cons.prems by (auto simp: filter_empty_conv)
  with Cons show ?case by (cases m) auto
qed

lemma filter_not_take:
  assumes "distinct (map fst xs)"
  shows "filter (\<lambda>e. fst e \<notin> fst ` set (take m xs)) xs = drop m xs"
proof -
  have "set (map fst (take m xs)) \<inter> set (map fst (drop m xs)) = {}"
    using assms by (metis append_take_drop_id distinct_append map_append)
  then have d: "\<forall>e \<in> set (drop m xs). fst e \<notin> fst ` set (take m xs)"
    by (force simp: image_iff)
  have "filter (\<lambda>e. fst e \<notin> fst ` set (take m xs)) (take m xs @ drop m xs) = drop m xs"
    using d by (simp only: filter_append) (simp add: filter_False filter_True)
  then show ?thesis by simp
qed

text \<open>The entries of the delayed set that are due at a time.\<close>

definition due_at :: "'r redis \<Rightarrow> 'r rconn \<Rightarrow> string \<Rightarrow> time \<Rightarrow> (string \<times> int) list" where
  "due_at R c q T = filter (\<lambda>e. snd e \<le> Unix T) (delayed R c q)"

lemma promote_prefix:
  assumes "sorted (map snd xs)" and "distinct (map fst xs)" and "T \<le> (N::int)" and "0 \<le> limit"
  shows "filter (\<lambda>e. snd e \<le> T) (filter (\<lambda>e. fst e \<notin> fst ` set (limit_of limit (filter (\<lambda>e. snd e \<le> N) xs))) xs) =
    drop (nat limit) (filter (\<lambda>e. snd e \<le> T) xs)"
proof -
  let ?a = "length (filter (\<lambda>e. snd e \<le> T) xs)" and ?b = "length (filter (\<lambda>e. snd e \<le> N) xs)"
  let ?m = "min (nat limit) ?b"
  have "filter (\<lambda>e. snd e \<le> T) xs = filter (\<lambda>e. snd e \<le> T) (filter (\<lambda>e. snd e \<le> N) xs)"
    using assms(3) by (auto simp: conj_commute intro!: filter_cong)
  then have ab: "?a \<le> ?b" by (metis length_filter_le)
  have T: "filter (\<lambda>e. snd e \<le> T) xs = take ?a xs" and N: "filter (\<lambda>e. snd e \<le> N) xs = take ?b xs"
    using filter_sorted_prefix [OF assms(1)] by blast+
  have lim: "limit_of limit (filter (\<lambda>e. snd e \<le> N) xs) = take ?m xs"
    using assms(4) by (subst N) (simp add: limit_of_def)
  have "filter (\<lambda>e. snd e \<le> T) (drop ?m xs) = drop ?m (filter (\<lambda>e. snd e \<le> T) xs)"
    by (rule filter_drop_sorted [OF assms(1)])
  also have "\<dots> = drop (nat limit) (filter (\<lambda>e. snd e \<le> T) xs)"
    using ab by (cases "nat limit \<le> ?b") (simp_all add: min_def)
  finally show ?thesis by (simp add: lim filter_not_take [OF assms(2)])
qed

context redis_server
begin

lemma PromoteDue_due:
  assumes "r_net c = []" and "T \<le> now" and "0 \<le> limit"
  shows "due_at R (fst (PromoteDue R c q now limit)) q' T =
    (if q' = q then drop (nat limit) (due_at R c q T) else due_at R c q' T)"
proof -
  have "Unix T \<le> Unix now" using assms(2) by (simp add: Unix_def second_def zdiv_mono1)
  moreover have "sorted (map snd (delayed R c q))" by (simp add: delayed_def zrange_order)
  ultimately show ?thesis
    using promote_prefix [OF _ delayed_members _ assms(3)] assms(1)
    by (simp add: due_at_def PromoteDue_effect due_entries_def)
qed

lemma PromoteDue_net: "r_net c = [] \<Longrightarrow> r_net (fst (PromoteDue R c q now limit)) = []"
  by (simp add: PromoteDue_def redis_do_healthy)

lemma poll_queues_due:
  assumes "r_net c = []" and "T \<le> now"
  shows "r_net (fst (poll_queues R x now names c)) = [] \<and> snd (poll_queues R x now names c) \<and>
    due_at R (fst (poll_queues R x now names c)) q T = drop (100 * count_list names q) (due_at R c q T)"
  using assms(1)
proof (induction names arbitrary: c)
  case Nil
  then show ?case by simp
next
  case (Cons n names)
  obtain c' moved where p: "PromoteDue R c n now promoteBatch = (c', Inr moved)"
    using PromoteDue_effect(1) [OF Cons.prems] by (metis prod.collapse)
  have "r_net c' = []" using PromoteDue_net [OF Cons.prems] p by (metis fst_conv)
  moreover have "due_at R c' q T = (if q = n then drop 100 (due_at R c n T) else due_at R c q T)"
    using PromoteDue_due [OF Cons.prems assms(2), of promoteBatch n q] p by (simp add: promoteBatch_def)
  ultimately show ?case using Cons.IH [of c'] p by (simp add: add.commute)
qed

text \<open>Entries due at \<open>T\<close> leave the delayed set a hundred at a time, so enough ticks empty it.\<close>

lemma poll_due:
  assumes "r_net c = []" and "\<forall>t \<in> set ticks. T \<le> fst t"
  shows "due_at R (poll R queues ticks c) q T = drop (100 * count_list queues q * length ticks) (due_at R c q T)"
  using assms
proof (induction ticks arbitrary: c)
  case Nil
  then show ?case by simp
next
  case (Cons t ticks)
  obtain now x where t: "t = (now, x)" by force
  from Cons.prems t poll_queues_due [of c T now x queues q]
  have "r_net (fst (poll_queues R x now queues c)) = []" "snd (poll_queues R x now queues c)"
    "due_at R (fst (poll_queues R x now queues c)) q T = drop (100 * count_list queues q) (due_at R c q T)"
    by auto
  with Cons.IH [of "fst (poll_queues R x now queues c)"] Cons.prems(2) t show ?case
    by (auto simp: add.commute split: prod.splits bool.splits)
qed

lemma poll_queues_conserves:
  "mset (queued R (fst (poll_queues R x now names c)) q) + mset (map fst (delayed R (fst (poll_queues R x now names c)) q))
   = mset (queued R c q) + mset (map fst (delayed R c q))"
proof (induction names arbitrary: c)
  case Nil
  then show ?case by simp
next
  case (Cons n names)
  then show ?case
    using PromoteDue_conserves [of c n now promoteBatch q] by (auto split: prod.split sum.split)
qed

lemma poll_conserves:
  "mset (queued R (poll R queues ticks c) q) + mset (map fst (delayed R (poll R queues ticks c) q))
   = mset (queued R c q) + mset (map fst (delayed R c q))"
proof (induction ticks arbitrary: c)
  case Nil
  then show ?case by simp
next
  case (Cons t ticks)
  then show ?case
    using poll_queues_conserves [of "snd t" "fst t" queues c q]
    by (cases t) (auto split: prod.split bool.split)
qed

subsection \<open>Heartbeats\<close>

text \<open>A beat whose request reaches the server renews the key, even when the reply is lost.\<close>

lemma beat_expiry:
  "expires R (r_srv (beat R w b c)) =
     (if fst (next_fault (snd b)) = Lost_request then expires R (r_srv c)
      else (expires R (r_srv c))(workerKeyPrefix @ w \<mapsto> fst b + WorkerTTL))"
  by (auto simp: beat_def Heartbeat_def redis_do_def Let_def redis_laws split: prod.splits fault.splits)

lemma beats_expiry:
  "expires R (r_srv (beats R w bs c)) (workerKeyPrefix @ w) =
     (let as = filter (\<lambda>b. fst (next_fault (snd b)) \<noteq> Lost_request) bs in
      if as = [] then expires R (r_srv c) (workerKeyPrefix @ w) else Some (fst (last as) + WorkerTTL))"
proof (induction bs arbitrary: c)
  case Nil
  then show ?case by simp
next
  case (Cons b bs)
  then show ?case by (simp add: beat_expiry Let_def)
qed

lemma beats_others: "k \<noteq> workerKeyPrefix @ w \<Longrightarrow> expires R (r_srv (beats R w bs c)) k = expires R (r_srv c) k"
  by (induction bs arbitrary: c) (simp_all add: beat_expiry)

lemma heartbeat_expiry:
  "expires R (r_srv (heartbeat R w b bs e c)) =
     (if fst (next_fault (snd e)) = Lost_request then expires R (r_srv (beats R w (b # bs) c))
      else (expires R (r_srv (beats R w (b # bs) c)))(workerKeyPrefix @ w := None))"
  by (auto simp: heartbeat_def RemoveWorker_def redis_do_def Let_def redis_laws split: prod.splits fault.splits)

lemma heartbeat_gone:
  "fst (next_fault (snd e)) \<noteq> Lost_request \<Longrightarrow>
   expires R (r_srv (heartbeat R w b bs e c)) (workerKeyPrefix @ w) = None"
  by (auto simp: heartbeat_def RemoveWorker_def redis_do_def Let_def redis_laws split: prod.splits fault.splits)

end

end
