(* ===== verification/StoreSchedules.thy ===== *)
theory StoreSchedules
  imports StoreInv
begin

section \<open>Schedules in the store\<close>

text \<open>
  \<^verbatim>\<open>src/internal/store/schedules.go\<close>: the query for due schedules and the compare-and-swap on
  \<open>next_run_at\<close>, with its instance of the contract \<open>compare_and_swap\<close>.
\<close>

definition due_stmt :: "time \<Rightarrow> job_schedule list stmt" where
  "due_stmt now p =
     Inr (pg_db p, sort_key sched_NextRunAt
       (filter (\<lambda>sc. sched_Enabled sc \<and> sched_NextRunAt sc \<le> now) (job_schedules (pg_db p))))"

definition DueSchedules :: "pg \<Rightarrow> time \<Rightarrow> pg \<times> (store_err + job_schedule list)" where
  "DueSchedules p now =
     (case exec (due_stmt now) p of
        (p', Inl e) \<Rightarrow> (p', Inl (Wrapped ''query due schedules'' e))
      | (p', Inr out) \<Rightarrow> (p', Inr out))"

text \<open>The statement returns \<open>RowsAffected\<close>.\<close>

definition run_stmt :: "uuid \<Rightarrow> time \<Rightarrow> time \<Rightarrow> time \<Rightarrow> int stmt" where
  "run_stmt k expected lastRunAt nextRunAt p =
     (let w = (\<lambda>sc. sched_ID sc = k \<and> sched_Enabled sc \<and> sched_NextRunAt sc = expected);
          f = (\<lambda>sc. sc\<lparr>sched_LastRunAt := Some lastRunAt, sched_NextRunAt := nextRunAt\<rparr>);
          rows = job_schedules (pg_db p)
      in Inr ((pg_db p)\<lparr>job_schedules := sql_update w f rows\<rparr>, int (length (filter w rows))))"

definition ClaimScheduleRun :: "pg \<Rightarrow> uuid \<Rightarrow> time \<Rightarrow> time \<Rightarrow> time \<Rightarrow> pg \<times> (store_err + bool)" where
  "ClaimScheduleRun p k expectedNextRunAt lastRunAt nextRunAt =
     (case exec (run_stmt k expectedNextRunAt lastRunAt nextRunAt) p of
        (p', Inl e) \<Rightarrow> (p', Inl (Wrapped ''claim schedule run'' e))
      | (p', Inr n) \<Rightarrow> (p', Inr (n = 1)))"

subsection \<open>Effects\<close>

definition runnable :: "uuid \<Rightarrow> time \<Rightarrow> db \<Rightarrow> bool" where
  "runnable k e d =
     (case sched_of d k of None \<Rightarrow> False | Some sc \<Rightarrow> sched_Enabled sc \<and> sched_NextRunAt sc = e)"

definition advance :: "uuid \<Rightarrow> time \<Rightarrow> time \<Rightarrow> time \<Rightarrow> db \<Rightarrow> db" where
  "advance k e now nxt d =
     d\<lparr>job_schedules := sql_update (\<lambda>sc. sched_ID sc = k \<and> sched_Enabled sc \<and> sched_NextRunAt sc = e)
        (\<lambda>sc. sc\<lparr>sched_LastRunAt := Some now, sched_NextRunAt := nxt\<rparr>) (job_schedules d)\<rparr>"

lemma run_stmt_eq:
  assumes "schema_ok (pg_db p)"
  shows "run_stmt k e now nxt p =
    Inr (advance k e now nxt (pg_db p), if runnable k e (pg_db p) then 1 else 0)"
  using filter_by_key [OF schema_distinct(3) [OF assms], of k "\<lambda>sc. sched_Enabled sc \<and> sched_NextRunAt sc = e"]
  by (auto simp: run_stmt_def advance_def runnable_def Let_def split: option.splits)

lemma sched_of_advance:
  "sched_of (advance k e now nxt d) k' =
     map_option (\<lambda>sc. if sched_ID sc = k \<and> sched_Enabled sc \<and> sched_NextRunAt sc = e
        then sc\<lparr>sched_LastRunAt := Some now, sched_NextRunAt := nxt\<rparr> else sc) (sched_of d k')"
  by (simp add: advance_def row_by_update)

lemma advance_frame [simp]:
  "jobs (advance k e now nxt d) = jobs d" "dead_letter_queue (advance k e now nxt d) = dead_letter_queue d"
  "tenants (advance k e now nxt d) = tenants d"
  by (simp_all add: advance_def)

lemma advance_schema:
  assumes "schema_ok d"
  shows "schema_ok (advance k e now nxt d)"
proof -
  have t: "map sched_TenantID (job_schedules (advance k e now nxt d)) = map sched_TenantID (job_schedules d)"
    and i: "map sched_ID (job_schedules (advance k e now nxt d)) = map sched_ID (job_schedules d)"
    by (simp_all add: advance_def map_key_update)
  from arg_cong [OF t, of set]
  have "sched_TenantID ` set (job_schedules (advance k e now nxt d)) = sched_TenantID ` set (job_schedules d)"
    by simp
  with i assms show ?thesis unfolding schema_ok_def by simp
qed

lemma runnable_advance: "nxt \<noteq> e \<Longrightarrow> \<not> runnable k e (advance k e now nxt d)"
  by (auto simp: runnable_def sched_of_advance split: option.splits dest!: row_by_SomeD)

lemma advance_unrunnable:
  assumes "schema_ok d" and "\<not> runnable k e d"
  shows "advance k e now nxt d = d"
proof -
  have "\<not> (sched_ID sc = k \<and> sched_Enabled sc \<and> sched_NextRunAt sc = e)" if "sc \<in> set (job_schedules d)" for sc
    using assms that row_by_Some_iff [OF schema_distinct(3) [OF assms(1)], of k sc]
    by (auto simp: runnable_def split: option.splits)
  then show ?thesis by (simp add: advance_def update_id)
qed

lemma ClaimScheduleRun_result:
  assumes "schema_ok (pg_db p)"
  shows "ClaimScheduleRun p k e now nxt =
    (let (f, fs) = next_fault (pg_net p) in
     (p\<lparr>pg_net := fs, pg_db := (if f = Lost_request then pg_db p else advance k e now nxt (pg_db p))\<rparr>,
      if f = Delivered then Inr (runnable k e (pg_db p)) else Inl (Wrapped ''claim schedule run'' Conn_error)))"
  using assms by (auto simp: ClaimScheduleRun_def exec_result run_stmt_eq split: prod.splits)

lemma DueSchedules_result:
  "DueSchedules p now =
    (let (f, fs) = next_fault (pg_net p) in
     (p\<lparr>pg_net := fs\<rparr>,
      if f = Delivered then Inr (sort_key sched_NextRunAt
         (filter (\<lambda>sc. sched_Enabled sc \<and> sched_NextRunAt sc \<le> now) (job_schedules (pg_db p))))
      else Inl (Wrapped ''query due schedules'' Conn_error)))"
  by (cases p) (auto simp: DueSchedules_def exec_result due_stmt_def split: prod.splits)

subsection \<open>Competing schedulers\<close>

text \<open>Each scheduler brings its own \<open>now\<close>, the next run it computed and its network.\<close>

definition run_attempt :: "uuid \<Rightarrow> time \<Rightarrow> time \<times> time \<times> fault list \<Rightarrow> pg \<Rightarrow> pg \<times> bool" where
  "run_attempt k e a p =
     (case a of (now, nxt, net) \<Rightarrow>
        (case ClaimScheduleRun (p\<lparr>pg_net := net\<rparr>) k e now nxt of
           (p', r) \<Rightarrow> (p', r = Inr True)))"

lemma run_attempt_eq:
  assumes "schema_ok (pg_db p)"
  shows "run_attempt k e (now, nxt, net) p =
    (case next_fault net of (f, fs) \<Rightarrow>
       (p\<lparr>pg_net := fs, pg_db := (if f = Lost_request then pg_db p else advance k e now nxt (pg_db p))\<rparr>,
        f = Delivered \<and> runnable k e (pg_db p)))"
  using assms by (auto simp: run_attempt_def ClaimScheduleRun_result split: prod.splits)

interpretation schedule_claim: compare_and_swap "run_attempt k e" "\<lambda>p. schema_ok (pg_db p)"
  "\<lambda>p. runnable k e (pg_db p)" "\<lambda>a. fst (snd a) \<noteq> e" "\<lambda>a. fst (next_fault (snd (snd a))) = Delivered"
proof (unfold_locales, goal_cases)
  case (1 s a)
  then show ?case by (cases a) (auto simp: run_attempt_eq advance_schema split: prod.split)
next
  case (2 s a)
  then show ?case by (cases a) (auto simp: run_attempt_eq runnable_advance split: prod.splits)
next
  case (3 s a)
  then show ?case by (cases a) (auto simp: run_attempt_eq runnable_advance split: prod.splits)
next
  case (4 s a)
  then show ?case by (cases a) (auto simp: run_attempt_eq split: prod.splits)
qed

end
