(* ===== verification/Scheduler.thy ===== *)
theory Scheduler
  imports Enqueuer StoreSchedules
begin

section \<open>The scheduler\<close>

text \<open>
  \<^verbatim>\<open>src/cmd/scheduler/main.go\<close>. The package \<^verbatim>\<open>github.com/robfig/cron/v3\<close> is the parameter \<open>cron\<close>:
  \<open>ParseStandard\<close> gives \<open>None\<close> for a malformed expression and otherwise the schedule's \<open>Next\<close>.
  \<open>Next now\<close> is documented as the next activation after \<open>now\<close>, or the zero time when there is none
  (30 February): \<open>fires_later\<close> says of one expression and one clock which of the two it is.
  \<open>fresh\<close> is what \<open>uuid.New\<close> returns. The outcome of a fire is what the function logs.
\<close>

type_synonym cron_pkg = "string \<Rightarrow> (time \<Rightarrow> time) option"

datatype fire_outcome =
    Invalid_cron
  | Claim_failed store_err
  | Not_won
  | Enqueue_failed submit_err
  | Fired job

definition scheduled_job :: "job_schedule \<Rightarrow> job" where
  "scheduled_job sc = zero_job\<lparr>job_TenantID := sched_TenantID sc, job_JobType := sched_JobType sc,
     job_Payload := sched_Payload sc, job_MaxRetries := DefaultMaxRetries\<rparr>"

definition fireSchedule ::
  "'r redis \<Rightarrow> uuid_pkg \<Rightarrow> cron_pkg \<Rightarrow> uuid \<Rightarrow> time \<Rightarrow> job_schedule \<Rightarrow> pg \<Rightarrow> 'r rconn \<Rightarrow> pg \<times> 'r rconn \<times> fire_outcome" where
  "fireSchedule R U cron fresh now sc p c =
     (case cron (sched_CronExpression sc) of
        None \<Rightarrow> (p, c, Invalid_cron)
      | Some schedule_Next \<Rightarrow>
          (let nextRunAt = schedule_Next now in
           case ClaimScheduleRun p (sched_ID sc) (sched_NextRunAt sc) now nextRunAt of
             (p', Inl e) \<Rightarrow> (p', c, Claim_failed e)
           | (p', Inr won) \<Rightarrow>
               if \<not> won then (p', c, Not_won)
               else
                 (case Submit R U fresh p' c (scheduled_job sc) of
                    (p'', c', job, Inl e) \<Rightarrow> (p'', c', Enqueue_failed e)
                  | (p'', c', job, Inr _) \<Rightarrow> (p'', c', Fired job))))"

text \<open>
  The loop of \<open>handleSchedules\<close>: \<open>ended i\<close> says the context was cancelled before the \<open>i\<close>-th
  schedule, \<open>fresh i\<close> is the id for its job.
\<close>

fun fire_all ::
  "'r redis \<Rightarrow> uuid_pkg \<Rightarrow> cron_pkg \<Rightarrow> (nat \<Rightarrow> bool) \<Rightarrow> (nat \<Rightarrow> uuid) \<Rightarrow> time \<Rightarrow> nat \<Rightarrow> job_schedule list \<Rightarrow>
   pg \<Rightarrow> 'r rconn \<Rightarrow> pg \<times> 'r rconn \<times> fire_outcome list" where
  "fire_all R U cron ended fresh now i [] p c = (p, c, [])"
| "fire_all R U cron ended fresh now i (sc # due) p c =
     (if ended i then (p, c, [])
      else
        (case fireSchedule R U cron (fresh i) now sc p c of
           (p', c', r) \<Rightarrow>
             (case fire_all R U cron ended fresh now (Suc i) due p' c' of
                (p'', c'', rs) \<Rightarrow> (p'', c'', r # rs))))"

definition handleSchedules ::
  "'r redis \<Rightarrow> uuid_pkg \<Rightarrow> cron_pkg \<Rightarrow> (nat \<Rightarrow> bool) \<Rightarrow> (nat \<Rightarrow> uuid) \<Rightarrow> time \<Rightarrow>
   pg \<Rightarrow> 'r rconn \<Rightarrow> pg \<times> 'r rconn \<times> fire_outcome list" where
  "handleSchedules R U cron ended fresh now p c =
     (case DueSchedules p now of
        (p', Inl e) \<Rightarrow> (p', c, [])
      | (p', Inr due) \<Rightarrow> fire_all R U cron ended fresh now 0 due p' c)"

definition fires_later :: "cron_pkg \<Rightarrow> string \<Rightarrow> time \<Rightarrow> bool" where
  "fires_later cron expr now = (case cron expr of None \<Rightarrow> False | Some nxt \<Rightarrow> now < nxt now)"

subsection \<open>What a fire changes\<close>

definition claimed_run :: "fire_outcome \<Rightarrow> bool" where
  "claimed_run r = (case r of Fired j \<Rightarrow> True | Enqueue_failed e \<Rightarrow> True | _ \<Rightarrow> False)"

lemma Submit_schedules:
  assumes "Submit R U fresh p c job = (p', c', job', r)" and "schema_ok (pg_db p)"
  shows "job_schedules (pg_db p') = job_schedules (pg_db p)" and "schema_ok (pg_db p')"
  using Submit_db [OF assms(1)] assms(2) schema_insert [OF assms(2)] by auto

lemma fireSchedule_schedules:
  assumes "fireSchedule R U cron fresh now sc p c = (p', c', r)" and "schema_ok (pg_db p)"
    and "cron (sched_CronExpression sc) = Some nxt"
  defines "a \<equiv> advance (sched_ID sc) (sched_NextRunAt sc) now (nxt now)"
  shows "schema_ok (pg_db p')" and "job_schedules (pg_db p') \<in> {job_schedules (pg_db p), job_schedules (a (pg_db p))}"
    and "claimed_run r \<longleftrightarrow> fst (next_fault (pg_net p)) = Delivered \<and> runnable (sched_ID sc) (sched_NextRunAt sc) (pg_db p)"
    and "fst (next_fault (pg_net p)) = Delivered \<Longrightarrow> job_schedules (pg_db p') = job_schedules (a (pg_db p))"
proof -
  obtain f fs where f: "next_fault (pg_net p) = (f, fs)" by force
  define p1 where "p1 = p\<lparr>pg_net := fs, pg_db := (if f = Lost_request then pg_db p else a (pg_db p))\<rparr>"
  have cl: "ClaimScheduleRun p (sched_ID sc) (sched_NextRunAt sc) now (nxt now) =
      (p1, if f = Delivered then Inr (runnable (sched_ID sc) (sched_NextRunAt sc) (pg_db p))
           else Inl (Wrapped ''claim schedule run'' Conn_error))"
    using ClaimScheduleRun_result [OF assms(2)] f by (simp add: p1_def a_def)
  have p1: "schema_ok (pg_db p1)" "job_schedules (pg_db p1) \<in> {job_schedules (pg_db p), job_schedules (a (pg_db p))}"
    "f = Delivered \<Longrightarrow> job_schedules (pg_db p1) = job_schedules (a (pg_db p))"
    using assms(2) by (auto simp: p1_def a_def advance_schema)
  have run: "r \<noteq> Invalid_cron \<and> (claimed_run r \<longleftrightarrow> f = Delivered \<and> runnable (sched_ID sc) (sched_NextRunAt sc) (pg_db p)) \<and>
      (p' = p1 \<or> (\<exists>job' r'. Submit R U fresh p1 c (scheduled_job sc) = (p', c', job', r')))"
    using assms(1,3) by (auto simp: fireSchedule_def cl claimed_run_def Let_def split: if_splits prod.splits sum.splits)
  have "job_schedules (pg_db p') = job_schedules (pg_db p1) \<and> schema_ok (pg_db p')"
    using run p1(1) Submit_schedules by metis
  with p1 run f show "schema_ok (pg_db p')"
    "job_schedules (pg_db p') \<in> {job_schedules (pg_db p), job_schedules (a (pg_db p))}"
    "claimed_run r \<longleftrightarrow> fst (next_fault (pg_net p)) = Delivered \<and> runnable (sched_ID sc) (sched_NextRunAt sc) (pg_db p)"
    "fst (next_fault (pg_net p)) = Delivered \<Longrightarrow> job_schedules (pg_db p') = job_schedules (a (pg_db p))"
    by auto
qed

lemma runnable_schedules: "job_schedules d' = job_schedules d \<Longrightarrow> runnable k e d' = runnable k e d"
  by (simp add: runnable_def)

subsection \<open>Several schedulers, one run\<close>

text \<open>One attempt per scheduler: its clock, its id for the job and its networks.\<close>

definition fire_attempt ::
  "'r redis \<Rightarrow> uuid_pkg \<Rightarrow> cron_pkg \<Rightarrow> job_schedule \<Rightarrow> time \<times> uuid \<times> fault list \<times> fault list \<Rightarrow>
   pg \<times> 'r rconn \<Rightarrow> (pg \<times> 'r rconn) \<times> bool" where
  "fire_attempt R U cron sc a s =
     (case a of (now, fresh, pnet, rnet) \<Rightarrow>
        (case fireSchedule R U cron fresh now sc ((fst s)\<lparr>pg_net := pnet\<rparr>) ((snd s)\<lparr>r_net := rnet\<rparr>) of
           (p', c', r) \<Rightarrow> ((p', c'), claimed_run r)))"

lemma fire_attempt_core:
  fixes R :: "'r redis" and U :: uuid_pkg
  assumes ok: "schema_ok (pg_db (fst s))"
    and fair: "\<forall>nxt. cron (sched_CronExpression sc) = Some nxt \<longrightarrow> nxt (fst a) \<noteq> sched_NextRunAt sc"
  defines "g \<equiv> \<lambda>s. runnable (sched_ID sc) (sched_NextRunAt sc) (pg_db (fst s))"
    and "s' \<equiv> fst (fire_attempt R U cron sc a s)"
  shows "schema_ok (pg_db (fst s'))"
    and "snd (fire_attempt R U cron sc a s) \<Longrightarrow> g s \<and> \<not> g s'" and "\<not> g s \<Longrightarrow> \<not> g s'"
    and "cron (sched_CronExpression sc) \<noteq> None \<Longrightarrow> fst (next_fault (fst (snd (snd a)))) = Delivered \<Longrightarrow> g s \<Longrightarrow>
      snd (fire_attempt R U cron sc a s)"
proof -
  obtain now fresh pnet rnet where a: "a = (now, fresh, pnet, rnet)" by (metis prod.collapse)
  obtain p' c' r where fs: "fireSchedule R U cron fresh now sc ((fst s)\<lparr>pg_net := pnet\<rparr>) ((snd s)\<lparr>r_net := rnet\<rparr>) = (p', c', r)"
    and at: "fire_attempt R U cron sc a s = ((p', c'), claimed_run r)"
    using a by (cases "fireSchedule R U cron fresh now sc ((fst s)\<lparr>pg_net := pnet\<rparr>) ((snd s)\<lparr>r_net := rnet\<rparr>)")
      (auto simp: fire_attempt_def)
  have "schema_ok (pg_db (fst s')) \<and> (snd (fire_attempt R U cron sc a s) \<longrightarrow> g s \<and> \<not> g s') \<and> (\<not> g s \<longrightarrow> \<not> g s') \<and>
     (cron (sched_CronExpression sc) \<noteq> None \<longrightarrow> fst (next_fault (fst (snd (snd a)))) = Delivered \<longrightarrow> g s \<longrightarrow>
      snd (fire_attempt R U cron sc a s))"
  proof (cases "cron (sched_CronExpression sc)")
    case None
    with fs at ok show ?thesis by (auto simp: fireSchedule_def claimed_run_def s'_def g_def)
  next
    case (Some nxt)
    note sch = fireSchedule_schedules [OF fs _ Some, simplified, OF ok]
    let ?run = "runnable (sched_ID sc) (sched_NextRunAt sc)"
    let ?d = "advance (sched_ID sc) (sched_NextRunAt sc) now (nxt now) (pg_db (fst s))"
    have adv: "\<not> ?run ?d"
      using fair Some a by (intro runnable_advance) auto
    have kept: "?run (pg_db p') \<longrightarrow> ?run (pg_db (fst s))"
      using sch(2) adv runnable_schedules [of "pg_db p'" ?d] runnable_schedules [of "pg_db p'" "pg_db (fst s)"] by blast
    have won: "claimed_run r \<longleftrightarrow> fst (next_fault pnet) = Delivered \<and> ?run (pg_db (fst s))"
      using sch(3) by simp
    have closed: "fst (next_fault pnet) = Delivered \<Longrightarrow> \<not> ?run (pg_db p')"
      using sch(4) adv runnable_schedules [of "pg_db p'" ?d] by simp
    have s': "s' = (p', c')" "snd (fire_attempt R U cron sc a s) = claimed_run r"
      using at by (simp_all add: s'_def)
    show ?thesis
      unfolding s' g_def using sch(1) kept won closed a by auto
  qed
  then show "schema_ok (pg_db (fst s'))"
    and "snd (fire_attempt R U cron sc a s) \<Longrightarrow> g s \<and> \<not> g s'" and "\<not> g s \<Longrightarrow> \<not> g s'"
    and "cron (sched_CronExpression sc) \<noteq> None \<Longrightarrow> fst (next_fault (fst (snd (snd a)))) = Delivered \<Longrightarrow> g s \<Longrightarrow>
      snd (fire_attempt R U cron sc a s)"
    by blast+
qed

interpretation fire: compare_and_swap "fire_attempt R U cron sc" "\<lambda>s. schema_ok (pg_db (fst s))"
  "\<lambda>s. runnable (sched_ID sc) (sched_NextRunAt sc) (pg_db (fst s))"
  "\<lambda>a. \<forall>nxt. cron (sched_CronExpression sc) = Some nxt \<longrightarrow> nxt (fst a) \<noteq> sched_NextRunAt sc"
  "\<lambda>a. cron (sched_CronExpression sc) \<noteq> None \<and> fst (next_fault (fst (snd (snd a)))) = Delivered"
  by unfold_locales (use fire_attempt_core [of _ cron sc] in blast)+

subsection \<open>A full pass\<close>

lemma exec_net: "healthy p \<Longrightarrow> healthy (fst (exec s p))"
  by (auto simp: exec_healthy split: sum.split)

lemma fireSchedule_net:
  assumes "fireSchedule R U cron fresh now sc p c = (p', c', r)" and "healthy p"
  shows "healthy p'"
proof -
  have "healthy (fst (ClaimScheduleRun p k e now nxt))" for k e nxt
    using exec_net [OF assms(2), of "run_stmt k e now nxt"]
    by (auto simp: ClaimScheduleRun_def split: prod.splits sum.splits)
  moreover have "healthy q \<Longrightarrow> healthy (fst (Submit R U fresh q c j))" for q j
    using exec_net [of q "insert_job (applyDefaults fresh j)"]
    by (auto simp: Submit_def CreateJob_def Let_def split: prod.splits sum.splits)
  ultimately show ?thesis
    using assms(1,2) by (auto simp: fireSchedule_def Let_def split: option.splits prod.splits sum.splits if_splits)
      (metis fst_conv)+
qed

text \<open>The row of a schedule after its run was claimed.\<close>

definition ran :: "cron_pkg \<Rightarrow> time \<Rightarrow> job_schedule \<Rightarrow> job_schedule" where
  "ran cron now sc = (case cron (sched_CronExpression sc) of
     None \<Rightarrow> sc | Some nxt \<Rightarrow> sc\<lparr>sched_LastRunAt := Some now, sched_NextRunAt := nxt now\<rparr>)"

lemma fireSchedule_row:
  assumes "fireSchedule R U cron fresh now sc p c = (p', c', r)" and "schema_ok (pg_db p)" and "healthy p"
    and "sched_of (pg_db p) (sched_ID sc) = Some sc" and "sched_Enabled sc"
  shows "sched_of (pg_db p') k = (if k = sched_ID sc then Some (ran cron now sc) else sched_of (pg_db p) k)"
    and "schema_ok (pg_db p')"
proof -
  have "sched_of (pg_db p') k = (if k = sched_ID sc then Some (ran cron now sc) else sched_of (pg_db p) k) \<and> schema_ok (pg_db p')"
  proof (cases "cron (sched_CronExpression sc)")
    case None
    with assms show ?thesis by (auto simp: fireSchedule_def ran_def)
  next
    case (Some nxt)
    note f = fireSchedule_schedules [OF assms(1,2) Some]
    have "sched_of (pg_db p') k = sched_of (advance (sched_ID sc) (sched_NextRunAt sc) now (nxt now) (pg_db p)) k"
      using f(4) assms(3) by simp
    also have "\<dots> = (if k = sched_ID sc then Some (ran cron now sc) else sched_of (pg_db p) k)"
    proof (cases "sched_of (pg_db p) k")
      case None
      with assms(4) show ?thesis by (auto simp: sched_of_advance)
    next
      case (Some x)
      have "sched_ID x = k" using row_by_SomeD [OF Some] by simp
      show ?thesis
      proof (cases "k = sched_ID sc")
        case True
        then show ?thesis
          using assms(5) \<open>cron (sched_CronExpression sc) = Some nxt\<close> by (simp add: sched_of_advance assms(4) ran_def)
      next
        case False
        then show ?thesis using Some \<open>sched_ID x = k\<close> by (simp add: sched_of_advance)
      qed
    qed
    finally show ?thesis using f(1) by blast
  qed
  then show "sched_of (pg_db p') k = (if k = sched_ID sc then Some (ran cron now sc) else sched_of (pg_db p) k)"
    and "schema_ok (pg_db p')" by simp_all
qed

lemma fire_all_rows:
  assumes "schema_ok (pg_db p)" and "healthy p" and "distinct (map sched_ID due)"
    and "\<forall>sc \<in> set due. sched_of (pg_db p) (sched_ID sc) = Some sc \<and> sched_Enabled sc"
    and "fire_all R U cron (\<lambda>_. False) fresh now i due p c = (p', c', rs)"
  shows "schema_ok (pg_db p') \<and> sched_of (pg_db p') k =
    (case row_by sched_ID k due of None \<Rightarrow> sched_of (pg_db p) k | Some sc \<Rightarrow> Some (ran cron now sc))"
  using assms
proof (induction due arbitrary: i p c rs)
  case Nil
  then show ?case by simp
next
  case (Cons sc due)
  obtain q d r where f: "fireSchedule R U cron (fresh i) now sc p c = (q, d, r)" by (metis prod.collapse)
  from Cons.prems(5) f obtain rs' where rest: "fire_all R U cron (\<lambda>_. False) fresh now (Suc i) due q d = (p', c', rs')"
    by (auto split: prod.splits)
  have sc: "sched_of (pg_db p) (sched_ID sc) = Some sc" "sched_Enabled sc" using Cons.prems(4) by auto
  note row = fireSchedule_row [OF f Cons.prems(1,2) sc]
  have "healthy q" by (rule fireSchedule_net [OF f Cons.prems(2)])
  moreover have "\<forall>x \<in> set due. sched_of (pg_db q) (sched_ID x) = Some x \<and> sched_Enabled x"
  proof
    fix x
    assume x: "x \<in> set due"
    with Cons.prems(3) have "sched_ID x \<noteq> sched_ID sc" by (metis distinct.simps(2) imageI list.simps(9) list.set_map)
    with x Cons.prems(4) row(1) [of "sched_ID x"] show "sched_of (pg_db q) (sched_ID x) = Some x \<and> sched_Enabled x"
      by (metis list.set_intros(2))
  qed
  ultimately have "schema_ok (pg_db p') \<and> sched_of (pg_db p') k =
    (case row_by sched_ID k due of None \<Rightarrow> sched_of (pg_db q) k | Some sc \<Rightarrow> Some (ran cron now sc))"
    using Cons.IH [OF row(2) _ _ _ rest] Cons.prems(3) by simp
  moreover have "row_by sched_ID (sched_ID sc) due = None" using Cons.prems(3) by (simp add: row_by_None_iff)
  ultimately show ?case using row(1) by (auto split: option.split)
qed

lemma handleSchedules_rows:
  assumes "schema_ok (pg_db p)" and "healthy p"
    and "handleSchedules R U cron (\<lambda>_. False) fresh now p c = (p', c', rs)"
  shows "schema_ok (pg_db p')" and "sched_of (pg_db p') k =
    map_option (\<lambda>sc. if sched_Enabled sc \<and> sched_NextRunAt sc \<le> now then ran cron now sc else sc) (sched_of (pg_db p) k)"
proof -
  define due where "due = sort_key sched_NextRunAt
    (filter (\<lambda>sc. sched_Enabled sc \<and> sched_NextRunAt sc \<le> now) (job_schedules (pg_db p)))"
  have p: "p\<lparr>pg_net := []\<rparr> = p" using assms(2) by (cases p) simp
  have fa: "fire_all R U cron (\<lambda>_. False) fresh now 0 due p c = (p', c', rs)"
    using assms(2,3) p by (simp add: handleSchedules_def DueSchedules_result due_def)
  note ids = schema_distinct(3) [OF assms(1)]
  have "mset (map sched_ID due) = mset (map sched_ID (filter (\<lambda>sc. sched_Enabled sc \<and> sched_NextRunAt sc \<le> now) (job_schedules (pg_db p))))"
    by (simp add: due_def)
  from mset_eq_imp_distinct_iff [OF this] distinct_map_filter [OF ids]
  have d: "distinct (map sched_ID due)" by blast
  have mem: "\<forall>sc \<in> set due. sched_of (pg_db p) (sched_ID sc) = Some sc \<and> sched_Enabled sc"
    by (auto simp: due_def row_by_Some_iff [OF ids])
  note rows = fire_all_rows [OF assms(1,2) d mem fa]
  from rows show "schema_ok (pg_db p')" by blast
  have "row_by sched_ID k due = (case sched_of (pg_db p) k of None \<Rightarrow> None
      | Some sc \<Rightarrow> if sched_Enabled sc \<and> sched_NextRunAt sc \<le> now then Some sc else None)"
  proof (cases "row_by sched_ID k due")
    case None
    then show ?thesis by (auto simp: row_by_None_iff due_def split: option.split dest!: row_by_SomeD)
  next
    case (Some sc)
    then have "sc \<in> set due" "sched_ID sc = k" by (auto dest: row_by_SomeD)
    with mem Some show ?thesis by (auto simp: due_def)
  qed
  with rows show "sched_of (pg_db p') k =
    map_option (\<lambda>sc. if sched_Enabled sc \<and> sched_NextRunAt sc \<le> now then ran cron now sc else sc) (sched_of (pg_db p) k)"
    by (auto split: option.splits)
qed

end
