(* ===== verification/AuthStore.thy ===== *)
theory AuthStore
  imports StoreInv
begin

section \<open>The account store\<close>

text \<open>
  \<^verbatim>\<open>src/internal/store/users.go\<close>, \<^verbatim>\<open>sessions.go\<close>, \<^verbatim>\<open>apikeys.go\<close> and \<^verbatim>\<open>tenants.go\<close>: the statements over the
  tables of migrations 0005 to 0008 with their unique indexes and foreign keys, then one definition per Go
  function. Ids the server generates (\<open>gen_random_uuid()\<close>) are arguments.
\<close>

datatype account_err =
    ErrEmailTaken
  | ErrUserNotFound
  | ErrSessionInvalid
  | ErrAPIKeyNotFound
  | ErrTenantNotFound
  | Store_failed string pgerr \<comment> \<open>\<open>fmt.Errorf("...: %w", err)\<close>, or the bare error with an empty text\<close>

subsection \<open>Statements\<close>

definition insert_tenant :: "uuid \<Rightarrow> string \<Rightarrow> tenant stmt" where
  "insert_tenant gen name p =
     (if \<not> pg_text_ok p name then Inl Encode_error
      else if gen \<in> tenant_ID ` set (tenants (pg_db p)) then Inl Unique_violation
      else let row = \<lparr>tenant_ID = gen, tenant_Name = name, tenant_CreatedAt = pg_now p\<rparr>
           in Inr ((pg_db p)\<lparr>tenants := tenants (pg_db p) @ [row]\<rparr>, row))"

definition insert_user :: "uuid \<Rightarrow> uuid \<Rightarrow> string \<Rightarrow> string \<Rightarrow> user stmt" where
  "insert_user gen t email hash p =
     (if \<not> pg_text_ok p email \<or> \<not> pg_text_ok p hash then Inl Encode_error
      else if gen \<in> user_ID ` set (users (pg_db p)) \<or>
              pg_lower p email \<in> (\<lambda>u. pg_lower p (user_Email u)) ` set (users (pg_db p)) then Inl Unique_violation
      else if t \<notin> tenant_ID ` set (tenants (pg_db p)) then Inl Foreign_key_violation
      else let row = \<lparr>user_ID = gen, user_TenantID = t, user_Email = email, user_PasswordHash = hash, user_CreatedAt = pg_now p\<rparr>
           in Inr ((pg_db p)\<lparr>users := users (pg_db p) @ [row]\<rparr>, row))"

definition select_email :: "string \<Rightarrow> user list stmt" where
  "select_email email p =
     (if \<not> pg_text_ok p email then Inl Encode_error
      else Inr (pg_db p, filter (\<lambda>u. pg_lower p (user_Email u) = pg_lower p email) (users (pg_db p))))"

definition select_user :: "uuid \<Rightarrow> user list stmt" where
  "select_user k p = Inr (pg_db p, filter (\<lambda>u. user_ID u = k) (users (pg_db p)))"

definition insert_session :: "uuid \<Rightarrow> uuid \<Rightarrow> string \<Rightarrow> time \<Rightarrow> unit stmt" where
  "insert_session gen u tokenHash expiresAt p =
     (if \<not> pg_text_ok p tokenHash then Inl Encode_error
      else if gen \<in> sess_id ` set (sessions (pg_db p)) \<or> tokenHash \<in> sess_token_hash ` set (sessions (pg_db p))
        then Inl Unique_violation
      else if u \<notin> user_ID ` set (users (pg_db p)) then Inl Foreign_key_violation
      else Inr ((pg_db p)\<lparr>sessions := sessions (pg_db p) @
             [\<lparr>sess_id = gen, sess_user_id = u, sess_token_hash = tokenHash, sess_created_at = pg_now p,
               sess_expires_at = expiresAt\<rparr>]\<rparr>, ()))"

text \<open>\<open>FROM sessions s JOIN users u ON u.id = s.user_id WHERE s.token_hash = $1 AND s.expires_at > now()\<close>.\<close>

definition session_join :: "string \<Rightarrow> user list stmt" where
  "session_join tokenHash p =
     (if \<not> pg_text_ok p tokenHash then Inl Encode_error
      else Inr (pg_db p, concat (map (\<lambda>s. filter (\<lambda>u. user_ID u = sess_user_id s) (users (pg_db p)))
             (filter (\<lambda>s. sess_token_hash s = tokenHash \<and> sess_expires_at s > pg_now p) (sessions (pg_db p))))))"

definition delete_session :: "string \<Rightarrow> unit stmt" where
  "delete_session tokenHash p =
     (if \<not> pg_text_ok p tokenHash then Inl Encode_error
      else Inr ((pg_db p)\<lparr>sessions := sql_delete (\<lambda>s. sess_token_hash s = tokenHash) (sessions (pg_db p))\<rparr>, ()))"

definition insert_key :: "uuid \<Rightarrow> uuid \<Rightarrow> string \<Rightarrow> string \<Rightarrow> string \<Rightarrow> api_key stmt" where
  "insert_key gen t name keyHash prefix p =
     (if \<not> pg_text_ok p name \<or> \<not> pg_text_ok p keyHash \<or> \<not> pg_text_ok p prefix then Inl Encode_error
      else if gen \<in> key_ID ` set (api_keys (pg_db p)) \<or> keyHash \<in> key_KeyHash ` set (api_keys (pg_db p))
        then Inl Unique_violation
      else if t \<notin> tenant_ID ` set (tenants (pg_db p)) then Inl Foreign_key_violation
      else let row = \<lparr>key_ID = gen, key_TenantID = t, key_Name = name, key_KeyHash = keyHash, key_KeyPrefix = prefix,
                      key_LastUsedAt = None, key_CreatedAt = pg_now p\<rparr>
           in Inr ((pg_db p)\<lparr>api_keys := api_keys (pg_db p) @ [row]\<rparr>, row))"

text \<open>\<open>ListAPIKeys\<close> does not select \<open>key_hash\<close>: the scanned struct has the empty string there.\<close>

definition select_keys :: "uuid \<Rightarrow> api_key list stmt" where
  "select_keys t p =
     Inr (pg_db p, map (\<lambda>k. k\<lparr>key_KeyHash := []\<rparr>)
       (sort_key (\<lambda>k. - key_CreatedAt k) (filter (\<lambda>k. key_TenantID k = t) (api_keys (pg_db p)))))"

definition delete_key :: "uuid \<Rightarrow> uuid \<Rightarrow> nat stmt" where
  "delete_key t k p =
     (let w = (\<lambda>x. key_ID x = k \<and> key_TenantID x = t)
      in Inr ((pg_db p)\<lparr>api_keys := sql_delete w (api_keys (pg_db p))\<rparr>, length (filter w (api_keys (pg_db p)))))"

definition select_key_hash :: "string \<Rightarrow> api_key list stmt" where
  "select_key_hash keyHash p =
     (if \<not> pg_text_ok p keyHash then Inl Encode_error
      else Inr (pg_db p, filter (\<lambda>k. key_KeyHash k = keyHash) (api_keys (pg_db p))))"

definition touch_key :: "uuid \<Rightarrow> unit stmt" where
  "touch_key k p =
     Inr ((pg_db p)\<lparr>api_keys := sql_update (\<lambda>x. key_ID x = k) (\<lambda>x. x\<lparr>key_LastUsedAt := Some (pg_now p)\<rparr>) (api_keys (pg_db p))\<rparr>, ())"

definition select_tenant :: "uuid \<Rightarrow> tenant list stmt" where
  "select_tenant k p = Inr (pg_db p, filter (\<lambda>t. tenant_ID t = k) (tenants (pg_db p)))"

subsection \<open>users.go\<close>

definition isUniqueViolation :: "pgerr \<Rightarrow> bool" where
  "isUniqueViolation e \<longleftrightarrow> e = Unique_violation"

definition CreateAccount :: "pg \<Rightarrow> uuid \<Rightarrow> uuid \<Rightarrow> string \<Rightarrow> string \<Rightarrow> pg \<times> (account_err + tenant \<times> user)" where
  "CreateAccount p gen_tenant gen_user email passwordHash =
     (case tx_begin p of
        (p1, Inl e) \<Rightarrow> (p1, Inl (Store_failed [] e))
      | (p1, Inr w1) \<Rightarrow>
          (case tx_exec (insert_tenant gen_tenant email) w1 p1 of
             (p2, Inl e) \<Rightarrow> (p2, Inl (Store_failed ''create tenant'' e))
           | (p2, Inr (w2, t)) \<Rightarrow>
               (case tx_exec (insert_user gen_user (tenant_ID t) email passwordHash) w2 p2 of
                  (p3, Inl e) \<Rightarrow>
                    if isUniqueViolation e then (p3, Inl ErrEmailTaken)
                    else (p3, Inl (Store_failed ''create user'' e))
                | (p3, Inr (w3, u)) \<Rightarrow>
                    (case tx_commit w3 p3 of
                       (p4, Inl e) \<Rightarrow> (p4, Inl (Store_failed [] e))
                     | (p4, Inr _) \<Rightarrow> (p4, Inr (t, u))))))"

definition scanUser :: "pg \<Rightarrow> user list stmt \<Rightarrow> pg \<times> (account_err + user)" where
  "scanUser p q =
     (case exec q p of
        (p', Inl e) \<Rightarrow> (p', Inl (Store_failed ''get user'' e))
      | (p', Inr rows) \<Rightarrow>
          (case first_row rows of
             None \<Rightarrow> (p', Inl ErrUserNotFound)
           | Some u \<Rightarrow> (p', Inr u)))"

definition GetUserByEmail :: "pg \<Rightarrow> string \<Rightarrow> pg \<times> (account_err + user)" where
  "GetUserByEmail p email = scanUser p (select_email email)"

definition GetUserByID :: "pg \<Rightarrow> uuid \<Rightarrow> pg \<times> (account_err + user)" where
  "GetUserByID p k = scanUser p (select_user k)"

subsection \<open>sessions.go\<close>

definition CreateSession :: "pg \<Rightarrow> uuid \<Rightarrow> uuid \<Rightarrow> string \<Rightarrow> time \<Rightarrow> pg \<times> (account_err + unit)" where
  "CreateSession p gen userID tokenHash expiresAt =
     (case exec (insert_session gen userID tokenHash expiresAt) p of
        (p', Inl e) \<Rightarrow> (p', Inl (Store_failed ''create session'' e))
      | (p', Inr _) \<Rightarrow> (p', Inr ()))"

definition SessionUser :: "pg \<Rightarrow> string \<Rightarrow> pg \<times> (account_err + user)" where
  "SessionUser p tokenHash =
     (case exec (session_join tokenHash) p of
        (p', Inl e) \<Rightarrow> (p', Inl (Store_failed ''session user'' e))
      | (p', Inr rows) \<Rightarrow>
          (case first_row rows of
             None \<Rightarrow> (p', Inl ErrSessionInvalid)
           | Some u \<Rightarrow> (p', Inr u)))"

definition DeleteSession :: "pg \<Rightarrow> string \<Rightarrow> pg \<times> (account_err + unit)" where
  "DeleteSession p tokenHash =
     (case exec (delete_session tokenHash) p of
        (p', Inl e) \<Rightarrow> (p', Inl (Store_failed ''delete session'' e))
      | (p', Inr _) \<Rightarrow> (p', Inr ()))"

subsection \<open>apikeys.go and tenants.go\<close>

definition CreateAPIKey :: "pg \<Rightarrow> uuid \<Rightarrow> uuid \<Rightarrow> string \<Rightarrow> string \<Rightarrow> string \<Rightarrow> pg \<times> (account_err + api_key)" where
  "CreateAPIKey p gen tenant name keyHash prefix =
     (case exec (insert_key gen tenant name keyHash prefix) p of
        (p', Inl e) \<Rightarrow> (p', Inl (Store_failed ''create api key'' e))
      | (p', Inr k) \<Rightarrow> (p', Inr k))"

definition ListAPIKeys :: "pg \<Rightarrow> uuid \<Rightarrow> pg \<times> (account_err + api_key list)" where
  "ListAPIKeys p tenant =
     (case exec (select_keys tenant) p of
        (p', Inl e) \<Rightarrow> (p', Inl (Store_failed ''list api keys'' e))
      | (p', Inr ks) \<Rightarrow> (p', Inr ks))"

definition DeleteAPIKey :: "pg \<Rightarrow> uuid \<Rightarrow> uuid \<Rightarrow> pg \<times> (account_err + unit)" where
  "DeleteAPIKey p tenant k =
     (case exec (delete_key tenant k) p of
        (p', Inl e) \<Rightarrow> (p', Inl (Store_failed ''delete api key'' e))
      | (p', Inr affected) \<Rightarrow> if affected = 0 then (p', Inl ErrAPIKeyNotFound) else (p', Inr ()))"

definition AuthenticateAPIKey :: "pg \<Rightarrow> string \<Rightarrow> pg \<times> (account_err + uuid \<times> uuid)" where
  "AuthenticateAPIKey p keyHash =
     (case exec (select_key_hash keyHash) p of
        (p', Inl e) \<Rightarrow> (p', Inl (Store_failed ''authenticate api key'' e))
      | (p', Inr rows) \<Rightarrow>
          (case first_row rows of
             None \<Rightarrow> (p', Inl ErrAPIKeyNotFound)
           | Some k \<Rightarrow> (p', Inr (key_TenantID k, key_ID k))))"

definition TouchAPIKey :: "pg \<Rightarrow> uuid \<Rightarrow> pg \<times> (account_err + unit)" where
  "TouchAPIKey p k =
     (case exec (touch_key k) p of
        (p', Inl e) \<Rightarrow> (p', Inl (Store_failed ''touch api key'' e))
      | (p', Inr _) \<Rightarrow> (p', Inr ()))"

definition GetTenant :: "pg \<Rightarrow> uuid \<Rightarrow> pg \<times> (account_err + tenant)" where
  "GetTenant p k =
     (case exec (select_tenant k) p of
        (p', Inl e) \<Rightarrow> (p', Inl (Store_failed ''get tenant'' e))
      | (p', Inr rows) \<Rightarrow>
          (case first_row rows of
             None \<Rightarrow> (p', Inl ErrTenantNotFound)
           | Some t \<Rightarrow> (p', Inr t)))"

subsection \<open>Account tables stay consistent\<close>

text \<open>
  What the unique indexes and foreign keys of migrations 0006 to 0008 guarantee; \<open>low\<close> is the server's
  \<open>lower()\<close>. Every function of the account store keeps it, and keeps the schema of the job tables.
\<close>

definition accounts_ok :: "(string \<Rightarrow> string) \<Rightarrow> db \<Rightarrow> bool" where
  "accounts_ok low d \<longleftrightarrow>
     distinct (map user_ID (users d)) \<and> distinct (map (\<lambda>u. low (user_Email u)) (users d)) \<and>
     distinct (map sess_id (sessions d)) \<and> distinct (map sess_token_hash (sessions d)) \<and>
     distinct (map key_ID (api_keys d)) \<and> distinct (map key_KeyHash (api_keys d)) \<and>
     user_TenantID ` set (users d) \<subseteq> tenant_ID ` set (tenants d) \<and>
     sess_user_id ` set (sessions d) \<subseteq> user_ID ` set (users d) \<and>
     key_TenantID ` set (api_keys d) \<subseteq> tenant_ID ` set (tenants d)"

definition keeps :: "'a stmt \<Rightarrow> pg \<Rightarrow> bool" where
  "keeps s p \<longleftrightarrow> (\<forall>d a. s p = Inr (d, a) \<longrightarrow> accounts_ok (pg_lower p) (pg_db p) \<longrightarrow> accounts_ok (pg_lower p) d) \<and>
     (\<forall>d a. s p = Inr (d, a) \<longrightarrow> schema_ok (pg_db p) \<longrightarrow> schema_ok d) \<and>
     (\<forall>d a. s p = Inr (d, a) \<longrightarrow> jobs d = jobs (pg_db p)) \<and>
     (\<forall>d a. s p = Inr (d, a) \<longrightarrow> dead_letter_queue d = dead_letter_queue (pg_db p))"

lemma schema_more_tenants:
  assumes "schema_ok d" and "tenant_ID row \<notin> tenant_ID ` set (tenants d)"
  shows "schema_ok (d\<lparr>tenants := tenants d @ [row]\<rparr>)"
  using assms unfolding schema_ok_def by auto

lemma schema_accounts [simp]:
  "schema_ok (d\<lparr>users := us\<rparr>) = schema_ok d" "schema_ok (d\<lparr>sessions := ss\<rparr>) = schema_ok d"
  "schema_ok (d\<lparr>api_keys := ks\<rparr>) = schema_ok d"
  by (cases d, simp only: schema_ok_def db.simps)+

lemma accounts_ok_append:
  "accounts_ok low d \<Longrightarrow> accounts_ok low (d\<lparr>tenants := tenants d @ [t]\<rparr>)"
  "accounts_ok low d \<Longrightarrow> user_ID u \<notin> user_ID ` set (users d) \<Longrightarrow> low (user_Email u) \<notin> (\<lambda>u. low (user_Email u)) ` set (users d) \<Longrightarrow>
     user_TenantID u \<in> tenant_ID ` set (tenants d) \<Longrightarrow> accounts_ok low (d\<lparr>users := users d @ [u]\<rparr>)"
  "accounts_ok low d \<Longrightarrow> sess_id s \<notin> sess_id ` set (sessions d) \<Longrightarrow> sess_token_hash s \<notin> sess_token_hash ` set (sessions d) \<Longrightarrow>
     sess_user_id s \<in> user_ID ` set (users d) \<Longrightarrow> accounts_ok low (d\<lparr>sessions := sessions d @ [s]\<rparr>)"
  "accounts_ok low d \<Longrightarrow> key_ID k \<notin> key_ID ` set (api_keys d) \<Longrightarrow> key_KeyHash k \<notin> key_KeyHash ` set (api_keys d) \<Longrightarrow>
     key_TenantID k \<in> tenant_ID ` set (tenants d) \<Longrightarrow> accounts_ok low (d\<lparr>api_keys := api_keys d @ [k]\<rparr>)"
proof goal_cases
  case 1
  then show ?case unfolding accounts_ok_def by simp blast
next
  case 2
  then show ?case unfolding accounts_ok_def by simp blast
next
  case 3
  then show ?case unfolding accounts_ok_def by simp
next
  case 4
  then show ?case unfolding accounts_ok_def by simp
qed

lemma keeps_inserts:
  "keeps (insert_tenant gen name) p" "keeps (insert_user gen t email hash) p"
  "keeps (insert_session gen u h e) p" "keeps (insert_key gen t name h pre) p"
  by (simp_all add: keeps_def insert_tenant_def insert_user_def insert_session_def insert_key_def Let_def
      accounts_ok_append schema_more_tenants split: if_splits)

lemma keeps_selects:
  "keeps (select_email email) p" "keeps (select_user k) p" "keeps (session_join h) p" "keeps (select_keys t) p"
  "keeps (select_key_hash h) p" "keeps (select_tenant k) p"
  unfolding keeps_def select_email_def select_user_def session_join_def select_keys_def select_key_hash_def select_tenant_def
  by (auto split: if_splits)

lemma set_delete_D: "x \<in> set (sql_delete w rows) \<Longrightarrow> x \<in> set rows"
  by (simp add: sql_delete_def)

lemma touched_fields:
  "map key_ID (sql_update w (\<lambda>x. x\<lparr>key_LastUsedAt := u\<rparr>) ks) = map key_ID ks"
  "map key_KeyHash (sql_update w (\<lambda>x. x\<lparr>key_LastUsedAt := u\<rparr>) ks) = map key_KeyHash ks"
  "key_TenantID ` set (sql_update w (\<lambda>x. x\<lparr>key_LastUsedAt := u\<rparr>) ks) = key_TenantID ` set ks"
proof -
  have "map key_TenantID (sql_update w (\<lambda>x. x\<lparr>key_LastUsedAt := u\<rparr>) ks) = map key_TenantID ks"
    by (simp add: sql_update_def)
  then show "key_TenantID ` set (sql_update w (\<lambda>x. x\<lparr>key_LastUsedAt := u\<rparr>) ks) = key_TenantID ` set ks"
    by (metis list.set_map)
qed (simp_all add: sql_update_def)

lemma keeps_changes: "keeps (delete_session h) p" "keeps (delete_key t k) p" "keeps (touch_key k) p"
proof -
  show "keeps (touch_key k) p"
    unfolding keeps_def touch_key_def accounts_ok_def by (simp add: touched_fields)
  show "keeps (delete_session h) p" "keeps (delete_key t k) p"
    unfolding keeps_def delete_session_def delete_key_def accounts_ok_def
    by (auto simp: Let_def split: if_splits dest!: set_delete_D)
qed

lemmas keeps_stmts = keeps_inserts keeps_selects keeps_changes

lemma keeps_exec:
  assumes "keeps s p"
  shows "accounts_ok (pg_lower p) (pg_db p) \<Longrightarrow> accounts_ok (pg_lower p) (pg_db (fst (exec s p)))"
    and "schema_ok (pg_db p) \<Longrightarrow> schema_ok (pg_db (fst (exec s p)))"
    and "jobs (pg_db (fst (exec s p))) = jobs (pg_db p)"
    and "dead_letter_queue (pg_db (fst (exec s p))) = dead_letter_queue (pg_db p)"
proof -
  from exec_db_cases [of s p] have "pg_db (fst (exec s p)) = pg_db p \<or> (\<exists>a. s p = Inr (pg_db (fst (exec s p)), a))" by metis
  with assms show "accounts_ok (pg_lower p) (pg_db p) \<Longrightarrow> accounts_ok (pg_lower p) (pg_db (fst (exec s p)))"
    and "schema_ok (pg_db p) \<Longrightarrow> schema_ok (pg_db (fst (exec s p)))"
    and "jobs (pg_db (fst (exec s p))) = jobs (pg_db p)"
    and "dead_letter_queue (pg_db (fst (exec s p))) = dead_letter_queue (pg_db p)"
    unfolding keeps_def by metis+
qed

lemma exec_lower [simp]: "pg_lower (fst (exec s p)) = pg_lower p"
  by (auto simp: exec_def Let_def split: prod.splits fault.splits sum.splits)

lemma tx_lower [simp]: "pg_lower (fst (tx_begin p)) = pg_lower p" "pg_lower (fst (tx_exec s w p)) = pg_lower p"
  by (auto simp: tx_begin_def tx_exec_def Let_def split: prod.splits)

lemma fst_account_calls:
  "fst (CreateSession p g u h e) = fst (exec (insert_session g u h e) p)"
  "fst (DeleteSession p h) = fst (exec (delete_session h) p)"
  "fst (CreateAPIKey p g t n h pre) = fst (exec (insert_key g t n h pre) p)"
  "fst (DeleteAPIKey p t k) = fst (exec (delete_key t k) p)"
  "fst (TouchAPIKey p k) = fst (exec (touch_key k) p)"
  "fst (AuthenticateAPIKey p h) = fst (exec (select_key_hash h) p)"
  "fst (SessionUser p h) = fst (exec (session_join h) p)"
  "fst (GetUserByEmail p email) = fst (exec (select_email email) p)"
  "fst (ListAPIKeys p t) = fst (exec (select_keys t) p)"
  "fst (GetTenant p t) = fst (exec (select_tenant t) p)"
  by (auto simp: CreateSession_def DeleteSession_def CreateAPIKey_def DeleteAPIKey_def TouchAPIKey_def AuthenticateAPIKey_def
      SessionUser_def GetUserByEmail_def scanUser_def ListAPIKeys_def GetTenant_def split: prod.splits sum.splits option.splits)

subsection \<open>All or nothing\<close>

text \<open>A sign-up leaves the tables as they were, or with a new tenant and its user.\<close>

definition account_rows :: "pg \<Rightarrow> uuid \<Rightarrow> uuid \<Rightarrow> string \<Rightarrow> string \<Rightarrow> tenant \<times> user" where
  "account_rows p gt gu email hash =
     (\<lparr>tenant_ID = gt, tenant_Name = email, tenant_CreatedAt = pg_now p\<rparr>,
      \<lparr>user_ID = gu, user_TenantID = gt, user_Email = email, user_PasswordHash = hash, user_CreatedAt = pg_now p\<rparr>)"

definition with_account :: "tenant \<times> user \<Rightarrow> db \<Rightarrow> db" where
  "with_account tu d = d\<lparr>tenants := tenants d @ [fst tu], users := users d @ [snd tu]\<rparr>"

definition email_free :: "pg \<Rightarrow> string \<Rightarrow> bool" where
  "email_free p email \<longleftrightarrow> pg_lower p email \<notin> (\<lambda>u. pg_lower p (user_Email u)) ` set (users (pg_db p))"

definition account_free :: "pg \<Rightarrow> uuid \<Rightarrow> uuid \<Rightarrow> string \<Rightarrow> bool" where
  "account_free p gt gu email \<longleftrightarrow> gt \<notin> tenant_ID ` set (tenants (pg_db p)) \<and>
     gu \<notin> user_ID ` set (users (pg_db p)) \<and> email_free p email"

lemma CreateAccount_committed:
  assumes "tx_begin p = (p1, Inr w1)" and "tx_exec (insert_tenant gt email) w1 p1 = (p2, Inr (w2, t))"
    and "tx_exec (insert_user gu (tenant_ID t) email hash) w2 p2 = (p3, Inr (w3, u))"
  shows "account_free p gt gu email \<and> (t, u) = account_rows p gt gu email hash \<and>
    w3 = with_account (t, u) (pg_db p) \<and> pg_db p3 = pg_db p"
proof -
  from tx_begin_ok [OF assms(1)] have 1: "w1 = pg_db p" "pg_db p1 = pg_db p" by auto
  have n1: "pg_now p1 = pg_now p" "pg_lower p1 = pg_lower p" using assms(1) tx_frame(4) [of p] tx_lower(1) [of p] by simp_all
  from tx_exec_ok [OF assms(2)] have 2: "insert_tenant gt email (p1\<lparr>pg_db := w1\<rparr>) = Inr (w2, t)" "pg_db p2 = pg_db p1" by auto
  have n2: "pg_now p2 = pg_now p1" "pg_lower p2 = pg_lower p1"
    using assms(2) tx_frame(1) [of "insert_tenant gt email" w1 p1] tx_lower(2) [of "insert_tenant gt email" w1 p1] by simp_all
  from tx_exec_ok [OF assms(3)] have 3: "insert_user gu (tenant_ID t) email hash (p2\<lparr>pg_db := w2\<rparr>) = Inr (w3, u)"
    "pg_db p3 = pg_db p2" by auto
  from 1 2 3 n1 n2 show ?thesis
    by (auto simp: insert_tenant_def insert_user_def account_free_def email_free_def account_rows_def with_account_def Let_def
        split: if_splits)
qed

lemma CreateAccount_db:
  "pg_db (fst (CreateAccount p gt gu email hash)) = pg_db p \<or>
   (account_free p gt gu email \<and>
    pg_db (fst (CreateAccount p gt gu email hash)) = with_account (account_rows p gt gu email hash) (pg_db p))"
proof (cases "\<exists>p1 w1 p2 w2 t p3 w3 u. tx_begin p = (p1, Inr w1) \<and> tx_exec (insert_tenant gt email) w1 p1 = (p2, Inr (w2, t)) \<and>
    tx_exec (insert_user gu (tenant_ID t) email hash) w2 p2 = (p3, Inr (w3, u))")
  case True
  then obtain p1 w1 p2 w2 t p3 w3 u where tx: "tx_begin p = (p1, Inr w1)"
    "tx_exec (insert_tenant gt email) w1 p1 = (p2, Inr (w2, t))"
    "tx_exec (insert_user gu (tenant_ID t) email hash) w2 p2 = (p3, Inr (w3, u))" by blast
  from CreateAccount_committed [OF tx] tx_commit_db_cases [of w3 p3] tx show ?thesis
    by (auto simp: CreateAccount_def split: prod.splits sum.splits)
next
  case False
  have b: "tx_begin p = (p1, r) \<Longrightarrow> pg_db p1 = pg_db p" for p1 r
    using tx_begin_frame [of p] by simp
  have e: "tx_exec s w q = (q', r) \<Longrightarrow> pg_db q' = pg_db q" for s :: "'x stmt" and w q q' r
    using tx_exec_frame [of s w q] by simp
  from False show ?thesis
    by (auto simp: CreateAccount_def split: prod.splits sum.splits) (metis b e)+
qed

lemma CreateAccount_ok:
  assumes "CreateAccount p gt gu email hash = (p', Inr (t, u))"
  shows "account_free p gt gu email \<and> (t, u) = account_rows p gt gu email hash \<and> pg_db p' = with_account (t, u) (pg_db p)"
proof -
  from assms obtain p1 w1 p2 w2 p3 w3 where tx: "tx_begin p = (p1, Inr w1)"
    "tx_exec (insert_tenant gt email) w1 p1 = (p2, Inr (w2, t))"
    "tx_exec (insert_user gu (tenant_ID t) email hash) w2 p2 = (p3, Inr (w3, u))" and c: "tx_commit w3 p3 = (p', Inr ())"
    by (auto simp: CreateAccount_def split: prod.splits sum.splits if_splits)
  from CreateAccount_committed [OF tx] tx_commit_ok [OF c] show ?thesis by simp
qed

lemma with_account_ok:
  assumes "account_free p gt gu email"
  shows "accounts_ok (pg_lower p) (pg_db p) \<Longrightarrow> accounts_ok (pg_lower p) (with_account (account_rows p gt gu email hash) (pg_db p))"
    and "schema_ok (pg_db p) \<Longrightarrow> schema_ok (with_account (account_rows p gt gu email hash) (pg_db p))"
  using assms schema_more_tenants [of "pg_db p" "fst (account_rows p gt gu email hash)"]
  by (auto simp: account_free_def email_free_def with_account_def account_rows_def accounts_ok_def)

subsection \<open>The calls that change accounts\<close>

text \<open>The account store as one interface: what a call that writes leaves behind, whatever it answers.\<close>

datatype account_call =
    Create_account uuid uuid string string
  | Create_session uuid uuid string time
  | Delete_session string
  | Create_key uuid uuid string string string
  | Delete_key uuid uuid
  | Touch_key uuid

fun account_write :: "account_call \<Rightarrow> pg \<Rightarrow> pg" where
  "account_write (Create_account gt gu email hash) p = fst (CreateAccount p gt gu email hash)"
| "account_write (Create_session gen u h e) p = fst (CreateSession p gen u h e)"
| "account_write (Delete_session h) p = fst (DeleteSession p h)"
| "account_write (Create_key gen t name h pre) p = fst (CreateAPIKey p gen t name h pre)"
| "account_write (Delete_key t k) p = fst (DeleteAPIKey p t k)"
| "account_write (Touch_key k) p = fst (TouchAPIKey p k)"

lemma account_write_keeps:
  "schema_ok (pg_db p) \<Longrightarrow> schema_ok (pg_db (account_write a p))"
  "accounts_ok (pg_lower p) (pg_db p) \<Longrightarrow> accounts_ok (pg_lower p) (pg_db (account_write a p))"
  "jobs (pg_db (account_write a p)) = jobs (pg_db p)"
  "dead_letter_queue (pg_db (account_write a p)) = dead_letter_queue (pg_db p)"
proof -
  note ok = keeps_exec [OF keeps_inserts(3)] keeps_exec [OF keeps_inserts(4)] keeps_exec [OF keeps_changes(1)]
    keeps_exec [OF keeps_changes(2)] keeps_exec [OF keeps_changes(3)]
  show "schema_ok (pg_db p) \<Longrightarrow> schema_ok (pg_db (account_write a p))"
    using CreateAccount_db with_account_ok(2) by (cases a) (auto simp: fst_account_calls intro: ok, metis)
  show "accounts_ok (pg_lower p) (pg_db p) \<Longrightarrow> accounts_ok (pg_lower p) (pg_db (account_write a p))"
    using CreateAccount_db with_account_ok(1) by (cases a) (auto simp: fst_account_calls intro: ok, metis)
  have "jobs (with_account tu d) = jobs d" "dead_letter_queue (with_account tu d) = dead_letter_queue d" for tu d
    by (simp_all add: with_account_def)
  then show "jobs (pg_db (account_write a p)) = jobs (pg_db p)"
    "dead_letter_queue (pg_db (account_write a p)) = dead_letter_queue (pg_db p)"
    using CreateAccount_db by (cases a; simp add: fst_account_calls ok; metis)+
qed

end
