(* ===== verification/System.thy ===== *)
theory System
  imports Worker Scheduler AuthStore
begin

section \<open>The running system\<close>

text \<open>
  Any number of workers, API requests (sign-ups, sessions and keys among them), pollers and schedulers over one
  database and one Redis server. A step is one call to one of the two services, made by one process, with whatever
  outcome the network gives it; between the calls of a process any other process may act, and a
  process may die at any point. \<open>pc\<close> is how far a process has come: the states are the points
  between two service calls of \<open>process\<close> and \<open>handleFailure\<close> (\<^verbatim>\<open>src/cmd/worker/main.go\<close>), of
  \<open>Submit\<close> (\<^verbatim>\<open>src/internal/enqueue/enqueue.go\<close>), of \<open>retryJob\<close> and \<open>cancelJob\<close>
  (\<^verbatim>\<open>src/internal/handlers/jobs.go\<close>) and of \<open>fireSchedule\<close> (\<^verbatim>\<open>src/cmd/scheduler/main.go\<close>).
  The transactions of \<open>DeadLetter\<close> and \<open>RetryJob\<close> lock the row they change with their first
  statement, so each is one step.
\<close>

datatype pc =
    Idle
  | Popped string          \<comment> \<open>a worker with an id it has not claimed\<close>
  | Running job            \<comment> \<open>a worker with the row it claimed, its handler running\<close>
  | Retrying job time      \<comment> \<open>the failed attempt is recorded, the delayed entry is not\<close>
  | Persisted job          \<comment> \<open>the row is written or reset, the id is not pushed\<close>
  | Withdrawn job          \<comment> \<open>the row is cancelled, the id is still on the work list\<close>
  | Unlisted job           \<comment> \<open>removed from the work list, not from the delayed set\<close>
  | Won job_schedule       \<comment> \<open>a scheduler that claimed a run and has not created the job\<close>

record 'r sys =
  sys_pg :: pg
  sys_conn :: "'r rconn"
  sys_pc :: "nat \<Rightarrow> pc"

definition goto :: "nat \<Rightarrow> pc \<Rightarrow> 'r sys \<Rightarrow> 'r sys" where
  "goto w l s = s\<lparr>sys_pc := (sys_pc s)(w := l)\<rparr>"

text \<open>Where a call leaves a process: its next point when it succeeds, nowhere when it fails.\<close>

definition after :: "('e + 'a) \<Rightarrow> ('a \<Rightarrow> pc) \<Rightarrow> pc" where
  "after r next = (case r of Inl e \<Rightarrow> Idle | Inr a \<Rightarrow> next a)"

text \<open>Calls to the database.\<close>

inductive pg_step :: "'r wenv \<Rightarrow> cron_pkg \<Rightarrow> 'r sys \<Rightarrow> 'r sys \<Rightarrow> bool" for E cron where
  claim: "sys_pc s w = Popped x \<Longrightarrow> uuid_Parse (we_U E) x = Some k \<Longrightarrow> ClaimJob (sys_pg s) k = (p, r) \<Longrightarrow>
    pg_step E cron s (goto w (after r Running) (s\<lparr>sys_pg := p\<rparr>))"
| complete: "sys_pc s w = Running job \<Longrightarrow>
    Dispatch (we_f64 E) henv (we_registry E) (job_JobType job) (job_Payload job) = Inr result \<Longrightarrow>
    MarkCompleted (sys_pg s) (job_ID job) result = (p, r) \<Longrightarrow>
    pg_step E cron s (goto w Idle (s\<lparr>sys_pg := p\<rparr>))"
| give_up: "sys_pc s w = Running job \<Longrightarrow>
    Dispatch (we_f64 E) henv (we_registry E) (job_JobType job) (job_Payload job) = Inl e \<Longrightarrow>
    attempts = wrap64 (job_RetryCount job + 1) \<Longrightarrow> attempts \<ge> job_MaxRetries job \<Longrightarrow>
    DeadLetter (sys_pg s) (job_ID job) attempts (we_Error E e) = (p, r) \<Longrightarrow>
    pg_step E cron s (goto w Idle (s\<lparr>sys_pg := p\<rparr>))"
| try_again: "sys_pc s w = Running job \<Longrightarrow>
    Dispatch (we_f64 E) henv (we_registry E) (job_JobType job) (job_Payload job) = Inl e \<Longrightarrow>
    attempts = wrap64 (job_RetryCount job + 1) \<Longrightarrow> attempts < job_MaxRetries job \<Longrightarrow>
    backoffFor (word_of_int attempts) = Some b \<Longrightarrow>
    MarkForRetry (sys_pg s) (job_ID job) attempts (we_Error E e) = (p, r) \<Longrightarrow>
    pg_step E cron s (goto w (after r (\<lambda>_. Retrying job (now + sint b))) (s\<lparr>sys_pg := p\<rparr>))"
| persist: "sys_pc s w = Idle \<Longrightarrow> job_Status job = [] \<Longrightarrow> job_TenantID job \<noteq> uuid_Nil \<Longrightarrow>
    CreateJob (sys_pg s) (applyDefaults fresh job) = (p, r) \<Longrightarrow>
    pg_step E cron s (goto w (after r Persisted) (s\<lparr>sys_pg := p\<rparr>))"
| retry: "sys_pc s w = Idle \<Longrightarrow> RetryJob (sys_pg s) t k = (p, r) \<Longrightarrow>
    pg_step E cron s (goto w (after r Persisted) (s\<lparr>sys_pg := p\<rparr>))"
| cancel: "sys_pc s w = Idle \<Longrightarrow> CancelJob (sys_pg s) t k = (p, r) \<Longrightarrow>
    pg_step E cron s (goto w (after r Withdrawn) (s\<lparr>sys_pg := p\<rparr>))"
| win: "sys_pc s w = Idle \<Longrightarrow> cron (sched_CronExpression sc) = Some nxt \<Longrightarrow>
    ClaimScheduleRun (sys_pg s) (sched_ID sc) (sched_NextRunAt sc) now (nxt now) = (p, r) \<Longrightarrow>
    pg_step E cron s (goto w (after r (\<lambda>won. if won then Won sc else Idle)) (s\<lparr>sys_pg := p\<rparr>))"
| account: "sys_pc s w = Idle \<Longrightarrow> account_write a (sys_pg s) = p \<Longrightarrow>
    pg_step E cron s (goto w Idle (s\<lparr>sys_pg := p\<rparr>))"
| fire: "sys_pc s w = Won sc \<Longrightarrow> sched_TenantID sc \<noteq> uuid_Nil \<Longrightarrow>
    CreateJob (sys_pg s) (applyDefaults fresh (scheduled_job sc)) = (p, r) \<Longrightarrow>
    pg_step E cron s (goto w (after r Persisted) (s\<lparr>sys_pg := p\<rparr>))"

text \<open>Calls to Redis.\<close>

inductive redis_step :: "'r wenv \<Rightarrow> 'r sys \<Rightarrow> 'r sys \<Rightarrow> bool" for E where
  pop: "sys_pc s w = Idle \<Longrightarrow> Dequeue (we_R E) (sys_conn s) queues = (c, r) \<Longrightarrow> queues \<noteq> [] \<Longrightarrow>
    redis_step E s (goto w (after r (\<lambda>(x, q). Popped x)) (s\<lparr>sys_conn := c\<rparr>))"
| delay: "sys_pc s w = Retrying job runAt \<Longrightarrow>
    EnqueueDelayed (we_R E) (sys_conn s) (job_QueueName job) (uuid_String (we_U E) (job_ID job)) runAt = (c, r) \<Longrightarrow>
    redis_step E s (goto w Idle (s\<lparr>sys_conn := c\<rparr>))"
| push: "sys_pc s w = Persisted job \<Longrightarrow>
    Enqueue (we_R E) (sys_conn s) (job_QueueName job) (uuid_String (we_U E) (job_ID job)) = (c, r) \<Longrightarrow>
    redis_step E s (goto w Idle (s\<lparr>sys_conn := c\<rparr>))"
| unlist: "sys_pc s w = Withdrawn job \<Longrightarrow>
    redis_do (lrem (we_R E) (keyPrefix @ job_QueueName job) 0 (uuid_String (we_U E) (job_ID job))) (sys_conn s) = (c, r) \<Longrightarrow>
    redis_step E s (goto w (after r (\<lambda>_. Unlisted job)) (s\<lparr>sys_conn := c\<rparr>))"
| undelay: "sys_pc s w = Unlisted job \<Longrightarrow>
    redis_do (zrem (we_R E) (delayedKeyPrefix @ job_QueueName job) (uuid_String (we_U E) (job_ID job))) (sys_conn s) = (c, r) \<Longrightarrow>
    redis_step E s (goto w Idle (s\<lparr>sys_conn := c\<rparr>))"
| promote: "PromoteDue (we_R E) (sys_conn s) q now promoteBatch = (c, r) \<Longrightarrow>
    redis_step E s (s\<lparr>sys_conn := c\<rparr>)"
| beat: "Heartbeat (we_R E) (sys_conn s) now workerID = (c, r) \<Longrightarrow>
    redis_step E s (s\<lparr>sys_conn := c\<rparr>)"
| bye: "RemoveWorker (we_R E) (sys_conn s) workerID = (c, r) \<Longrightarrow>
    redis_step E s (s\<lparr>sys_conn := c\<rparr>)"

text \<open>A call, the death of a process, or a change of the clocks and of the networks' moods.\<close>

inductive step :: "'r wenv \<Rightarrow> cron_pkg \<Rightarrow> 'r sys \<Rightarrow> 'r sys \<Rightarrow> bool" for E cron where
  database: "pg_step E cron s s' \<Longrightarrow> step E cron s s'"
| queue: "redis_step E s s' \<Longrightarrow> step E cron s s'"
| die: "step E cron s (goto w Idle s)"
| weather: "step E cron s (s\<lparr>sys_pg := (sys_pg s)\<lparr>pg_now := t, pg_net := fs\<rparr>,
    sys_conn := (sys_conn s)\<lparr>r_now := t', r_net := fs'\<rparr>\<rparr>)"

abbreviation steps :: "'r wenv \<Rightarrow> cron_pkg \<Rightarrow> 'r sys \<Rightarrow> 'r sys \<Rightarrow> bool" where
  "steps E cron \<equiv> (step E cron)\<^sup>*\<^sup>*"

text \<open>A system that starts: no jobs, nothing queued, nobody at work.\<close>

definition initial :: "'r redis \<Rightarrow> 'r sys \<Rightarrow> bool" where
  "initial R s \<longleftrightarrow> schema_ok (pg_db (sys_pg s)) \<and> jobs (pg_db (sys_pg s)) = [] \<and>
     (\<forall>q. queued R (sys_conn s) q = [] \<and> delayed R (sys_conn s) q = []) \<and> (\<forall>w. sys_pc s w = Idle)"

definition reachable :: "'r wenv \<Rightarrow> cron_pkg \<Rightarrow> 'r sys \<Rightarrow> bool" where
  "reachable E cron s \<longleftrightarrow> (\<exists>s0. initial (we_R E) s0 \<and> steps E cron s0 s)"

subsection \<open>The life of a job\<close>

text \<open>The abstract machine: what one job goes through, with the number of failed attempts.\<close>

datatype phase = Waiting int | In_flight int | Succeeded | Dead int | Called_off

inductive life :: "int \<Rightarrow> phase option \<Rightarrow> phase option \<Rightarrow> bool" for M where
  admitted: "life M None (Some (Waiting 0))"
| started: "life M (Some (Waiting n)) (Some (In_flight n))"
| called_off: "life M (Some (Waiting n)) (Some Called_off)"
| succeeded: "life M (Some (In_flight n)) (Some Succeeded)"
| put_back: "n + 1 < M \<Longrightarrow> life M (Some (In_flight n)) (Some (Waiting (n + 1)))"
| died: "n + 1 = M \<Longrightarrow> life M (Some (In_flight n)) (Some (Dead (n + 1)))"
| revived: "life M (Some (Dead n)) (Some (Waiting 0))"

inductive_cases life_from_Succeeded: "life M (Some Succeeded) y"
inductive_cases life_from_Called_off: "life M (Some Called_off) y"

definition phase_of :: "job \<Rightarrow> phase" where
  "phase_of j =
     (if job_Status j = StatusPending then Waiting (job_RetryCount j)
      else if job_Status j = StatusProcessing then In_flight (job_RetryCount j)
      else if job_Status j = StatusCompleted then Succeeded
      else if job_Status j = StatusFailed then Dead (job_RetryCount j)
      else Called_off)"

abbreviation phase_in :: "db \<Rightarrow> uuid \<Rightarrow> phase option" where
  "phase_in d k \<equiv> map_option phase_of (job_of d k)"

subsection \<open>Invariants of the database\<close>

text \<open>
  A job and its dead-letter row: a failed job has one, with its tenant, its error and its
  attempts, all of the budget; any other job has none and attempts left.
\<close>

definition row_ok :: "job \<Rightarrow> dlq_row option \<Rightarrow> bool" where
  "row_ok j dl \<longleftrightarrow> 0 \<le> job_RetryCount j \<and> Valid (job_Status j) \<and>
     (if job_Status j = StatusFailed
      then job_RetryCount j = budget j \<and>
           (\<exists>r. dl = Some r \<and> dlq_tenant_id r = job_TenantID j \<and> job_ErrorMessage j = Some (dlq_reason r) \<and>
                dlq_attempts r = job_RetryCount j)
      else dl = None \<and> job_RetryCount j < budget j)"

definition rows_ok :: "db \<Rightarrow> bool" where
  "rows_ok d \<longleftrightarrow> schema_ok d \<and> (\<forall>k j. job_of d k = Some j \<longrightarrow> row_ok j (dlq_of d k))"

text \<open>What a change of the tables is allowed to be: the life of one job moves on.\<close>

definition moves :: "uuid \<Rightarrow> db \<Rightarrow> db \<Rightarrow> bool" where
  "moves k d d' \<longleftrightarrow> rows_ok d' \<and> (\<forall>k'. k' \<noteq> k \<longrightarrow> job_of d' k' = job_of d k') \<and>
     (\<exists>j'. job_of d' k = Some j' \<and> life (budget j') (phase_in d k) (Some (phase_of j')) \<and>
        (\<forall>j. job_of d k = Some j \<longrightarrow> same_spec j' j))"

lemma updated_at_simps [simp]:
  "phase_of (set_updated_at t j) = phase_of j" "budget (set_updated_at t j) = budget j"
  "row_ok (set_updated_at t j) dl = row_ok j dl"
  by (simp_all add: phase_of_def budget_def row_ok_def set_updated_at_def)

lemma phase_simps [simp]:
  "phase_of (claimed t j) = In_flight (job_RetryCount j)" "phase_of (completed r t j) = Succeeded"
  "phase_of (retried n m j) = Waiting n" "phase_of (failed n m t j) = Dead n"
  "phase_of (cancelled t j) = Called_off" "phase_of (reset j) = Waiting 0"
  "job_Status j = StatusPending \<Longrightarrow> phase_of j = Waiting (job_RetryCount j)"
  "job_Status j = StatusProcessing \<Longrightarrow> phase_of j = In_flight (job_RetryCount j)"
  "job_Status j = StatusFailed \<Longrightarrow> phase_of j = Dead (job_RetryCount j)"
  by (simp_all add: phase_of_def)

lemma budget_simps [simp]:
  "budget (claimed t j) = budget j" "budget (completed r t j) = budget j" "budget (retried n m j) = budget j"
  "budget (failed n m t j) = budget j" "budget (cancelled t j) = budget j" "budget (reset j) = budget j"
  by (simp_all add: budget_def)

lemma Valid_statuses [simp]:
  "Valid StatusPending" "Valid StatusProcessing" "Valid StatusCompleted" "Valid StatusFailed" "Valid StatusCancelled"
  by (simp_all add: Valid_def AllStatuses_def)

lemma rows_okD:
  assumes "rows_ok d"
  shows "schema_ok d" and "job_of d k = Some j \<Longrightarrow> row_ok j (dlq_of d k)"
  using assms by (simp_all add: rows_ok_def)

lemma moves_set_job:
  assumes "rows_ok (pg_db p)" and "job_of (pg_db p) k = Some j" and "w j"
    and "\<And>j. same_spec (f j) j" and "int4 (job_RetryCount (f j))"
    and "row_ok (f j) (dlq_of (pg_db p) k)" and "life (budget (f j)) (Some (phase_of j)) (Some (phase_of (f j)))"
  shows "moves k (pg_db p) (set_job p k w f)"
proof -
  have ID: "\<And>j. job_ID (f j) = job_ID j" using assms(4) same_specD(1) by blast
  have sc: "schema_ok (set_job p k w f)"
    using schema_set_job [OF rows_okD(1) [OF assms(1)], of k w f] assms(2,4,5) by auto
  have rows: "rows_ok (set_job p k w f)"
    using assms(1,2,3,6) sc rows_okD(2) [OF assms(1)]
    by (auto simp: rows_ok_def job_of_set_job [OF ID] split: if_splits)
  show ?thesis
    using rows assms(2,3,4,7)
    by (auto simp: moves_def job_of_set_job [OF ID])
qed

lemma ClaimJob_moves:
  assumes "rows_ok (pg_db p)" and "ClaimJob p k = (p', r)"
  shows "pg_db p' = pg_db p \<or>
    (claimable k (pg_db p) \<and> moves k (pg_db p) (pg_db p'))"
    and "r = Inr job \<Longrightarrow> claimable k (pg_db p) \<and> job_of (pg_db p') k = Some job \<and> job_Status job = StatusProcessing"
proof -
  let ?d = "set_job p k (\<lambda>j. job_Status j = StatusPending) (claimed (pg_now p))"
  have m: "moves k (pg_db p) ?d" if c: "claimable k (pg_db p)"
  proof -
    from c obtain j where j: "job_of (pg_db p) k = Some j" "job_Status j = StatusPending"
      by (auto simp: claimable_def split: option.splits)
    show ?thesis
      by (rule moves_set_job [OF assms(1) j(1)])
        (use rows_okD(2) [OF assms(1) j(1)] row_int4 [OF rows_okD(1) [OF assms(1)] j(1)] j(2)
          in \<open>auto simp: row_ok_def intro: life.intros\<close>)
  qed
  have n: "?d = pg_db p" if "\<not> claimable k (pg_db p)"
    using that by (auto simp: claimable_def set_job_def split: option.splits)
  from ClaimJob_db [OF rows_okD(1) [OF assms(1)], of k] assms(2) m n
  show "pg_db p' = pg_db p \<or> (claimable k (pg_db p) \<and> moves k (pg_db p) (pg_db p'))"
    by (cases "claimable k (pg_db p)") auto
  assume "r = Inr job"
  with ClaimJob_ok [OF rows_okD(1) [OF assms(1)], of k p' job] assms(2)
  show "claimable k (pg_db p) \<and> job_of (pg_db p') k = Some job \<and> job_Status job = StatusProcessing"
    by (auto simp: set_row_def claimable_def job_of_set_job split: option.splits if_splits)
qed

lemma CancelJob_moves:
  assumes "rows_ok (pg_db p)" and "CancelJob p t k = (p', r)"
  shows "pg_db p' = pg_db p \<or> (claimable k (pg_db p) \<and> moves k (pg_db p) (pg_db p'))"
proof -
  let ?d = "set_job p k (\<lambda>j. job_TenantID j = t \<and> job_Status j = StatusPending) (cancelled (pg_now p))"
  have m: "claimable k (pg_db p) \<and> moves k (pg_db p) ?d \<or> ?d = pg_db p"
  proof (cases "\<exists>j. job_of (pg_db p) k = Some j \<and> job_TenantID j = t \<and> job_Status j = StatusPending")
    case True
    then obtain j where j: "job_of (pg_db p) k = Some j" "job_TenantID j = t \<and> job_Status j = StatusPending" by blast
    have "moves k (pg_db p) ?d"
      by (rule moves_set_job [OF assms(1) j(1)])
        (use rows_okD(2) [OF assms(1) j(1)] row_int4 [OF rows_okD(1) [OF assms(1)] j(1)] j(2)
          in \<open>auto simp: row_ok_def intro: life.intros\<close>)
    with j show ?thesis by (simp add: claimable_def)
  next
    case False
    then show ?thesis by (auto simp: set_job_def split: option.splits)
  qed
  with CancelJob_db [OF rows_okD(1) [OF assms(1)], of t k] assms(2) show ?thesis by auto
qed

text \<open>The three outcomes of a run, on a row in flight.\<close>

lemma MarkCompleted_moves:
  assumes "rows_ok (pg_db p)" and "MarkCompleted p k r = (p', u)"
    and "job_of (pg_db p) k = Some j" and "job_Status j = StatusProcessing"
  shows "pg_db p' = pg_db p \<or> moves k (pg_db p) (pg_db p')"
proof -
  have "moves k (pg_db p) (set_job p k (\<lambda>_. True) (completed r' (pg_now p)))" for r'
    by (rule moves_set_job [OF assms(1,3)])
      (use rows_okD(2) [OF assms(1,3)] row_int4 [OF rows_okD(1) [OF assms(1)] assms(3)] assms(4)
        in \<open>auto simp: row_ok_def intro: life.intros\<close>)
  with MarkCompleted_db [OF rows_okD(1) [OF assms(1)], of k r] assms(2) show ?thesis by auto
qed

lemma MarkForRetry_moves:
  assumes "rows_ok (pg_db p)" and "MarkForRetry p k n m = (p', u)"
    and "job_of (pg_db p) k = Some j" and "job_Status j = StatusProcessing"
    and "n = job_RetryCount j + 1" and "n < job_MaxRetries j"
  shows "pg_db p' = pg_db p \<or> moves k (pg_db p) (pg_db p')"
proof -
  have "moves k (pg_db p) (set_job p k (\<lambda>_. True) (retried n m))" if "int4 n"
    by (rule moves_set_job [OF assms(1,3)])
      (use rows_okD(2) [OF assms(1,3)] that assms(4-6) in \<open>auto simp: row_ok_def budget_def intro: life.intros\<close>)
  with MarkForRetry_db [OF rows_okD(1) [OF assms(1)], of k n m] assms(2) show ?thesis by auto
qed

lemma DeadLetter_moves:
  assumes "rows_ok (pg_db p)" and "DeadLetter p k n m = (p', u)"
    and "job_of (pg_db p) k = Some j" and "job_Status j = StatusProcessing"
    and "n = job_RetryCount j + 1" and "n \<ge> job_MaxRetries j"
  shows "pg_db p' = pg_db p \<or> moves k (pg_db p) (pg_db p')"
proof -
  from rows_okD(2) [OF assms(1,3)] assms(4) have j: "0 \<le> job_RetryCount j" "job_RetryCount j < budget j"
    "dlq_of (pg_db p) k = None" by (simp_all add: row_ok_def)
  have n: "n = budget j" using j assms(5,6) by (auto simp: budget_def)
  have "moves k (pg_db p) (dead_db p k n m)" if "int4 n"
  proof -
    have s: "schema_ok (dead_db p k n m)" using rows_okD(1) [OF assms(1)] that by (rule schema_dead_db)
    have row: "row_ok (failed n m (pg_now p) j) (dlq_of (dead_db p k n m) k)"
      using assms(3) j n by (simp add: row_ok_def dlq_of_dead_db failed_def budget_def)
    have "row_ok x (dlq_of (dead_db p k n m) k')" if "job_of (dead_db p k n m) k' = Some x" for k' x
      using that row assms(3) rows_okD(2) [OF assms(1), of k' x]
      by (cases "k' = k") (auto simp: job_of_dead_db dlq_of_dead_db)
    with s have "rows_ok (dead_db p k n m)" by (simp add: rows_ok_def)
    then show ?thesis
      using assms(3,4,5) n by (auto simp: moves_def job_of_dead_db intro: life.died)
  qed
  with DeadLetter_db [OF rows_okD(1) [OF assms(1)], of k n m] assms(2) show ?thesis by auto
qed

lemma RetryJob_moves:
  assumes "rows_ok (pg_db p)" and "RetryJob p t k = (p', r)"
  shows "pg_db p' = pg_db p \<or> (retryable (pg_db p) t k \<and> moves k (pg_db p) (pg_db p'))"
proof -
  have "moves k (pg_db p) (reset_db p k)" if "retryable (pg_db p) t k"
  proof -
    from that obtain j where j: "job_of (pg_db p) k = Some j" "job_Status j = StatusFailed"
      by (auto simp: retryable_def split: option.splits)
    have s: "schema_ok (reset_db p k)" using rows_okD(1) [OF assms(1)] by (rule schema_reset_db)
    have "row_ok x (dlq_of (reset_db p k) k')" if "job_of (reset_db p k) k' = Some x" for k' x
      using that j rows_okD(2) [OF assms(1), of k' x]
      by (cases "k' = k") (auto simp: job_of_reset_db dlq_of_reset_db row_ok_def budget_def)
    with s have "rows_ok (reset_db p k)" by (simp add: rows_ok_def)
    then show ?thesis
      using j by (auto simp: moves_def job_of_reset_db intro: life.intros)
  qed
  with RetryJob_db [OF rows_okD(1) [OF assms(1)], of t k] assms(2) show ?thesis by auto
qed

lemma CreateJob_moves:
  assumes "rows_ok (pg_db p)" and "CreateJob p job = (p', r)" and "job_Status job = StatusPending"
  shows "pg_db p' = pg_db p \<or> (job_of (pg_db p) (job_ID job) = None \<and> moves (job_ID job) (pg_db p) (pg_db p'))"
proof -
  have "moves (job_ID job) (pg_db p) ((pg_db p)\<lparr>jobs := jobs (pg_db p) @ [inserted p job x]\<rparr>)"
    if i: "insertable (pg_db p) job" for x
  proof -
    let ?d = "(pg_db p)\<lparr>jobs := jobs (pg_db p) @ [inserted p job x]\<rparr>"
    have none: "job_of (pg_db p) (job_ID job) = None" using i by (simp add: insertable_def)
    then have dl: "dlq_of (pg_db p) (job_ID job) = None"
      using rows_okD(1) [OF assms(1)] unfolding row_by_None_iff schema_ok_def by blast
    have "row_ok y (dlq_of ?d k')" if "job_of ?d k' = Some y" for k' y
    proof -
      from that have "(if k' = job_ID job then Some (inserted p job x) else job_of (pg_db p) k') = Some y"
        by (simp only: job_of_insert [OF i])
      with assms(3) dl rows_okD(2) [OF assms(1), of k' y] show ?thesis
        by (auto simp: row_ok_def budget_def split: if_splits)
    qed
    with schema_insert [OF rows_okD(1) [OF assms(1)] i, of x] have "rows_ok ?d" by (simp add: rows_ok_def)
    with none assms(3) show ?thesis
      unfolding moves_def job_of_insert [OF i] by (auto intro: life.intros)
  qed
  with CreateJob_db [of p job] assms(2) show ?thesis by (auto simp: insertable_def)
qed

subsection \<open>What the queues may hold\<close>

definition members :: "'r redis \<Rightarrow> 'r rconn \<Rightarrow> string \<Rightarrow> string set" where
  "members R c q = set (queued R c q) \<union> fst ` set (delayed R c q)"

context redis_server
begin

text \<open>The worker keys are no queue keys, so heartbeats leave the queues alone.\<close>

lemma liveness_members:
  "members R (fst (Heartbeat R c now w)) q = members R c q" "members R (fst (RemoveWorker R c w)) q = members R c q"
proof -
  have "r_srv (fst (Heartbeat R c now w)) \<in> {r_srv c, set_ex R (workerKeyPrefix @ w) (Unix now) WorkerTTL (r_now c) (r_srv c)}"
    using redis_do_srv_cases [of "\<lambda>r. (set_ex R (workerKeyPrefix @ w) (Unix now) WorkerTTL (r_now c) r, ())" c]
    by (auto simp: Heartbeat_def split: prod.splits sum.splits)
  then show "members R (fst (Heartbeat R c now w)) q = members R c q"
    by (auto simp: members_def queued_def delayed_def redis_laws)
  have "r_srv (fst (RemoveWorker R c w)) \<in> {r_srv c, fst (del R (workerKeyPrefix @ w) (r_srv c))}"
    using redis_do_srv_cases [of "del R (workerKeyPrefix @ w)" c] by (auto simp: RemoveWorker_def split: prod.splits sum.splits)
  then show "members R (fst (RemoveWorker R c w)) q = members R c q"
    by (auto simp: members_def queued_def delayed_def redis_laws)
qed

lemma Enqueue_members:
  "members R (fst (Enqueue R c q x)) q' \<subseteq> members R c q' \<union> (if q' = q then {x} else {})"
  using Enqueue_srv [of R c q x] by (auto simp: members_def queued_def delayed_def redis_laws)

lemma EnqueueDelayed_members:
  "members R (fst (EnqueueDelayed R c q x t)) q' \<subseteq> members R c q' \<union> (if q' = q then {x} else {})"
proof -
  let ?c = "fst (EnqueueDelayed R c q x t)"
  have "set (queued R ?c q') = set (queued R c q') \<and>
     fst ` set (delayed R ?c q') \<subseteq> fst ` set (delayed R c q') \<union> (if q' = q then {x} else {})"
  proof (cases "r_srv ?c = r_srv c")
    case True
    then show ?thesis by (simp add: queued_def delayed_def)
  next
    case False
    then have s: "r_srv ?c = fst (zadd R (delayedKeyPrefix @ q) (Unix t) x (r_srv c))"
      using EnqueueDelayed_srv [of R c q x t] by blast
    show ?thesis unfolding queued_def delayed_def s zrange_zadd_members lrange_zadd by simp
  qed
  then show ?thesis unfolding members_def by blast
qed

lemma PromoteDue_members: "members R (fst (PromoteDue R c q now n)) q' = members R c q'"
  using arg_cong [OF PromoteDue_conserves [of c q now n q'], of set_mset] by (simp add: members_def)

lemma unlist_members:
  "members R (fst (redis_do (lrem R (keyPrefix @ q) 0 x) c)) q' \<subseteq> members R c q'"
  "members R (fst (redis_do (zrem R (delayedKeyPrefix @ q) x) c)) q' \<subseteq> members R c q'"
  using redis_do_srv_cases [of "lrem R (keyPrefix @ q) 0 x" c] redis_do_srv_cases [of "zrem R (delayedKeyPrefix @ q) x" c]
  by (auto simp: members_def queued_def delayed_def redis_laws split: if_splits)

lemma Dequeue_members:
  assumes "qs \<noteq> []"
  shows "members R (fst (Dequeue R c qs)) q \<subseteq> members R c q"
    and "snd (Dequeue R c qs) = Inr (x, q) \<Longrightarrow> x \<in> members R c q"
proof -
  let ?b = "brpop R (map ((@) keyPrefix) qs) (r_srv c)"
  show "members R (fst (Dequeue R c qs)) q \<subseteq> members R c q"
  proof (cases "find (\<lambda>k. lrange R (r_srv c) k \<noteq> []) (map ((@) keyPrefix) qs)")
    case None
    with brpop_empty [of "map ((@) keyPrefix) qs" "r_srv c"] assms Dequeue_srv [of R c qs] show ?thesis
      by (auto simp: members_def queued_def delayed_def)
  next
    case (Some k)
    with lrange_brpop [OF Some] Dequeue_srv [of R c qs] show ?thesis
      by (auto simp: members_def queued_def delayed_def zrange_brpop dest: in_set_butlastD split: if_splits)
  qed
  assume "snd (Dequeue R c qs) = Inr (x, q)"
  then obtain key where b: "snd ?b = Some (key, x)" and q: "q = TrimPrefix key keyPrefix"
    by (auto simp: Dequeue_def Let_def split: prod.splits sum.splits option.splits dest!: redis_do_ok)
      (metis)
  show "x \<in> members R c q"
  proof (cases "find (\<lambda>k. lrange R (r_srv c) k \<noteq> []) (map ((@) keyPrefix) qs)")
    case None
    with brpop_empty [of "map ((@) keyPrefix) qs" "r_srv c"] assms b show ?thesis by simp
  next
    case (Some k)
    with brpop_key [OF Some] b have k: "key = k" "x = last (lrange R (r_srv c) k)" by auto
    from Some have "k \<in> set (map ((@) keyPrefix) qs)" "lrange R (r_srv c) k \<noteq> []"
      by (auto simp: find_Some_iff)
    with k q show ?thesis by (auto simp: members_def queued_def)
  qed
qed

end

definition named :: "uuid_pkg \<Rightarrow> db \<Rightarrow> string \<Rightarrow> string \<Rightarrow> bool" where
  "named U d q x \<longleftrightarrow> (\<exists>k j. x = uuid_String U k \<and> job_of d k = Some j \<and> job_QueueName j = q)"

definition queues_ok :: "'r wenv \<Rightarrow> 'r rconn \<Rightarrow> db \<Rightarrow> bool" where
  "queues_ok E c d \<longleftrightarrow> (\<forall>q. \<forall>x \<in> members (we_R E) c q. named (we_U E) d q x)"

fun pc_ok :: "uuid_pkg \<Rightarrow> db \<Rightarrow> pc \<Rightarrow> bool" where
  "pc_ok U d (Popped x) = (\<exists>q. named U d q x)"
| "pc_ok U d (Running job) = (job_of d (job_ID job) = Some job \<and> job_Status job = StatusProcessing)"
| "pc_ok U d (Retrying job t) = named U d (job_QueueName job) (uuid_String U (job_ID job))"
| "pc_ok U d (Persisted job) = named U d (job_QueueName job) (uuid_String U (job_ID job))"
| "pc_ok U d l = True"

definition exclusive :: "(nat \<Rightarrow> pc) \<Rightarrow> bool" where
  "exclusive l \<longleftrightarrow> (\<forall>w w' j j'. l w = Running j \<longrightarrow> l w' = Running j' \<longrightarrow> job_ID j = job_ID j' \<longrightarrow> w = w')"

definition inv :: "'r wenv \<Rightarrow> 'r sys \<Rightarrow> bool" where
  "inv E s \<longleftrightarrow> rows_ok (pg_db (sys_pg s)) \<and> queues_ok E (sys_conn s) (pg_db (sys_pg s)) \<and>
     (\<forall>w. pc_ok (we_U E) (pg_db (sys_pg s)) (sys_pc s w)) \<and> exclusive (sys_pc s)"

lemma named_row: "job_of d (job_ID j) = Some j \<Longrightarrow> named U d (job_QueueName j) (uuid_String U (job_ID j))"
  by (auto simp: named_def)

lemma moves_spec:
  "moves k d d' \<Longrightarrow> job_of d k' = Some j \<Longrightarrow> \<exists>j'. job_of d' k' = Some j' \<and> same_spec j' j"
  by (cases "k' = k") (auto simp: moves_def)

lemma named_moves:
  assumes "moves k d d'" and "named U d q x"
  shows "named U d' q x"
proof -
  from assms(2) obtain k' j where "x = uuid_String U k'" "job_of d k' = Some j" "job_QueueName j = q"
    by (auto simp: named_def)
  with moves_spec [OF assms(1), of k' j] show ?thesis
    unfolding named_def by (auto dest: same_specD(3))
qed

lemma pc_ok_moves:
  assumes "moves k d d'" and "pc_ok U d l" and "\<And>job. l = Running job \<Longrightarrow> job_ID job \<noteq> k"
  shows "pc_ok U d' l"
  using assms named_moves [OF assms(1)] by (cases l) (auto simp: moves_def)

text \<open>
  A database step of process \<open>w\<close>: the jobs stay, or the life of one job that nobody else runs
  moves on; \<open>l\<close> is where the process gets to.
\<close>

definition same_jobs :: "db \<Rightarrow> db \<Rightarrow> bool" where
  "same_jobs d d' \<longleftrightarrow> schema_ok d' \<and> jobs d' = jobs d \<and> dead_letter_queue d' = dead_letter_queue d"

definition db_act :: "'r wenv \<Rightarrow> 'r sys \<Rightarrow> nat \<Rightarrow> pg \<Rightarrow> pc \<Rightarrow> bool" where
  "db_act E s w p l \<longleftrightarrow> pc_ok (we_U E) (pg_db p) l \<and>
     (same_jobs (pg_db (sys_pg s)) (pg_db p) \<and> (\<forall>job. l \<noteq> Running job) \<or>
      (\<exists>k. moves k (pg_db (sys_pg s)) (pg_db p) \<and>
         (\<forall>w' job. w' \<noteq> w \<longrightarrow> sys_pc s w' = Running job \<longrightarrow> job_ID job \<noteq> k) \<and>
         (\<forall>job. l = Running job \<longrightarrow> job_ID job = k)))"

lemma pc_ok_same: "same_jobs d d' \<Longrightarrow> pc_ok U d' l = pc_ok U d l"
  by (cases l) (simp_all add: same_jobs_def named_def)

lemma same_jobs_refl: "rows_ok d \<Longrightarrow> same_jobs d d"
  by (simp add: same_jobs_def rows_ok_def)

lemma invD:
  assumes "inv E s"
  shows "rows_ok (pg_db (sys_pg s))" and "pc_ok (we_U E) (pg_db (sys_pg s)) (sys_pc s w)"
    and "x \<in> members (we_R E) (sys_conn s) q \<Longrightarrow> named (we_U E) (pg_db (sys_pg s)) q x"
    and "sys_pc s v = Running j \<Longrightarrow> sys_pc s v' = Running j' \<Longrightarrow> v \<noteq> v' \<Longrightarrow> job_ID j \<noteq> job_ID j'"
  using assms by (auto simp: inv_def queues_ok_def exclusive_def)

lemma inv_db_act:
  assumes "inv E s" and "db_act E s w p l"
  shows "inv E (goto w l (s\<lparr>sys_pg := p\<rparr>))"
proof -
  let ?d = "pg_db (sys_pg s)"
  have change: "same_jobs ?d (pg_db p) \<or> (\<exists>k. moves k ?d (pg_db p))"
    using assms(2) by (auto simp: db_act_def)
  have rows: "rows_ok (pg_db p)"
    using change invD(1) [OF assms(1)] by (auto simp: moves_def rows_ok_def same_jobs_def)
  have "named (we_U E) (pg_db p) q x" if "named (we_U E) ?d q x" for q x
    using change
  proof
    assume "same_jobs ?d (pg_db p)"
    with that show ?thesis by (simp add: named_def same_jobs_def)
  qed (use that named_moves in blast)
  then have q: "queues_ok E (sys_conn s) (pg_db p)"
    using assms(1) by (simp add: inv_def queues_ok_def)
  have pcs: "pc_ok (we_U E) (pg_db p) (sys_pc s w')" if "w' \<noteq> w" for w'
  proof (cases "same_jobs ?d (pg_db p)")
    case True
    with invD(2) [OF assms(1)] show ?thesis by (simp add: pc_ok_same)
  next
    case False
    with assms(2) obtain k where m: "moves k ?d (pg_db p)"
      and o: "\<forall>w' job. w' \<noteq> w \<longrightarrow> sys_pc s w' = Running job \<longrightarrow> job_ID job \<noteq> k"
      by (auto simp: db_act_def)
    show ?thesis by (rule pc_ok_moves [OF m invD(2) [OF assms(1)]]) (use o that in blast)
  qed
  have new: "job_ID job' \<noteq> job_ID job" if "l = Running job" "w' \<noteq> w" "sys_pc s w' = Running job'" for w' job job'
    using assms(2) that unfolding db_act_def by metis
  have "exclusive ((sys_pc s)(w := l))"
    unfolding exclusive_def fun_upd_apply using new invD(4) [OF assms(1)] by (metis (full_types))
  moreover have "pc_ok (we_U E) (pg_db p) l" using assms(2) by (simp add: db_act_def)
  ultimately show ?thesis using rows q pcs by (simp add: inv_def goto_def)
qed

lemma inv_redis_act:
  assumes "inv E s" and "\<And>q x. x \<in> members (we_R E) c q \<Longrightarrow> named (we_U E) (pg_db (sys_pg s)) q x"
    and "pc_ok (we_U E) (pg_db (sys_pg s)) l" and "\<And>job. l \<noteq> Running job"
  shows "inv E (goto w l (s\<lparr>sys_conn := c\<rparr>))"
  using assms by (auto simp: inv_def goto_def queues_ok_def exclusive_def)

subsection \<open>Each kind of database step\<close>

lemma nobody_runs:
  assumes "inv E s" and "\<And>j. job_of (pg_db (sys_pg s)) k = Some j \<Longrightarrow> job_Status j \<noteq> StatusProcessing"
    and "sys_pc s w' = Running job"
  shows "job_ID job \<noteq> k"
  using assms invD(2) [OF assms(1), of w'] by auto

lemma nobody_runs_pending:
  assumes "inv E s" and "claimable k (pg_db (sys_pg s))" and "sys_pc s w' = Running job"
  shows "job_ID job \<noteq> k"
  using assms(2) by (intro nobody_runs [OF assms(1) _ assms(3)]) (auto simp: claimable_def)

lemma db_act_same:
  "same_jobs (pg_db (sys_pg s)) (pg_db p) \<Longrightarrow> pc_ok (we_U E) (pg_db p) l \<Longrightarrow> (\<And>job. l \<noteq> Running job) \<Longrightarrow>
   db_act E s w p l"
  by (simp add: db_act_def)

lemma db_act_moves:
  assumes "inv E s" and "moves k (pg_db (sys_pg s)) (pg_db p)"
    and "\<And>w' job. w' \<noteq> w \<Longrightarrow> sys_pc s w' = Running job \<Longrightarrow> job_ID job \<noteq> k"
    and "pc_ok (we_U E) (pg_db p) l" and "\<And>job. l = Running job \<Longrightarrow> job_ID job = k"
  shows "db_act E s w p l"
  using assms unfolding db_act_def by blast

lemma claim_act:
  assumes "inv E s" and "ClaimJob (sys_pg s) k = (p, r)"
  shows "db_act E s w p (after r Running)"
proof -
  note rows = invD(1) [OF assms(1)]
  note m = ClaimJob_moves [OF rows assms(2)]
  show ?thesis
  proof (cases r)
    case (Inl e)
    from m(1) show ?thesis
    proof
      assume "pg_db p = pg_db (sys_pg s)"
      with rows Inl show ?thesis by (auto simp: after_def same_jobs_refl intro!: db_act_same)
    next
      assume "claimable k (pg_db (sys_pg s)) \<and> moves k (pg_db (sys_pg s)) (pg_db p)"
      with nobody_runs_pending [OF assms(1)] Inl show ?thesis
        by (intro db_act_moves [OF assms(1), of k]) (auto simp: after_def)
    qed
  next
    case (Inr job)
    with m(2) have c: "claimable k (pg_db (sys_pg s))" and j: "job_of (pg_db p) k = Some job" "job_Status job = StatusProcessing"
      by auto
    have "pg_db p \<noteq> pg_db (sys_pg s)" using c j by (auto simp: claimable_def)
    with m(1) have mv: "moves k (pg_db (sys_pg s)) (pg_db p)" by blast
    show ?thesis
      by (rule db_act_moves [OF assms(1) mv])
        (use c j nobody_runs_pending [OF assms(1) c] Inr job_of_ID [OF j(1)] in \<open>auto simp: after_def\<close>)
  qed
qed

text \<open>The owner of a running job records its outcome.\<close>

lemma owner_act:
  assumes "inv E s" and "sys_pc s w = Running job"
    and "pg_db p = pg_db (sys_pg s) \<or> moves (job_ID job) (pg_db (sys_pg s)) (pg_db p)"
    and "pc_ok (we_U E) (pg_db p) l" and "\<And>job. l \<noteq> Running job"
  shows "db_act E s w p l"
  using assms(3)
proof
  assume "pg_db p = pg_db (sys_pg s)"
  with assms same_jobs_refl [OF invD(1) [OF assms(1)]] show ?thesis by (intro db_act_same) auto
next
  assume "moves (job_ID job) (pg_db (sys_pg s)) (pg_db p)"
  then show ?thesis
    using invD(4) [OF assms(1) _ assms(2)] assms(4,5) by (intro db_act_moves [OF assms(1)]) auto
qed

lemma running_row:
  assumes "inv E s" and "sys_pc s w = Running job"
  shows "job_of (pg_db (sys_pg s)) (job_ID job) = Some job" and "job_Status job = StatusProcessing"
    and "wrap64 (job_RetryCount job + 1) = job_RetryCount job + 1"
proof -
  show r: "job_of (pg_db (sys_pg s)) (job_ID job) = Some job" "job_Status job = StatusProcessing"
    using invD(2) [OF assms(1), of w] assms(2) by auto
  show "wrap64 (job_RetryCount job + 1) = job_RetryCount job + 1"
    using row_int4 [OF rows_okD(1) [OF invD(1) [OF assms(1)]] r(1)] by simp
qed

lemma complete_act:
  assumes "inv E s" and "sys_pc s w = Running job" and "MarkCompleted (sys_pg s) (job_ID job) res = (p, r)"
  shows "db_act E s w p Idle"
  using MarkCompleted_moves [OF invD(1) [OF assms(1)] assms(3) running_row(1,2) [OF assms(1,2)]]
  by (intro owner_act [OF assms(1,2)]) auto

lemma give_up_act:
  assumes "inv E s" and "sys_pc s w = Running job" and "n = wrap64 (job_RetryCount job + 1)"
    and "n \<ge> job_MaxRetries job" and "DeadLetter (sys_pg s) (job_ID job) n m = (p, r)"
  shows "db_act E s w p Idle"
  using DeadLetter_moves [OF invD(1) [OF assms(1)] assms(5) running_row(1,2) [OF assms(1,2)]]
    running_row(3) [OF assms(1,2)] assms(3,4)
  by (intro owner_act [OF assms(1,2)]) auto

lemma try_again_act:
  assumes "inv E s" and "sys_pc s w = Running job" and "n = wrap64 (job_RetryCount job + 1)"
    and "n < job_MaxRetries job" and "MarkForRetry (sys_pg s) (job_ID job) n m = (p, r)"
  shows "db_act E s w p (after r (\<lambda>_. Retrying job t))"
proof -
  note rows = invD(1) [OF assms(1)]
  have m: "pg_db p = pg_db (sys_pg s) \<or> moves (job_ID job) (pg_db (sys_pg s)) (pg_db p)"
    using MarkForRetry_moves [OF rows assms(5) running_row(1,2) [OF assms(1,2)]]
      running_row(3) [OF assms(1,2)] assms(3,4) by auto
  have "named (we_U E) (pg_db (sys_pg s)) (job_QueueName job) (uuid_String (we_U E) (job_ID job))"
    using running_row(1) [OF assms(1,2)] by (auto simp: named_def)
  with m named_moves have "named (we_U E) (pg_db p) (job_QueueName job) (uuid_String (we_U E) (job_ID job))" by auto
  with m show ?thesis
    by (intro owner_act [OF assms(1,2)]) (auto simp: after_def split: sum.split)
qed

text \<open>Producers: a row is inserted, reset or cancelled, on a job nobody runs.\<close>

lemma idle_act:
  assumes "inv E s"
    and "pg_db p = pg_db (sys_pg s) \<or>
      ((\<forall>j. job_of (pg_db (sys_pg s)) k = Some j \<longrightarrow> job_Status j \<noteq> StatusProcessing) \<and> moves k (pg_db (sys_pg s)) (pg_db p))"
    and "pc_ok (we_U E) (pg_db p) l" and "\<And>job. l \<noteq> Running job"
  shows "db_act E s w p l"
  using assms(2)
proof
  assume "pg_db p = pg_db (sys_pg s)"
  with assms same_jobs_refl [OF invD(1) [OF assms(1)]] show ?thesis by (intro db_act_same) auto
next
  assume a: "(\<forall>j. job_of (pg_db (sys_pg s)) k = Some j \<longrightarrow> job_Status j \<noteq> StatusProcessing) \<and> moves k (pg_db (sys_pg s)) (pg_db p)"
  show ?thesis
    by (rule db_act_moves [OF assms(1)]) (use a nobody_runs [OF assms(1)] assms(3,4) in blast)+
qed

lemma persist_act:
  assumes "inv E s" and "job_Status job = []" and "CreateJob (sys_pg s) (applyDefaults fresh job) = (p, r)"
  shows "db_act E s w p (after r Persisted)"
proof -
  let ?j = "applyDefaults fresh job"
  have "pg_db p = pg_db (sys_pg s) \<or> (job_of (pg_db (sys_pg s)) (job_ID ?j) = None \<and> moves (job_ID ?j) (pg_db (sys_pg s)) (pg_db p))"
    by (rule CreateJob_moves [OF invD(1) [OF assms(1)] assms(3)]) (simp add: applyDefaults_fields assms(2))
  moreover have "pc_ok (we_U E) (pg_db p) (after r Persisted)"
  proof (cases r)
    case (Inr row)
    with CreateJob_row [of "sys_pg s" ?j p row] assms(3) have "job_of (pg_db p) (job_ID row) = Some row" by blast
    from named_row [OF this] Inr show ?thesis by (simp add: after_def)
  qed (simp add: after_def)
  ultimately show ?thesis
    by (intro idle_act [OF assms(1), of p "job_ID ?j"]) (auto simp: after_def split: sum.split)
qed

lemma retry_act:
  assumes "inv E s" and "RetryJob (sys_pg s) t k = (p, r)"
  shows "db_act E s w p (after r Persisted)"
proof -
  note rows = invD(1) [OF assms(1)]
  have "pc_ok (we_U E) (pg_db p) (after r Persisted)"
  proof (cases r)
    case (Inr job)
    from RetryJob_ok [OF rows_okD(1) [OF rows], of t k p job] assms(2) Inr
    have ok: "set_row (sys_pg s) k (\<lambda>_. True) reset = Some job" "pg_db p = reset_db (sys_pg s) k" by auto
    from ok(1) obtain j where j: "job_of (pg_db (sys_pg s)) k = Some j"
      "job = set_updated_at (pg_now (sys_pg s)) (reset j)"
      by (auto simp: set_row_def split: option.splits)
    then have "job_of (pg_db p) k = Some job" "job_ID job = k"
      using ok(2) job_of_ID [OF j(1)] by (simp_all add: job_of_reset_db)
    with Inr show ?thesis by (auto simp: after_def named_def)
  qed (simp add: after_def)
  moreover have "pg_db p = pg_db (sys_pg s) \<or> (retryable (pg_db (sys_pg s)) t k \<and> moves k (pg_db (sys_pg s)) (pg_db p))"
    by (rule RetryJob_moves [OF rows assms(2)])
  ultimately show ?thesis
    by (intro idle_act [OF assms(1), of p k]) (auto simp: retryable_def after_def split: sum.split)
qed

lemma cancel_act:
  assumes "inv E s" and "CancelJob (sys_pg s) t k = (p, r)"
  shows "db_act E s w p (after r Withdrawn)"
  using CancelJob_moves [OF invD(1) [OF assms(1)] assms(2)]
  by (intro idle_act [OF assms(1), of p k]) (auto simp: claimable_def after_def split: sum.split)

lemma win_act:
  assumes "inv E s" and "ClaimScheduleRun (sys_pg s) i e now nxt = (p, r)"
  shows "db_act E s w p (after r (\<lambda>won. if won then Won sc else Idle))"
proof -
  have sc: "schema_ok (pg_db (sys_pg s))" by (rule rows_okD(1) [OF invD(1) [OF assms(1)]])
  have "same_jobs (pg_db (sys_pg s)) (pg_db p)"
    using ClaimScheduleRun_result [OF sc, of i e now nxt] assms(2) sc
    by (auto simp: same_jobs_def advance_schema split: prod.splits if_splits)
  then show ?thesis by (intro db_act_same) (auto simp: after_def split: sum.split)
qed

lemma account_act:
  assumes "inv E s" and "account_write a (sys_pg s) = p"
  shows "db_act E s w p Idle"
proof (rule db_act_same)
  show "same_jobs (pg_db (sys_pg s)) (pg_db p)"
    using account_write_keeps [where p = "sys_pg s" and a = a] rows_okD(1) [OF invD(1) [OF assms(1)]] assms(2) by (auto simp: same_jobs_def)
qed simp_all

subsection \<open>The invariant holds throughout\<close>

lemma inv_redis_add:
  assumes "inv E s" and "\<And>q'. members (we_R E) c q' \<subseteq> members (we_R E) (sys_conn s) q' \<union> (if q' = q then {x} else {})"
    and "named (we_U E) (pg_db (sys_pg s)) q x"
  shows "inv E (goto w Idle (s\<lparr>sys_conn := c\<rparr>))"
proof (rule inv_redis_act [OF assms(1)])
  fix q' y
  assume "y \<in> members (we_R E) c q'"
  with assms(2) [of q'] have "y \<in> members (we_R E) (sys_conn s) q' \<or> (q' = q \<and> y = x)"
    by (auto split: if_splits)
  then show "named (we_U E) (pg_db (sys_pg s)) q' y" using invD(3) [OF assms(1)] assms(3) by blast
qed simp_all

lemma pop_inv:
  assumes "redis_server (we_R E)" and "inv E s"
    and "Dequeue (we_R E) (sys_conn s) qs = (c, x)" and "qs \<noteq> []"
  shows "inv E (goto w (after x (\<lambda>(y, q). Popped y)) (s\<lparr>sys_conn := c\<rparr>))"
proof -
  note m = redis_server.Dequeue_members [OF assms(1,4), of "sys_conn s", unfolded assms(3), simplified]
  note named = invD(3) [OF assms(2)]
  show ?thesis
    by (rule inv_redis_act [OF assms(2)])
      (use m(1) named in blast, use m(2) in \<open>auto simp: after_def split: sum.split dest!: named\<close>)
qed

lemma delay_inv:
  assumes "redis_server (we_R E)" and "inv E s" and "sys_pc s w = Retrying job t"
    and "EnqueueDelayed (we_R E) (sys_conn s) (job_QueueName job) (uuid_String (we_U E) (job_ID job)) t = (c, y)"
  shows "inv E (goto w Idle (s\<lparr>sys_conn := c\<rparr>))"
  using invD(2) [OF assms(2), of w] assms(3)
    redis_server.EnqueueDelayed_members [OF assms(1), of "sys_conn s" "job_QueueName job"
      "uuid_String (we_U E) (job_ID job)" t, unfolded assms(4) fst_conv]
  by (intro inv_redis_add [OF assms(2)]) simp_all

lemma push_inv:
  assumes "redis_server (we_R E)" and "inv E s" and "sys_pc s w = Persisted job"
    and "Enqueue (we_R E) (sys_conn s) (job_QueueName job) (uuid_String (we_U E) (job_ID job)) = (c, y)"
  shows "inv E (goto w Idle (s\<lparr>sys_conn := c\<rparr>))"
  using invD(2) [OF assms(2), of w] assms(3)
    redis_server.Enqueue_members [OF assms(1), of "sys_conn s" "job_QueueName job"
      "uuid_String (we_U E) (job_ID job)", unfolded assms(4) fst_conv]
  by (intro inv_redis_add [OF assms(2)]) simp_all

text \<open>Every call to the database is a \<open>db_act\<close>, and every call to Redis keeps the invariant.\<close>

lemma pg_step_act:
  assumes "inv E s" and "pg_step E cron s s'"
  shows "\<exists>w p l. s' = goto w l (s\<lparr>sys_pg := p\<rparr>) \<and> db_act E s w p l"
  using assms(2)
proof cases
  case (claim w x k p r)
  with claim_act [OF assms(1)] show ?thesis by blast
next
  case (complete w job henv result p r)
  with complete_act [OF assms(1)] show ?thesis by blast
next
  case (give_up w job henv e attempts p r)
  with give_up_act [OF assms(1)] show ?thesis by blast
next
  case (try_again w job henv e attempts b p r now)
  with try_again_act [OF assms(1)] show ?thesis by blast
next
  case (persist w job fresh p r)
  with persist_act [OF assms(1)] show ?thesis by blast
next
  case (retry w t k p r)
  with retry_act [OF assms(1)] show ?thesis by blast
next
  case (cancel w t k p r)
  with cancel_act [OF assms(1)] show ?thesis by blast
next
  case (win w sc nxt now p r)
  with win_act [OF assms(1)] show ?thesis by blast
next
  case (account w a p)
  with account_act [OF assms(1)] show ?thesis by blast
next
  case (fire w sc fresh p r)
  moreover have "job_Status (scheduled_job sc) = []" by (simp add: scheduled_job_def zero_job_def)
  ultimately show ?thesis using persist_act [OF assms(1)] by blast
qed

lemma redis_step_inv:
  assumes "redis_server (we_R E)" and "inv E s" and "redis_step E s s'"
  shows "inv E s'"
  using assms(3)
proof cases
  case (pop w qs c r)
  with pop_inv [OF assms(1,2)] show ?thesis by blast
next
  case (delay w job t c r)
  with delay_inv [OF assms(1,2)] show ?thesis by blast
next
  case (push w job c r)
  with push_inv [OF assms(1,2)] show ?thesis by blast
next
  case (unlist w job c r)
  note m = redis_server.unlist_members(1) [OF assms(1), of "job_QueueName job" "uuid_String (we_U E) (job_ID job)"
      "sys_conn s", unfolded unlist(3) fst_conv]
  show ?thesis unfolding unlist(1)
    by (rule inv_redis_act [OF assms(2)])
      (use m invD(3) [OF assms(2)] in blast, auto simp: after_def split: sum.split)
next
  case (undelay w job c r)
  note m = redis_server.unlist_members(2) [OF assms(1), of "job_QueueName job" "uuid_String (we_U E) (job_ID job)"
      "sys_conn s", unfolded undelay(3) fst_conv]
  show ?thesis unfolding undelay(1)
    by (rule inv_redis_act [OF assms(2)]) (use m invD(3) [OF assms(2)] in blast, auto)
next
  case (promote q now c r)
  note m = redis_server.PromoteDue_members [OF assms(1), of "sys_conn s" q now promoteBatch, unfolded promote(2) fst_conv]
  show ?thesis unfolding promote(1) using assms(2) by (simp add: inv_def queues_ok_def m)
next
  case (beat now wid c r)
  note m = redis_server.liveness_members(1) [OF assms(1), of "sys_conn s" now wid, unfolded beat(2) fst_conv]
  show ?thesis unfolding beat(1) using assms(2) by (simp add: inv_def queues_ok_def m)
next
  case (bye wid c r)
  note m = redis_server.liveness_members(2) [OF assms(1), of "sys_conn s" wid, unfolded bye(2) fst_conv]
  show ?thesis unfolding bye(1) using assms(2) by (simp add: inv_def queues_ok_def m)
qed

lemma step_inv:
  assumes "redis_server (we_R E)" and "inv E s" and "step E cron s s'"
  shows "inv E s'"
  using assms(3)
proof cases
  case database
  with pg_step_act [OF assms(2)] inv_db_act [OF assms(2)] show ?thesis by blast
next
  case queue
  then show ?thesis by (rule redis_step_inv [OF assms(1,2)])
next
  case (die w)
  with assms(2) show ?thesis by (auto simp: inv_def goto_def exclusive_def)
next
  case (weather t fs t' fs')
  with assms(2) show ?thesis
    by (simp add: inv_def queues_ok_def members_def queued_def delayed_def)
qed

lemma steps_inv:
  assumes "redis_server (we_R E)" and "steps E cron s s'" and "inv E s"
  shows "inv E s'"
  using assms(2,3) by (induction rule: rtranclp_induct) (auto intro: step_inv [OF assms(1)])

lemma initial_inv: "initial (we_R E) s \<Longrightarrow> inv E s"
  by (auto simp: initial_def inv_def rows_ok_def queues_ok_def members_def exclusive_def)

lemma reachable_inv: "redis_server (we_R E) \<Longrightarrow> reachable E cron s \<Longrightarrow> inv E s"
  by (auto simp: reachable_def intro: steps_inv initial_inv)

subsection \<open>The system refines the life of a job\<close>

lemma redis_step_db: "redis_step E s s' \<Longrightarrow> sys_pg s' = sys_pg s"
  by (auto simp: goto_def elim!: redis_step.cases)

lemma step_moves:
  assumes "inv E s" and "step E cron s s'"
  shows "jobs (pg_db (sys_pg s')) = jobs (pg_db (sys_pg s)) \<or> (\<exists>k. moves k (pg_db (sys_pg s)) (pg_db (sys_pg s')))"
  using assms(2)
proof cases
  case database
  with pg_step_act [OF assms(1)] obtain w p l where "s' = goto w l (s\<lparr>sys_pg := p\<rparr>)" "db_act E s w p l" by blast
  then show ?thesis by (auto simp: db_act_def same_jobs_def goto_def)
qed (auto simp: goto_def dest: redis_step_db)

lemma step_life:
  assumes "inv E s" and "step E cron s s'"
  shows "job_of (pg_db (sys_pg s')) k = job_of (pg_db (sys_pg s)) k \<or>
    (\<exists>j'. job_of (pg_db (sys_pg s')) k = Some j' \<and>
       life (budget j') (phase_in (pg_db (sys_pg s)) k) (Some (phase_of j')) \<and>
       (\<forall>j. job_of (pg_db (sys_pg s)) k = Some j \<longrightarrow> same_spec j' j))"
  using step_moves [OF assms]
proof
  assume "\<exists>i. moves i (pg_db (sys_pg s)) (pg_db (sys_pg s'))"
  then obtain i where i: "moves i (pg_db (sys_pg s)) (pg_db (sys_pg s'))" ..
  show ?thesis
  proof (cases "i = k")
    case True
    with i show ?thesis unfolding moves_def by blast
  next
    case False
    with i show ?thesis by (simp add: moves_def)
  qed
qed simp

text \<open>A completed or cancelled job is settled: its row never changes again.\<close>

definition settled :: "job \<Rightarrow> bool" where
  "settled j \<longleftrightarrow> job_Status j = StatusCompleted \<or> job_Status j = StatusCancelled"

lemma settled_phase: "settled j \<Longrightarrow> phase_of j = Succeeded \<or> phase_of j = Called_off"
  by (auto simp: settled_def phase_of_def)

lemma step_settled:
  assumes "inv E s" and "step E cron s s'" and "job_of (pg_db (sys_pg s)) k = Some j" and "settled j"
  shows "job_of (pg_db (sys_pg s')) k = Some j"
  using step_life [OF assms(1,2), of k] settled_phase [OF assms(4)] assms(3)
  by (auto elim: life_from_Succeeded life_from_Called_off)

lemma steps_settled:
  assumes "redis_server (we_R E)" and "steps E cron s s'" and "inv E s"
    and "job_of (pg_db (sys_pg s)) k = Some j" and "settled j"
  shows "job_of (pg_db (sys_pg s')) k = Some j"
  using assms(2)
proof (induction rule: rtranclp_induct)
  case base
  show ?case by (rule assms(4))
next
  case (step t u)
  have "inv E t" by (rule steps_inv [OF assms(1) step(1) assms(3)])
  from step_settled [OF this step(2) step(3) assms(5)] show ?case .
qed

end
