(* ===== verification/Paths.thy ===== *)
theory Paths
  imports System
begin

section \<open>The programs are made of the system's steps\<close>

text \<open>
  The sequential definitions of \<open>Worker\<close>, \<open>Enqueuer\<close> and \<open>Scheduler\<close>, run by process \<open>w\<close> while
  nobody else acts, are paths of the step relation. So nothing is lost by reasoning about steps.
\<close>

definition put_services :: "pg \<Rightarrow> 'r rconn \<Rightarrow> 'r sys \<Rightarrow> 'r sys" where
  "put_services p c s = s\<lparr>sys_pg := p, sys_conn := c\<rparr>"

lemma goto_simps [simp]:
  "goto w l (goto w l' s) = goto w l s" "sys_pc (goto w l s) = (sys_pc s)(w := l)"
  "sys_pg (goto w l s) = sys_pg s" "sys_conn (goto w l s) = sys_conn s"
  "(goto w l s)\<lparr>sys_pg := p\<rparr> = goto w l (s\<lparr>sys_pg := p\<rparr>)" "(goto w l s)\<lparr>sys_conn := c\<rparr> = goto w l (s\<lparr>sys_conn := c\<rparr>)"
  by (simp_all add: goto_def)

lemma sys_id [simp]: "s\<lparr>sys_pg := sys_pg s\<rparr> = s" "s\<lparr>sys_conn := sys_conn s\<rparr> = s"
  by (cases s; simp)+

lemma goto_same: "sys_pc s w = l \<Longrightarrow> goto w l s = s"
  by (cases s) (auto simp: goto_def)

lemma Persisted_path:
  assumes "sys_pc s w = Persisted job"
    and "Enqueue (we_R E) (sys_conn s) (job_QueueName job) (uuid_String (we_U E) (job_ID job)) = (c, r)"
  shows "steps E cron s (goto w Idle (s\<lparr>sys_conn := c\<rparr>))"
  using assms by (intro r_into_rtranclp step.queue redis_step.push)

lemma Submit_path:
  assumes "sys_pc s w = Idle" and "job_Status job = []"
    and "Submit (we_R E) (we_U E) fresh (sys_pg s) (sys_conn s) job = (p, c, job', r)"
  shows "steps E cron s (put_services p c s)"
proof (cases "job_TenantID job = uuid_Nil")
  case True
  with assms(3) show ?thesis by (auto simp: Submit_def applyDefaults_fields put_services_def)
next
  case False
  obtain p1 r1 where c: "CreateJob (sys_pg s) (applyDefaults fresh job) = (p1, r1)" by force
  let ?s1 = "goto w (after r1 Persisted) (s\<lparr>sys_pg := p1\<rparr>)"
  have one: "step E cron s ?s1"
    using assms(1,2) False c by (intro step.database pg_step.persist)
  show ?thesis
  proof (cases r1)
    case (Inl e)
    with assms(3) False c have "p = p1" "c = sys_conn s"
      by (auto simp: Submit_def Let_def applyDefaults_fields)
    moreover have "goto w Idle (s\<lparr>sys_pg := p1\<rparr>) = s\<lparr>sys_pg := p1\<rparr>" using assms(1) by (intro goto_same) simp
    ultimately show ?thesis
      using r_into_rtranclp [of "step E cron", OF one] Inl by (simp add: after_def put_services_def)
  next
    case (Inr job1)
    obtain c1 r2 where e: "Enqueue (we_R E) (sys_conn s) (job_QueueName job1) (uuid_String (we_U E) (job_ID job1)) = (c1, r2)"
      by force
    from assms(3) False c Inr e have pc: "p = p1" "c = c1"
      by (auto simp: Submit_def Let_def applyDefaults_fields split: sum.splits)
    have "steps E cron ?s1 (goto w Idle (?s1\<lparr>sys_conn := c1\<rparr>))"
      using Persisted_path [of ?s1 w job1 E c1 r2] Inr e by (simp add: after_def)
    moreover have "goto w Idle (s\<lparr>sys_pg := p1, sys_conn := c1\<rparr>) = s\<lparr>sys_pg := p1, sys_conn := c1\<rparr>"
      using assms(1) by (intro goto_same) simp
    ultimately show ?thesis
      using one pc by (simp add: put_services_def converse_rtranclp_into_rtranclp)
  qed
qed

text \<open>From the point where the worker holds the job to the end of \<open>handleFailure\<close>.\<close>

lemma handleFailure_path:
  assumes "sys_pc s w = Running job" and "ws_pg t = sys_pg s" and "ws_conn t = sys_conn s"
    and "Dispatch (we_f64 E) (wi_henv i) (we_registry E) (job_JobType job) (job_Payload job) = Inl e"
    and "handleFailure E i t job e = (t', r)"
  shows "steps E cron s (goto w Idle (put_services (ws_pg t') (ws_conn t') s))"
proof -
  let ?n = "wrap64 (job_RetryCount job + 1)"
  consider (dead) "?n \<ge> job_MaxRetries job" | (panic) "?n < job_MaxRetries job" "backoffFor (word_of_int ?n) = None"
    | (again) b where "?n < job_MaxRetries job" "backoffFor (word_of_int ?n) = Some b"
    by force
  then show ?thesis
  proof cases
    case dead
    obtain p u where d: "DeadLetter (sys_pg s) (job_ID job) ?n (we_Error E e) = (p, u)" by force
    with dead assms(2,3,5) have "ws_pg t' = p" "ws_conn t' = sys_conn s"
      by (auto simp: handleFailure_def Let_def split: sum.splits)
    moreover have "step E cron s (goto w Idle (s\<lparr>sys_pg := p\<rparr>))"
      by (rule step.database, rule pg_step.give_up [OF assms(1,4) refl dead d])
    ultimately show ?thesis by (auto simp: put_services_def)
  next
    case panic
    with assms(2,3,5) have "t' = t" by (simp add: handleFailure_def Let_def)
    with assms(2,3) step.die [of E cron s w] show ?thesis by (auto simp: put_services_def)
  next
    case again
    obtain p u where m: "MarkForRetry (sys_pg s) (job_ID job) ?n (we_Error E e) = (p, u)" by force
    let ?s1 = "goto w (after u (\<lambda>_. Retrying job (wi_now i + sint b))) (s\<lparr>sys_pg := p\<rparr>)"
    have one: "step E cron s ?s1"
      by (rule step.database, rule pg_step.try_again [OF assms(1,4) refl again m])
    obtain c v where d: "EnqueueDelayed (we_R E) (sys_conn s) (job_QueueName job)
        (uuid_String (we_U E) (job_ID job)) (wi_now i + sint b) = (c, v)" by force
    show ?thesis
    proof (cases u)
      case (Inl x)
      with again m assms(2,3,5) have "ws_pg t' = p" "ws_conn t' = sys_conn s"
        by (auto simp: handleFailure_def Let_def)
      with one Inl show ?thesis by (auto simp: after_def put_services_def)
    next
      case (Inr x)
      with again m d assms(2,3,5) have t': "ws_pg t' = p" "ws_conn t' = c"
        by (auto simp: handleFailure_def Let_def split: sum.splits)
      have "step E cron ?s1 (goto w Idle (?s1\<lparr>sys_conn := c\<rparr>))"
        using d by (intro step.queue redis_step.delay [where job = job and runAt = "wi_now i + sint b" and r = v])
          (simp_all add: Inr after_def)
      with one t' show ?thesis by (simp add: put_services_def)
    qed
  qed
qed

lemma process_path:
  assumes "sys_pc s w = Popped x" and "schema_ok (pg_db (sys_pg s))" and "ws_pg t = sys_pg s" and "ws_conn t = sys_conn s"
    and "process E i t x = (t', r)"
  shows "steps E cron s (goto w Idle (put_services (ws_pg t') (ws_conn t') s))"
proof (cases "uuid_Parse (we_U E) x")
  case None
  with assms(3-5) step.die [of E cron s w] show ?thesis by (auto simp: process_def put_services_def)
next
  case (Some k)
  obtain p u where c: "ClaimJob (sys_pg s) k = (p, u)" by force
  let ?s1 = "goto w (after u Running) (s\<lparr>sys_pg := p\<rparr>)"
  have one: "step E cron s ?s1" by (rule step.database, rule pg_step.claim [OF assms(1) Some c])
  show ?thesis
  proof (cases u)
    case (Inl e)
    with Some c assms(3-5) have "ws_pg t' = p" "ws_conn t' = sys_conn s"
      by (auto simp: process_def split: if_splits)
    with one Inl show ?thesis by (auto simp: after_def put_services_def)
  next
    case (Inr job)
    have k: "job_ID job = k"
      using ClaimJob_ok(1) [OF assms(2), of k p job] c Inr
      by (auto simp: set_row_def job_of_ID split: option.splits if_splits)
    let ?t1 = "t\<lparr>ws_pg := p, ws_metrics := ObserveLatency (job_JobType job) (wi_elapsed i) (ws_metrics t)\<rparr>"
    have run: "sys_pc ?s1 w = Running job" using Inr by (simp add: after_def)
    have rest: "steps E cron ?s1 (goto w Idle (put_services (ws_pg t') (ws_conn t') ?s1))"
    proof (cases "Dispatch (we_f64 E) (wi_henv i) (we_registry E) (job_JobType job) (job_Payload job)")
      case (Inl e)
      with Some c Inr assms(3-5) have h: "handleFailure E i ?t1 job e = (t', r)"
        by (simp add: process_def Let_def)
      show ?thesis by (rule handleFailure_path [OF run _ _ Inl h]) (simp_all add: assms(4))
    next
      case (Inr res)
      obtain p2 v where m: "MarkCompleted p (job_ID job) res = (p2, v)" by force
      with Some c \<open>u = Inr job\<close> Inr k assms(3-5) have t': "ws_pg t' = p2" "ws_conn t' = sys_conn s"
        by (auto simp: process_def Let_def split: sum.splits)
      have "step E cron ?s1 (goto w Idle (?s1\<lparr>sys_pg := p2\<rparr>))"
        by (rule step.database, rule pg_step.complete [OF run Inr]) (simp add: m)
      with t' show ?thesis by (auto simp: put_services_def)
    qed
    have "goto w Idle (put_services (ws_pg t') (ws_conn t') ?s1) = goto w Idle (put_services (ws_pg t') (ws_conn t') s)"
      by (simp add: put_services_def)
    with converse_rtranclp_into_rtranclp [of "step E cron", OF one rest] show ?thesis by simp
  qed
qed

lemma consume_path:
  assumes "redis_server (we_R E)" and "queues \<noteq> []"
  shows "inv E s \<Longrightarrow> sys_pc s w = Idle \<Longrightarrow> ws_pg t = sys_pg s \<Longrightarrow> ws_conn t = sys_conn s \<Longrightarrow>
    steps E cron s (put_services (ws_pg (consume E queues is t)) (ws_conn (consume E queues is t)) s)"
proof (induction "is" arbitrary: s t)
  case Nil
  then show ?case by (simp add: put_services_def)
next
  case (Cons i "is")
  obtain c r where d: "Dequeue (we_R E) (sys_conn s) queues = (c, r)" by force
  let ?s1 = "goto w (after r (\<lambda>(x, q). Popped x)) (s\<lparr>sys_conn := c\<rparr>)"
  have one: "step E cron s ?s1" by (rule step.queue, rule redis_step.pop [OF Cons.prems(2) d assms(2)])
  have inv1: "inv E ?s1" by (rule step_inv [OF assms(1) Cons.prems(1) one])
  have go_on: "steps E cron s (put_services (ws_pg (consume E queues is t2)) (ws_conn (consume E queues is t2)) s)"
    if path: "steps E cron ?s1 (goto w Idle (put_services (ws_pg t2) (ws_conn t2) s))" for t2
  proof -
    let ?s2 = "goto w Idle (put_services (ws_pg t2) (ws_conn t2) s)"
    have "inv E ?s2" by (rule steps_inv [OF assms(1) path inv1])
    from Cons.IH [OF this, of t2] have
      "steps E cron ?s2 (put_services (ws_pg (consume E queues is t2)) (ws_conn (consume E queues is t2)) ?s2)"
      by (simp add: put_services_def)
    moreover have "put_services p c' ?s2 = put_services p c' s" for p c'
      using Cons.prems(2) goto_same [of "put_services p c' s" w Idle] by (simp add: put_services_def)
    ultimately show ?thesis
      using one path by (metis (no_types, lifting) converse_rtranclp_into_rtranclp rtranclp_trans)
  qed
  show ?case
  proof (cases r)
    case (Inl e)
    have "?s1 = goto w Idle (put_services (ws_pg (t\<lparr>ws_conn := c\<rparr>)) (ws_conn (t\<lparr>ws_conn := c\<rparr>)) s)"
      using Inl Cons.prems(3) by (simp add: after_def put_services_def)
    with go_on [of "t\<lparr>ws_conn := c\<rparr>"] show ?thesis using Inl d Cons.prems(4) by simp
  next
    case (Inr xq)
    obtain x q where xq: "xq = (x, q)" by force
    obtain t2 r2 where p: "process E i (t\<lparr>ws_conn := c\<rparr>) x = (t2, r2)" by force
    have "steps E cron ?s1 (goto w Idle (put_services (ws_pg t2) (ws_conn t2) ?s1))"
      by (rule process_path [OF _ _ _ _ p])
        (use Inr xq Cons.prems(3) rows_okD(1) [OF invD(1) [OF inv1]] in \<open>simp_all add: after_def\<close>)
    then have path: "steps E cron ?s1 (goto w Idle (put_services (ws_pg t2) (ws_conn t2) s))"
      by (simp add: put_services_def)
    have idle: "goto w Idle (put_services (ws_pg t2) (ws_conn t2) s) = put_services (ws_pg t2) (ws_conn t2) s"
      using Cons.prems(2) by (intro goto_same) (simp add: put_services_def)
    show ?thesis
    proof (cases "r2 = Inl Panic")
      case True
      then have "consume E queues (i # is) t = t2" using Inr xq d p Cons.prems(4) by simp
      with idle path one show ?thesis by (simp add: converse_rtranclp_into_rtranclp)
    next
      case False
      then have "consume E queues (i # is) t = consume E queues is t2"
        using Inr xq d p Cons.prems(4) by (auto split: sum.splits process_err.splits)
      with go_on [OF path] show ?thesis by simp
    qed
  qed
qed

end
