(* ===== verification/Scenario.thy ===== *)
theory Scenario
  imports Paths
begin

section \<open>A small deployment\<close>

text \<open>
  Concrete values the theorems are applied to: two tenants, one schedule, the reference
  keyspace as Redis, one request. \<open>demo_start\<close> is the system before anything happened, \<open>demo_admitted\<close> the
  one after the request was submitted.
\<close>

definition demo_acme :: tenant where "demo_acme = \<lparr>tenant_ID = 1, tenant_Name = ''acme'', tenant_CreatedAt = 0\<rparr>"
definition demo_globex :: tenant where "demo_globex = \<lparr>tenant_ID = 2, tenant_Name = ''globex'', tenant_CreatedAt = 0\<rparr>"

definition demo_nightly :: job_schedule where
  "demo_nightly = \<lparr>sched_ID = 5, sched_TenantID = 1, sched_JobType = ''echo'', sched_Payload = Some (JObj []),
     sched_CronExpression = ''* * * * *'', sched_Enabled = True, sched_LastRunAt = None,
     sched_NextRunAt = 60 * second, sched_CreatedAt = 0\<rparr>"

definition demo_start_db :: db where
  "demo_start_db = \<lparr>jobs = [], dead_letter_queue = [], job_schedules = [demo_nightly], tenants = [demo_acme, demo_globex],
     users = [], sessions = [], api_keys = []\<rparr>"

definition demo_start_pg :: pg where
  "demo_start_pg = \<lparr>pg_db = demo_start_db, pg_now = 100 * second, pg_jsonb = Some, pg_text_ok = (\<lambda>_. True), pg_lower = ToLower (\<lambda>s. s), pg_net = []\<rparr>"

definition demo_start_conn :: "keyspace rconn" where
  "demo_start_conn = \<lparr>r_srv = empty_keyspace, r_now = 100 * second, r_net = []\<rparr>"

definition demo_request :: job where
  "demo_request = zero_job\<lparr>job_TenantID := 1, job_JobType := ''echo'', job_MaxRetries := 3\<rparr>"

definition demo_row :: job where
  "demo_row = inserted demo_start_pg (applyDefaults 7 demo_request) (JObj [])"

definition demo_admitted_pg :: pg where
  "demo_admitted_pg = demo_start_pg\<lparr>pg_db := demo_start_db\<lparr>jobs := [demo_row]\<rparr>\<rparr>"

definition demo_admitted_conn :: "keyspace rconn" where
  "demo_admitted_conn = demo_start_conn\<lparr>r_srv := fst (lpush ref_redis (keyPrefix @ ''default'') (uuid_String bits_uuid 7) empty_keyspace)\<rparr>"

definition demo_env :: "keyspace wenv" where
  "demo_env = \<lparr>we_R = ref_redis, we_U = bits_uuid, we_registry = the DefaultRegistry, we_f64 = Some, we_Error = (\<lambda>_. ''failed'')\<rparr>"

definition demo_every_minute :: cron_pkg where
  "demo_every_minute expr = (if expr = ''* * * * *'' then Some (\<lambda>now. (now div minute + 1) * minute) else None)"

definition demo_start :: "keyspace sys" where
  "demo_start = \<lparr>sys_pg = demo_start_pg, sys_conn = demo_start_conn, sys_pc = (\<lambda>_. Idle)\<rparr>"

definition demo_admitted :: "keyspace sys" where
  "demo_admitted = put_services demo_admitted_pg demo_admitted_conn demo_start"

definition demo_pass :: winput where
  "demo_pass = \<lparr>wi_henv = \<lparr>h_NewString = ''id'', h_ctx_Err = None\<rparr>, wi_elapsed = 5, wi_now = 100 * second\<rparr>"

lemmas deployment_defs = demo_acme_def demo_globex_def demo_nightly_def demo_start_db_def demo_start_pg_def
  demo_start_conn_def demo_request_def

lemma env_simps [simp]:
  "we_R demo_env = ref_redis" "we_U demo_env = bits_uuid" "we_f64 demo_env = Some" "we_Error demo_env = (\<lambda>_. ''failed'')"
  by (simp_all add: demo_env_def)

lemma start_schema: "schema_ok demo_start_db"
  by (simp add: schema_ok_def deployment_defs)

lemma row_simps [simp]:
  "job_ID demo_row = 7" "job_TenantID demo_row = 1" "job_QueueName demo_row = ''default''" "job_JobType demo_row = ''echo''"
  "job_Payload demo_row = Some (JObj [])" "job_Status demo_row = StatusPending" "job_RetryCount demo_row = 0" "job_MaxRetries demo_row = 3"
  by (simp_all add: demo_row_def inserted_def applyDefaults_fields demo_request_def zero_job_def)

lemma admitted_schema: "schema_ok (demo_start_db\<lparr>jobs := [demo_row]\<rparr>)"
  by (simp add: schema_ok_def demo_start_db_def demo_acme_def demo_globex_def demo_nightly_def int4_def)

lemma start_CreateJob: "CreateJob demo_start_pg (applyDefaults 7 demo_request) = (demo_admitted_pg, Inr demo_row)"
  by (simp add: CreateJob_def exec_healthy insert_job_def applyDefaults_fields demo_start_pg_def demo_start_db_def demo_acme_def
      demo_request_def zero_job_def int4_def demo_admitted_pg_def demo_row_def inserted_def Let_def)

lemma start_Submit:
  "Submit ref_redis bits_uuid 7 demo_start_pg demo_start_conn demo_request = (demo_admitted_pg, demo_admitted_conn, demo_row, Inr ())"
proof -
  have "job_TenantID demo_request \<noteq> uuid_Nil" by (simp add: demo_request_def)
  then show ?thesis
    by (simp add: Submit_def start_CreateJob applyDefaults_fields Enqueue_def redis_do_healthy demo_start_conn_def demo_admitted_conn_def)
qed

lemma start_initial: "initial ref_redis demo_start"
  by (simp add: initial_def demo_start_def demo_start_pg_def demo_start_conn_def start_schema empty_keyspace_def queued_def delayed_def
      ref_redis_def zset_order_def) (simp add: demo_start_db_def)

lemma admitted_reachable: "reachable demo_env cron demo_admitted"
proof -
  have st: "job_Status demo_request = []" by (simp add: demo_request_def zero_job_def)
  have "steps demo_env cron demo_start (put_services demo_admitted_pg demo_admitted_conn demo_start)"
    by (rule Submit_path [of demo_start 0 demo_request demo_env 7 demo_admitted_pg demo_admitted_conn demo_row "Inr ()"])
      (simp_all add: start_Submit demo_start_def st)
  with start_initial show ?thesis by (auto simp: reachable_def demo_admitted_def)
qed

lemma admitted_queued: "uuid_String bits_uuid 7 \<in> members ref_redis demo_admitted_conn ''default''"
  by (simp add: members_def queued_def demo_admitted_conn_def ref.lrange_lpush)

lemma admitted_simps [simp]:
  "pg_db (sys_pg demo_admitted) = demo_start_db\<lparr>jobs := [demo_row]\<rparr>" "sys_conn demo_admitted = demo_admitted_conn" "sys_pg demo_admitted = demo_admitted_pg"
  "pg_db demo_admitted_pg = demo_start_db\<lparr>jobs := [demo_row]\<rparr>" "pg_net demo_admitted_pg = []"
  by (simp_all add: demo_admitted_def put_services_def demo_admitted_pg_def demo_start_pg_def)

lemma admitted_idle: "sys_pc demo_admitted w = Idle"
  by (simp add: demo_admitted_def put_services_def demo_start_def)

lemma reachable_step: "reachable E cron s \<Longrightarrow> step E cron s s' \<Longrightarrow> reachable E cron s'"
  unfolding reachable_def by (meson rtranclp.rtrancl_into_rtrancl)

text \<open>A worker takes the id and claims the job; or the tenant cancels it first.\<close>

definition demo_popped :: "keyspace sys" where
  "demo_popped = goto 0 (Popped (uuid_String bits_uuid 7))
     (demo_admitted\<lparr>sys_conn := fst (Dequeue ref_redis demo_admitted_conn [''default''])\<rparr>)"

definition demo_running :: job where
  "demo_running = set_updated_at (100 * second) (claimed (100 * second) demo_row)"

definition demo_claimed :: "keyspace sys" where
  "demo_claimed = goto 0 (Running demo_running)
     (demo_popped\<lparr>sys_pg := demo_admitted_pg\<lparr>pg_db := put_job demo_running (demo_start_db\<lparr>jobs := [demo_row]\<rparr>)\<rparr>\<rparr>)"

definition demo_off_row :: job where
  "demo_off_row = set_updated_at (100 * second) (cancelled (100 * second) demo_row)"

definition demo_off :: "keyspace sys" where
  "demo_off = goto 0 (Withdrawn demo_off_row)
     (demo_admitted\<lparr>sys_pg := demo_admitted_pg\<lparr>pg_db := put_job demo_off_row (demo_start_db\<lparr>jobs := [demo_row]\<rparr>)\<rparr>\<rparr>)"

lemma admitted_job [simp]: "job_of (demo_start_db\<lparr>jobs := [demo_row]\<rparr>) 7 = Some demo_row"
  by simp

lemma popped_step: "step demo_env cron demo_admitted demo_popped"
proof -
  have q: "queued ref_redis demo_admitted_conn ''default'' = [uuid_String bits_uuid 7]"
    by (simp add: queued_def demo_admitted_conn_def ref.lrange_lpush) (simp add: ref_redis_def empty_keyspace_def)
  have "snd (Dequeue ref_redis demo_admitted_conn [''default'']) = Inr (uuid_String bits_uuid 7, ''default'')"
    using ref.Dequeue_some(1) [of demo_admitted_conn "[''default'']" "''default''"] q
    by (simp add: demo_admitted_conn_def demo_start_conn_def)
  then have "Dequeue (we_R demo_env) (sys_conn demo_admitted) [''default''] =
      (fst (Dequeue ref_redis demo_admitted_conn [''default'']), Inr (uuid_String bits_uuid 7, ''default''))"
    by (simp add: prod_eq_iff)
  from redis_step.pop [OF admitted_idle [of 0] this] show ?thesis
    by (auto simp: demo_popped_def after_def intro: step.queue)
qed

lemma popped_reachable: "reachable demo_env cron demo_popped"
  by (rule reachable_step [OF admitted_reachable popped_step])

lemma demo_now: "pg_now demo_admitted_pg = 100 * second"
  by (simp add: demo_admitted_pg_def demo_start_pg_def)

lemma claimed_step: "step demo_env cron demo_popped demo_claimed"
proof -
  have "ClaimJob (sys_pg demo_popped) 7 =
     (demo_admitted_pg\<lparr>pg_db := put_job demo_running (demo_start_db\<lparr>jobs := [demo_row]\<rparr>)\<rparr>, Inr demo_running)"
    using ClaimJob_pending [of demo_admitted_pg 7 demo_row] admitted_schema
    by (simp add: demo_popped_def demo_running_def demo_now)
  from pg_step.claim [OF _ _ this, of 0 "uuid_String bits_uuid 7" demo_env cron] show ?thesis
    by (auto simp: demo_claimed_def after_def demo_popped_def bits.Parse_String intro: step.database)
qed

lemma claimed_reachable: "reachable demo_env cron demo_claimed"
  by (rule reachable_step [OF popped_reachable claimed_step])

lemma claimed_running: "sys_pc demo_claimed 0 = Running demo_running" "job_ID demo_running = 7"
  by (simp_all add: demo_claimed_def demo_running_def)

lemma off_step: "step demo_env cron demo_admitted demo_off"
proof -
  have "CancelJob demo_admitted_pg 1 7 =
     (demo_admitted_pg\<lparr>pg_db := put_job demo_off_row (demo_start_db\<lparr>jobs := [demo_row]\<rparr>)\<rparr>, Inr demo_off_row)"
    using admitted_schema
    by (simp add: CancelJob_def exec_healthy cancel_stmt_eq set_job_def set_row_def demo_off_row_def demo_now)
  then have "CancelJob (sys_pg demo_admitted) 1 7 =
     (demo_admitted_pg\<lparr>pg_db := put_job demo_off_row (demo_start_db\<lparr>jobs := [demo_row]\<rparr>)\<rparr>, Inr demo_off_row)"
    by simp
  from pg_step.cancel [OF admitted_idle [of 0] this] show ?thesis
    by (auto simp: demo_off_def after_def intro: step.database)
qed

lemma off_reachable: "reachable demo_env cron demo_off"
  by (rule reachable_step [OF admitted_reachable off_step])

lemma off_row: "job_of (pg_db (sys_pg demo_off)) 7 = Some demo_off_row" "settled demo_off_row"
  by (simp_all add: demo_off_def job_of_put_job demo_off_row_def settled_def)

text \<open>A worker over the same services, and one whose only job always fails.\<close>

definition demo_worker :: "keyspace wstate" where
  "demo_worker = \<lparr>ws_pg = demo_admitted_pg, ws_conn = demo_admitted_conn, ws_metrics = NewWorker\<rparr>"

definition demo_failing :: "keyspace wstate" where
  "demo_failing = demo_worker\<lparr>ws_pg := demo_admitted_pg\<lparr>pg_db :=
     demo_start_db\<lparr>jobs := [demo_row\<lparr>job_JobType := ''always_fail''\<rparr>]\<rparr>\<rparr>\<rparr>"

lemma demo_dispatch:
  "Dispatch Some (wi_henv demo_pass) (we_registry demo_env) ''echo'' (Some (JObj [])) = Inr (JObj [])"
  by (simp add: demo_env_def DefaultRegistry_eq Dispatch_def Get_def decodePayload_def echoHandler_def)

lemma demo_always_fails: "always_fails demo_env (demo_row\<lparr>job_JobType := ''always_fail''\<rparr>) is"
  by (simp add: always_fails_def demo_env_def DefaultRegistry_eq Dispatch_def Get_def decodePayload_def alwaysFailHandler_def)

lemma demo_failing_simps:
  "schema_ok (pg_db (ws_pg demo_failing))" "healthy (ws_pg demo_failing)" "pg_text_ok (ws_pg demo_failing) x"
  "job_of (pg_db (ws_pg demo_failing)) 7 = Some (demo_row\<lparr>job_JobType := ''always_fail''\<rparr>)"
  by (simp_all add: demo_failing_def demo_admitted_pg_def demo_start_pg_def schema_ok_def demo_start_db_def
      demo_acme_def demo_globex_def demo_nightly_def int4_def)

text \<open>One retry waiting for its time.\<close>

definition demo_delayed_conn :: "keyspace rconn" where
  "demo_delayed_conn = demo_start_conn\<lparr>r_srv := empty_keyspace\<lparr>ks_zsets :=
     (\<lambda>_. [])(delayedKeyPrefix @ ''default'' := [(''a'', 120)])\<rparr>\<rparr>"

lemma demo_delayed: "delayed ref_redis demo_delayed_conn ''default'' = [(''a'', 120)]"
  by (simp add: delayed_def demo_delayed_conn_def ref_redis_def zset_order_def)

lemma demo_delayed_net: "r_net demo_delayed_conn = []"
  by (simp add: demo_delayed_conn_def demo_start_conn_def)

lemma demo_delayed_length: "length (due_at ref_redis demo_delayed_conn ''default'' T) \<le> 100"
  by (simp add: due_at_def demo_delayed)

lemma demo_fires_later: "fires_later demo_every_minute ''* * * * *'' now"
proof -
  have "now < (now div minute + 1) * minute"
    using pos_mod_bound [of minute now] div_mult_mod_eq [of now minute]
    by (simp add: minute_def second_def algebra_simps)
  then show ?thesis by (simp add: fires_later_def demo_every_minute_def)
qed

lemma demo_start_simps: "pg_db demo_start_pg = demo_start_db" "healthy demo_start_pg"
  by (simp_all add: demo_start_pg_def)

end
