(* ===== verification/Float64.thy ===== *)
theory Float64
  imports Complex_Main "HOL-Library.Log_Nat"
begin

section \<open>Go's \<open>float64\<close>\<close>

text \<open>
  The statistics are computed with \<open>float64\<close>. A finite \<open>float64\<close> is the rational it stands for, and every
  arithmetic operation is the exact result rounded once to 53 significant bits, ties to even, as IEEE 754
  and the Go specification have it. No quantity of the program comes near the largest finite value, and no
  division is by zero, so infinities and NaN do not occur.
\<close>

text \<open>The exponent of the leading bit of a positive number.\<close>

definition binade :: "rat \<Rightarrow> int" where
  "binade x =
     (let (a, b) = quotient_of x; e = int (floorlog 2 (nat a)) - int (floorlog 2 (nat b))
      in if 2 powi e \<le> x then e else e - 1)"

definition ulp :: "rat \<Rightarrow> rat" where
  "ulp x = 2 powi (max (binade x - 52) (- 1074))"

definition round_even :: "rat \<Rightarrow> int" where
  "round_even y =
     (let f = \<lfloor>y\<rfloor>; d = y - of_int f in
      if d < 1 / 2 then f else if d > 1 / 2 then f + 1 else if even f then f else f + 1)"

definition f64 :: "rat \<Rightarrow> rat" where
  "f64 x = (if x = 0 then 0 else of_int (round_even (x / ulp \<bar>x\<bar>)) * ulp \<bar>x\<bar>)"

definition f64_mult :: "rat \<Rightarrow> rat \<Rightarrow> rat" where "f64_mult x y = f64 (x * y)"
definition f64_div :: "rat \<Rightarrow> rat \<Rightarrow> rat" where "f64_div x y = f64 (x / y)"
definition f64_of_int :: "int \<Rightarrow> rat" where "f64_of_int n = f64 (of_int n)"

text \<open>\<open>math.Round\<close>: to the nearest integer, halves away from zero; \<open>math.Pow 10\<close> of a small natural number.\<close>

definition math_Round :: "rat \<Rightarrow> rat" where
  "math_Round x = sgn x * of_int \<lfloor>\<bar>x\<bar> + 1 / 2\<rfloor>"

definition math_Pow10 :: "nat \<Rightarrow> rat" where
  "math_Pow10 n = f64 (10 ^ n)"

subsection \<open>Rounding stays close and keeps bounds\<close>

lemma binade_bounds:
  assumes "0 < x"
  shows "2 powi binade x \<le> x" and "x < 2 powi (binade x + 1)"
proof -
  obtain a b where q: "quotient_of x = (a, b)" by force
  have b: "0 < b" using quotient_of_denom_pos [OF q] .
  have x: "x = of_int a / of_int b" using quotient_of_div [OF q] .
  with assms b have a: "0 < a" by (simp add: zero_less_divide_iff)
  let ?m = "floorlog 2 (nat a)" and ?n = "floorlog 2 (nat b)"
  have pos: "0 < ?m" "0 < ?n" using a b by (simp_all add: floorlog_eq_zero_iff zero_less_iff_neq_zero)
  have fl: "2 ^ (floorlog 2 (nat k) - 1) \<le> (of_int k :: rat) \<and> of_int k < (2 :: rat) ^ floorlog 2 (nat k)" if "0 < k" for k
  proof -
    have "2 ^ (floorlog 2 (nat k) - 1) \<le> k \<and> k < 2 ^ floorlog 2 (nat k)"
      using floorlog_bounds [of "nat k" 2] that by (simp add: nat_less_iff le_nat_iff)
    then have "(of_int (2 ^ (floorlog 2 (nat k) - 1)) :: rat) \<le> of_int k \<and> (of_int k :: rat) < of_int (2 ^ floorlog 2 (nat k))"
      by (simp only: of_int_le_iff of_int_less_iff)
    then show ?thesis by simp
  qed
  have p1: "(2 :: rat) ^ (k - 1) = 2 powi (int k - 1)" if "0 < k" for k
    using that by (simp add: power_int_def nat_diff_distrib')
  have up: "x < 2 powi (int ?m - int ?n + 1)"
  proof -
    have "x < 2 ^ ?m / 2 ^ (?n - 1)"
      unfolding x using fl [OF a] fl [OF b] a b by (intro frac_less) auto
    also have "\<dots> = 2 powi (int ?m - int ?n + 1)"
      using p1 [OF pos(2)] by (simp add: power_int_diff power_int_add field_simps)
    finally show ?thesis .
  qed
  have low: "2 powi (int ?m - int ?n - 1) \<le> x"
  proof -
    have "(2 :: rat) powi (int ?m - int ?n - 1) = 2 ^ (?m - 1) / 2 ^ ?n"
      using p1 [OF pos(1)] by (simp add: power_int_diff power_int_add field_simps)
    also have "\<dots> \<le> x"
      unfolding x using fl [OF a] fl [OF b] a b by (intro frac_le) auto
    finally show ?thesis .
  qed
  show "2 powi binade x \<le> x" using low by (simp add: binade_def q Let_def)
  show "x < 2 powi (binade x + 1)" using up by (simp add: binade_def q Let_def not_le)
qed

lemma binade_le: "0 < x \<Longrightarrow> x < 2 powi k \<Longrightarrow> binade x < k"
proof (rule ccontr)
  assume "0 < x" "x < 2 powi k" "\<not> binade x < k"
  then have "(2 :: rat) powi k \<le> 2 powi binade x" by (intro power_int_increasing) auto
  with binade_bounds(1) [OF \<open>0 < x\<close>] \<open>x < 2 powi k\<close> show False by linarith
qed

lemma ulp_pos [simp]: "0 < ulp x" "ulp x \<noteq> 0" "0 \<le> ulp x"
  by (simp_all add: ulp_def)

lemma ulp_le: "0 < x \<Longrightarrow> x < 2 powi k \<Longrightarrow> - 1022 < k \<Longrightarrow> ulp x \<le> 2 powi (k - 53)"
  using binade_le [of x k] by (auto simp: ulp_def intro!: power_int_increasing)

lemma round_even_close: "\<bar>of_int (round_even y) - y\<bar> \<le> 1 / 2"
proof -
  have "of_int \<lfloor>y\<rfloor> \<le> y" "y < of_int \<lfloor>y\<rfloor> + 1" using floor_correct [of y] by auto
  then show ?thesis by (simp add: round_even_def Let_def abs_if; linarith)
qed

lemma round_even_of_int [simp]: "round_even (of_int n) = n"
  by (simp add: round_even_def)

lemma round_even_le: "y \<le> of_int n \<Longrightarrow> round_even y \<le> n"
proof (cases "y = of_int n")
  case False
  assume "y \<le> of_int n"
  with False have "\<lfloor>y\<rfloor> < n" by (simp add: floor_less_iff)
  then show ?thesis by (auto simp: round_even_def Let_def)
qed simp

lemma round_even_ge: "of_int n \<le> y \<Longrightarrow> n \<le> round_even y"
proof -
  assume "of_int n \<le> y"
  then have "n \<le> \<lfloor>y\<rfloor>" by (simp add: le_floor_iff)
  then show ?thesis by (auto simp: round_even_def Let_def)
qed

text \<open>The error of one rounding: half a unit in the last place.\<close>

lemma f64_close: "\<bar>f64 x - x\<bar> \<le> ulp \<bar>x\<bar> / 2"
proof (cases "x = 0")
  case False
  let ?u = "ulp \<bar>x\<bar>"
  have "f64 x - x = (of_int (round_even (x / ?u)) - x / ?u) * ?u"
    using False by (simp add: f64_def algebra_simps)
  then have "\<bar>f64 x - x\<bar> = \<bar>of_int (round_even (x / ?u)) - x / ?u\<bar> * ?u"
    by (simp add: abs_mult)
  also have "\<dots> \<le> 1 / 2 * ?u" by (rule mult_right_mono [OF round_even_close]) simp
  finally show ?thesis by simp
qed (simp add: f64_def less_imp_le)

lemma f64_close_below:
  assumes "\<bar>x\<bar> < 2 powi k" and "- 1022 < k"
  shows "\<bar>f64 x - x\<bar> \<le> 2 powi (k - 54)"
proof (cases "x = 0")
  case False
  with assms have "ulp \<bar>x\<bar> \<le> 2 powi (k - 53)" by (intro ulp_le) auto
  moreover have "(2 :: rat) powi (k - 54) = 2 powi (k - 53) / 2"
    using power_int_diff [of "2 :: rat" "k - 53" 1] by (simp add: algebra_simps)
  ultimately show ?thesis using f64_close [of x] by simp
qed (simp add: f64_def)

lemma f64_close_pow: "0 \<le> x \<Longrightarrow> x < 2 ^ k \<Longrightarrow> \<bar>f64 x - x\<bar> \<le> 2 ^ k / 2 ^ 54"
  using f64_close_below [of x "int k"] by (simp add: power_int_diff)

text \<open>Integers of up to 53 bits are exact, and rounding never crosses one.\<close>

lemma ulp_inverse_int:
  assumes "0 < x" and "x < 2 ^ 53"
  obtains k :: nat where "ulp x = 1 / 2 ^ k"
proof -
  have "ulp x = 2 powi (max (binade x - 52) (- 1074))" by (simp add: ulp_def)
  moreover have "max (binade x - 52) (- 1074) \<le> 0" using binade_le [of x 53] assms by simp
  then obtain k where "max (binade x - 52) (- 1074) = - int k" by (metis nonpos_int_cases)
  ultimately have "ulp x = 1 / 2 ^ k" by (simp add: power_int_minus inverse_eq_divide)
  then show ?thesis by (rule that)
qed

lemma f64_le_int_pos:
  assumes "0 < x" and "x \<le> of_int n" and "n < 2 ^ 53"
  shows "f64 x \<le> of_int n"
proof -
  have "(of_int n :: rat) < of_int (2 ^ 53)" using assms(3) by (simp only: of_int_less_iff)
  then have "x < 2 ^ 53" using assms(2) by simp
  then obtain k where k: "ulp x = 1 / 2 ^ k" using ulp_inverse_int assms(1) by blast
  have "x / ulp x \<le> of_int n / ulp x" using assms(2) by (simp add: divide_right_mono less_imp_le)
  also have "\<dots> = of_int (n * 2 ^ k)" using k by (simp add: field_simps)
  finally have "round_even (x / ulp x) \<le> n * 2 ^ k" by (rule round_even_le)
  then have "(of_int (round_even (x / ulp x)) :: rat) \<le> of_int (n * 2 ^ k)" by (simp only: of_int_le_iff)
  then have "of_int (round_even (x / ulp x)) * ulp x \<le> of_int (n * 2 ^ k) * ulp x" by (simp add: mult_right_mono less_imp_le)
  also have "\<dots> = of_int n" using k by (simp add: field_simps)
  finally show ?thesis using assms(1) by (simp add: f64_def)
qed

lemma f64_le_int: "0 \<le> x \<Longrightarrow> x \<le> of_int n \<Longrightarrow> n < 2 ^ 53 \<Longrightarrow> f64 x \<le> of_int n"
  using f64_le_int_pos [of x n] by (cases "x = 0") (auto simp: f64_def)

lemma f64_nonneg: "0 \<le> x \<Longrightarrow> 0 \<le> f64 x"
  using round_even_ge [of 0 "x / ulp x"] by (auto simp: f64_def less_imp_le)

lemma f64_int: "0 \<le> n \<Longrightarrow> n < 2 ^ 53 \<Longrightarrow> f64 (of_int n) = of_int n"
proof (cases "n = 0")
  case False
  assume "0 \<le> n" "n < 2 ^ 53"
  moreover have "(of_int n :: rat) < of_int (2 ^ 53)" using \<open>n < 2 ^ 53\<close> by (simp only: of_int_less_iff)
  ultimately obtain k where k: "ulp (of_int n) = 1 / 2 ^ k" using ulp_inverse_int [of "of_int n"] False by auto
  have "of_int n / ulp (of_int n) = (of_int (n * 2 ^ k) :: rat)" using k by (simp add: field_simps)
  then have "round_even (of_int n / ulp (of_int n)) = n * 2 ^ k" by (simp only: round_even_of_int)
  then show ?thesis using \<open>0 \<le> n\<close> False k by (simp add: f64_def)
qed (simp add: f64_def)

lemma math_Round_nonneg: "0 \<le> x \<Longrightarrow> math_Round x = of_int \<lfloor>x + 1 / 2\<rfloor>"
proof (cases "x = 0")
  case True
  then show ?thesis by (simp add: math_Round_def) (simp add: floor_eq_iff)
qed (simp add: math_Round_def)

lemma math_Round_close: "0 \<le> x \<Longrightarrow> \<bar>math_Round x - x\<bar> \<le> 1 / 2"
proof -
  assume "0 \<le> x"
  moreover have "of_int \<lfloor>x + 1 / 2\<rfloor> \<le> x + 1 / 2" "x + 1 / 2 < of_int \<lfloor>x + 1 / 2\<rfloor> + 1"
    using floor_correct [of "x + 1 / 2"] by auto
  ultimately show ?thesis by (simp add: math_Round_nonneg abs_if; linarith)
qed

end
