(* ===== verification/Http.thy ===== *)
theory Http
  imports Enqueuer Float64
begin

section \<open>Requests, responses and the request context\<close>

text \<open>
  \<^verbatim>\<open>src/internal/handlers/respond.go\<close>, \<^verbatim>\<open>tenant.go\<close> and \<^verbatim>\<open>params.go\<close>. A request is what the handlers read
  of an \<open>*http.Request\<close>: the parsed query, the path parameter \<open>id\<close>, the first JSON value of the body,
  the \<open>Authorization\<close> header, the cookies, and the two context values the middleware sets. A response is
  the status, the cookies set, and the Go value handed to the JSON encoder (\<open>Wire\<close> encodes it). A handler maps the two
  services and a request to the two services and a response.
\<close>

record request =
  rq_Method :: string
  rq_Query :: "(string \<times> string) list"
  rq_Param_id :: string
  rq_Body :: "json option"
  rq_Authorization :: string
  rq_Cookies :: "(string \<times> string) list"
  rq_tenant :: "uuid option"
  rq_user :: "user option"

record cookie =
  ck_Name :: string
  ck_Value :: string
  ck_Path :: string
  ck_Expires :: "time option"
  ck_MaxAge :: int
  ck_HttpOnly :: bool
  ck_Secure :: bool
  ck_SameSiteLax :: bool

record jobListResponse =
  jl_Jobs :: "job list"
  jl_Total :: int
  jl_Limit :: int
  jl_Offset :: int

record createKeyResponse =
  ckr_ID :: uuid
  ckr_Name :: string
  ckr_Key :: string
  ckr_KeyPrefix :: string
  ckr_CreatedAt :: time

record queueDepth =
  qd_Queue :: string
  qd_Depth :: int
  qd_Delayed :: int

record statsResponse =
  sr_Queues :: "queueDepth list"
  sr_ProcessingRatePerMin :: int
  sr_AvgLatencyMs :: rat
  sr_FailureRate :: rat
  sr_ActiveWorkers :: int

record dashboardResponse =
  dr_TotalsByStatus :: "(string \<times> int) list"
  dr_JobsToday :: int
  dr_RecentJobs :: "job list"

text \<open>The messages of \<open>parseListParams\<close>; the second carries the offending value.\<close>

datatype param_err =
    Queue_too_long
  | Invalid_status string "string list"
  | Limit_not_integer
  | Limit_out_of_range
  | Offset_not_integer
  | Offset_negative

datatype body =
    No_body
  | Error_body string
  | Param_error_body param_err
  | Job_body job
  | Job_list_body jobListResponse
  | User_body user
  | Me_body user tenant
  | Key_body createKeyResponse
  | Key_list_body "api_key list"
  | Stats_body statsResponse
  | Dashboard_body dashboardResponse
  | Health_body "(string \<times> string) list"

record response =
  rs_Status :: int
  rs_Cookies :: "cookie list"
  rs_Body :: body

definition writeJSON :: "int \<Rightarrow> body \<Rightarrow> response" where
  "writeJSON status v = \<lparr>rs_Status = status, rs_Cookies = [], rs_Body = v\<rparr>"

definition writeError :: "int \<Rightarrow> string \<Rightarrow> response" where
  "writeError status msg = writeJSON status (Error_body msg)"

text \<open>\<open>w.WriteHeader(status)\<close> alone: an answer without a body.\<close>

definition writeHeader :: "int \<Rightarrow> response" where
  "writeHeader status = \<lparr>rs_Status = status, rs_Cookies = [], rs_Body = No_body\<rparr>"

type_synonym 'r handler = "pg \<Rightarrow> 'r rconn \<Rightarrow> request \<Rightarrow> pg \<times> 'r rconn \<times> response"

lemma write_simps [simp]:
  "rs_Status (writeJSON s v) = s" "rs_Body (writeJSON s v) = v" "rs_Cookies (writeJSON s v) = []"
  "rs_Status (writeError s m) = s" "rs_Body (writeError s m) = Error_body m" "rs_Cookies (writeError s m) = []"
  "rs_Status (writeHeader s) = s" "rs_Body (writeHeader s) = No_body" "rs_Cookies (writeHeader s) = []"
  by (simp_all add: writeJSON_def writeError_def writeHeader_def)

lemma write_inject [simp]:
  "writeJSON s v = writeJSON s' v' \<longleftrightarrow> s = s' \<and> v = v'" "writeError s m = writeError s' m' \<longleftrightarrow> s = s' \<and> m = m'"
  "writeJSON s v = writeError s' m' \<longleftrightarrow> s = s' \<and> v = Error_body m'" "writeHeader s \<noteq> writeError s' m'" "writeError s' m' \<noteq> writeHeader s"
  by (auto simp: writeJSON_def writeError_def writeHeader_def)

subsection \<open>tenant.go\<close>

definition WithTenant :: "request \<Rightarrow> uuid \<Rightarrow> request" where
  "WithTenant r t = r\<lparr>rq_tenant := Some t\<rparr>"

definition WithUser :: "request \<Rightarrow> user \<Rightarrow> request" where
  "WithUser r u = r\<lparr>rq_user := Some u\<rparr>"

definition tenantFromContext :: "request \<Rightarrow> uuid option" where
  "tenantFromContext r = rq_tenant r"

definition userFromContext :: "request \<Rightarrow> user option" where
  "userFromContext r = rq_user r"

text \<open>\<open>tenantID\<close> and \<open>user\<close> answer the request themselves (\<open>Inl\<close>) when the middleware did not run.\<close>

definition tenantID :: "request \<Rightarrow> response + uuid" where
  "tenantID r =
     (case tenantFromContext r of
        None \<Rightarrow> Inl (writeError 500 ''no tenant in request context'')
      | Some t \<Rightarrow> Inr t)"

definition context_user :: "request \<Rightarrow> response + user" where
  "context_user r =
     (case userFromContext r of
        None \<Rightarrow> Inl (writeError 500 ''no user in request context'')
      | Some u \<Rightarrow> Inr u)"

lemma tenantID_cases:
  obtains (absent) "rq_tenant r = None" "tenantID r = Inl (writeError 500 ''no tenant in request context'')"
  | (present) t where "rq_tenant r = Some t" "tenantID r = Inr t"
  by (cases "rq_tenant r") (auto simp: tenantID_def tenantFromContext_def)

subsection \<open>params.go\<close>

definition defaultListLimit :: int where "defaultListLimit = 20"
definition maxListLimit :: int where "maxListLimit = 100"
definition maxQueueNameLen :: int where "maxQueueNameLen = 100"

record listParams =
  lp_Queue :: string
  lp_Status :: string
  lp_Limit :: int
  lp_Offset :: int

fun statusNames_loop :: "Status list \<Rightarrow> string list" where
  "statusNames_loop [] = []"
| "statusNames_loop (s # ss) = s # statusNames_loop ss"

definition statusNames :: "string list" where
  "statusNames = statusNames_loop AllStatuses"

text \<open>The four optional parameters, each read by one \<open>if\<close> of \<open>parseListParams\<close>.\<close>

definition parse_queue :: "string \<Rightarrow> listParams \<Rightarrow> param_err + listParams" where
  "parse_queue v p =
     (if v = [] then Inr p
      else if int (length v) > maxQueueNameLen then Inl Queue_too_long
      else Inr (p\<lparr>lp_Queue := v\<rparr>))"

definition parse_status :: "string \<Rightarrow> listParams \<Rightarrow> param_err + listParams" where
  "parse_status v p =
     (if v = [] then Inr p
      else if \<not> Valid v then Inl (Invalid_status v statusNames)
      else Inr (p\<lparr>lp_Status := v\<rparr>))"

definition parse_limit :: "string \<Rightarrow> listParams \<Rightarrow> param_err + listParams" where
  "parse_limit v p =
     (if v = [] then Inr p
      else case Atoi v of
        None \<Rightarrow> Inl Limit_not_integer
      | Some n \<Rightarrow> if n < 1 \<or> n > maxListLimit then Inl Limit_out_of_range else Inr (p\<lparr>lp_Limit := n\<rparr>))"

definition parse_offset :: "string \<Rightarrow> listParams \<Rightarrow> param_err + listParams" where
  "parse_offset v p =
     (if v = [] then Inr p
      else case Atoi v of
        None \<Rightarrow> Inl Offset_not_integer
      | Some n \<Rightarrow> if n < 0 then Inl Offset_negative else Inr (p\<lparr>lp_Offset := n\<rparr>))"

fun and_then :: "'e + 'a \<Rightarrow> ('a \<Rightarrow> 'e + 'b) \<Rightarrow> 'e + 'b" where
  "and_then (Inl e) k = Inl e"
| "and_then (Inr a) k = k a"

definition parseListParams :: "request \<Rightarrow> param_err + listParams" where
  "parseListParams r =
     (let q = rq_Query r; p = \<lparr>lp_Queue = [], lp_Status = [], lp_Limit = defaultListLimit, lp_Offset = 0\<rparr> in
      and_then (parse_queue (query_Get q ''queue'') p) (\<lambda>p.
      and_then (parse_status (query_Get q ''status'') p) (\<lambda>p.
      and_then (parse_limit (query_Get q ''limit'') p) (\<lambda>p.
      parse_offset (query_Get q ''offset'') p))))"

text \<open>What gets past the validation.\<close>

definition params_ok :: "listParams \<Rightarrow> bool" where
  "params_ok p \<longleftrightarrow> int (length (lp_Queue p)) \<le> maxQueueNameLen \<and> (lp_Status p = [] \<or> Valid (lp_Status p)) \<and>
     1 \<le> lp_Limit p \<and> lp_Limit p \<le> maxListLimit \<and> 0 \<le> lp_Offset p \<and> lp_Offset p < 2 ^ 63"

lemma and_then_Inr: "and_then x k = Inr b \<longleftrightarrow> (\<exists>a. x = Inr a \<and> k a = Inr b)"
  by (cases x) auto

lemma parse_ok:
  "parse_queue v p = Inr p' \<Longrightarrow> params_ok p \<Longrightarrow> params_ok p'"
  "parse_status v p = Inr p' \<Longrightarrow> params_ok p \<Longrightarrow> params_ok p'"
  "parse_limit v p = Inr p' \<Longrightarrow> params_ok p \<Longrightarrow> params_ok p'"
  "parse_offset v p = Inr p' \<Longrightarrow> params_ok p \<Longrightarrow> params_ok p'"
  by (auto simp: parse_queue_def parse_status_def parse_limit_def parse_offset_def params_ok_def
      dest: Atoi_bounds split: if_splits option.splits)

lemma parseListParams_ok: "parseListParams r = Inr p \<Longrightarrow> params_ok p"
proof -
  assume a: "parseListParams r = Inr p"
  have "params_ok \<lparr>lp_Queue = [], lp_Status = [], lp_Limit = defaultListLimit, lp_Offset = 0\<rparr>"
    by (simp add: params_ok_def defaultListLimit_def maxListLimit_def maxQueueNameLen_def)
  with a show ?thesis by (auto simp: parseListParams_def Let_def and_then_Inr)
      (rule parse_ok(4), assumption, rule parse_ok(3), assumption, rule parse_ok(2), assumption, rule parse_ok(1))
qed

lemma statusNames_eq: "statusNames = AllStatuses"
proof -
  have "statusNames_loop ss = ss" for ss by (induction ss) simp_all
  then show ?thesis by (simp add: statusNames_def)
qed

end
