(* ===== verification/JobsApi.thy ===== *)
theory JobsApi
  imports Http
begin

section \<open>The job endpoints\<close>

text \<open>
  \<^verbatim>\<open>src/internal/handlers/jobs.go\<close>: one definition per handler, with every early return. The handlers take
  the Redis server \<open>R\<close> and the UUID package \<open>U\<close>; \<open>fresh\<close> is what \<open>uuid.New\<close> returns in this request.
\<close>

record enqueueRequest =
  er_QueueName :: string
  er_JobType :: string
  er_Payload :: raw_message
  er_MaxRetries :: "int option"

definition zero_enqueueRequest :: enqueueRequest where
  "zero_enqueueRequest = \<lparr>er_QueueName = [], er_JobType = [], er_Payload = None, er_MaxRetries = None\<rparr>"

definition enqueueRequest_fields :: "(string \<times> enqueueRequest setter) list" where
  "enqueueRequest_fields =
     [(''queue_name'', set_string (\<lambda>v q. q\<lparr>er_QueueName := v\<rparr>)),
      (''job_type'', set_string (\<lambda>v q. q\<lparr>er_JobType := v\<rparr>)),
      (''payload'', set_raw (\<lambda>v q. q\<lparr>er_Payload := v\<rparr>)),
      (''max_retries'', set_int_ptr (\<lambda>v q. q\<lparr>er_MaxRetries := v\<rparr>))]"

definition listJobs :: "'r handler" where
  "listJobs p c r =
     (case tenantID r of
        Inl rs \<Rightarrow> (p, c, rs)
      | Inr t \<Rightarrow>
          (case parseListParams r of
             Inl e \<Rightarrow> (p, c, writeJSON 400 (Param_error_body e))
           | Inr lp \<Rightarrow>
               (case ListJobs p t \<lparr>jf_Queue = lp_Queue lp, jf_Status = lp_Status lp,
                    jf_Limit = lp_Limit lp, jf_Offset = lp_Offset lp\<rparr> of
                  (p', Inl e) \<Rightarrow> (p', c, writeError 500 ''failed to list jobs'')
                | (p', Inr (js, tot)) \<Rightarrow>
                    (p', c, writeJSON 200 (Job_list_body \<lparr>jl_Jobs = js, jl_Total = tot,
                       jl_Limit = lp_Limit lp, jl_Offset = lp_Offset lp\<rparr>)))))"

definition requested_job :: "uuid \<Rightarrow> enqueueRequest \<Rightarrow> job" where
  "requested_job t req =
     (let maxRetries = (case er_MaxRetries req of None \<Rightarrow> DefaultMaxRetries | Some n \<Rightarrow> n)
      in zero_job\<lparr>job_TenantID := t, job_QueueName := er_QueueName req, job_JobType := er_JobType req,
           job_Payload := er_Payload req, job_MaxRetries := maxRetries\<rparr>)"

definition enqueueJob :: "'r redis \<Rightarrow> uuid_pkg \<Rightarrow> uuid \<Rightarrow> 'r handler" where
  "enqueueJob R U fresh p c r =
     (case tenantID r of
        Inl rs \<Rightarrow> (p, c, rs)
      | Inr t \<Rightarrow>
          (case decode_struct enqueueRequest_fields zero_enqueueRequest (rq_Body r) of
             None \<Rightarrow> (p, c, writeError 400 ''invalid JSON body'')
           | Some req \<Rightarrow>
               if er_JobType req = [] then (p, c, writeError 400 ''job_type is required'')
               else
                 (case Submit R U fresh p c (requested_job t req) of
                    (p', c', job, Inl (ErrEnqueueAfterPersist e)) \<Rightarrow>
                      (p', c', writeError 500 ''job persisted but failed to enqueue'')
                  | (p', c', job, Inl e) \<Rightarrow> (p', c', writeError 500 ''failed to persist job'')
                  | (p', c', job, Inr _) \<Rightarrow> (p', c', writeJSON 202 (Job_body job)))))"

definition getJob :: "uuid_pkg \<Rightarrow> 'r handler" where
  "getJob U p c r =
     (case tenantID r of
        Inl rs \<Rightarrow> (p, c, rs)
      | Inr t \<Rightarrow>
          (case uuid_Parse U (rq_Param_id r) of
             None \<Rightarrow> (p, c, writeError 400 ''invalid job id'')
           | Some k \<Rightarrow>
               (case GetJob p t k of
                  (p', Inl ErrJobNotFound) \<Rightarrow> (p', c, writeError 404 ''job not found'')
                | (p', Inl e) \<Rightarrow> (p', c, writeError 500 ''failed to load job'')
                | (p', Inr job) \<Rightarrow> (p', c, writeJSON 200 (Job_body job)))))"

definition retryJob :: "'r redis \<Rightarrow> uuid_pkg \<Rightarrow> 'r handler" where
  "retryJob R U p c r =
     (case tenantID r of
        Inl rs \<Rightarrow> (p, c, rs)
      | Inr t \<Rightarrow>
          (case uuid_Parse U (rq_Param_id r) of
             None \<Rightarrow> (p, c, writeError 400 ''invalid job id'')
           | Some k \<Rightarrow>
               (case RetryJob p t k of
                  (p', Inl ErrJobNotFound) \<Rightarrow> (p', c, writeError 404 ''job not found'')
                | (p', Inl ErrJobNotRetryable) \<Rightarrow> (p', c, writeError 409 ''only failed jobs can be retried'')
                | (p', Inl e) \<Rightarrow> (p', c, writeError 500 ''failed to retry job'')
                | (p', Inr job) \<Rightarrow>
                    (case Enqueue R c (job_QueueName job) (uuid_String U (job_ID job)) of
                       (c', Inl e) \<Rightarrow> (p', c', writeError 500 ''job reset but failed to re-enqueue'')
                     | (c', Inr _) \<Rightarrow> (p', c', writeJSON 200 (Job_body job))))))"

definition cancelJob :: "'r redis \<Rightarrow> uuid_pkg \<Rightarrow> 'r handler" where
  "cancelJob R U p c r =
     (case tenantID r of
        Inl rs \<Rightarrow> (p, c, rs)
      | Inr t \<Rightarrow>
          (case uuid_Parse U (rq_Param_id r) of
             None \<Rightarrow> (p, c, writeError 400 ''invalid job id'')
           | Some k \<Rightarrow>
               (case CancelJob p t k of
                  (p', Inl ErrJobNotFound) \<Rightarrow> (p', c, writeError 404 ''job not found'')
                | (p', Inl ErrJobNotCancellable) \<Rightarrow> (p', c, writeError 409 ''only pending jobs can be cancelled'')
                | (p', Inl e) \<Rightarrow> (p', c, writeError 500 ''failed to cancel job'')
                | (p', Inr job) \<Rightarrow>
                    (case Remove R c (job_QueueName job) (uuid_String U (job_ID job)) of
                       (c', _) \<Rightarrow> (p', c', writeJSON 200 (Job_body job))))))"

subsection \<open>What every tenant endpoint promises\<close>

text \<open>
  The contract of an endpoint behind the authentication middleware: it refuses to run without a tenant,
  keeps the schema and the account tables, leaves the rows of other tenants alone and shows only jobs of
  the caller.
\<close>

fun body_jobs :: "body \<Rightarrow> job list" where
  "body_jobs (Job_body j) = [j]"
| "body_jobs (Job_list_body l) = jl_Jobs l"
| "body_jobs (Dashboard_body d) = dr_RecentJobs d"
| "body_jobs _ = []"

definition accounts :: "db \<Rightarrow> tenant list \<times> user list \<times> session_row list \<times> api_key list" where
  "accounts d = (tenants d, users d, sessions d, api_keys d)"

lemma body_jobs_writeError [simp]: "body_jobs (rs_Body (writeError s m)) = []"
  by simp

lemma accounts_put_job [simp]: "accounts (put_job j d) = accounts d"
  by (simp add: accounts_def put_job_def)

lemma accounts_fields [simp]:
  "accounts (d\<lparr>jobs := x\<rparr>) = accounts d" "accounts (d\<lparr>dead_letter_queue := y\<rparr>) = accounts d"
  by (simp_all add: accounts_def)

lemma accounts_set_job [simp]: "accounts (set_job p k w f) = accounts (pg_db p)"
  by (simp add: set_job_def split: option.split)

lemma accounts_reset_db [simp]: "accounts (reset_db p k) = accounts (pg_db p)"
  by (simp add: reset_db_def)

lemma tenant_call_accounts:
  "schema_ok (pg_db p) \<Longrightarrow> accounts (pg_db (fst (tenant_call f p t k))) = accounts (pg_db p)"
  using CancelJob_db [of p t k] RetryJob_db [of p t k] by (cases f) auto

lemma ListJobs_db: "pg_db (fst (ListJobs p t f)) = pg_db p"
proof -
  have c: "pg_db (fst (exec (count_stmt t f) q)) = pg_db q" for q
    using exec_db_cases [of "count_stmt t f" q] by (auto simp: count_stmt_def split: if_splits)
  have l: "pg_db (fst (exec (page_stmt t f) q)) = pg_db q" for q
    using exec_db_cases [of "page_stmt t f" q] by (auto simp: page_stmt_def split: if_splits)
  show ?thesis
    using c [of p] l [of "fst (exec (count_stmt t f) p)"] by (auto simp: ListJobs_def split: prod.splits sum.splits)
qed

lemma ListJobs_own:
  assumes "ListJobs p t f = (p', Inr (js, n))" and "j \<in> set js"
  shows "job_TenantID j = t"
proof -
  from assms(1) obtain q p2 where "exec (page_stmt t f) q = (p2, Inr js)"
    by (auto simp: ListJobs_def split: prod.splits sum.splits)
  from exec_ok [OF this] assms(2) have "list_where t f j"
    by (auto simp: page_stmt_def split: if_splits dest!: in_set_takeD in_set_dropD)
  then show ?thesis by (simp add: list_where_def list_conds_def)
qed

lemma Submit_others:
  assumes "Submit R U fresh p c job = (p', c', job', r)" and "t' \<noteq> job_TenantID job"
  shows "own t' (pg_db p') = own t' (pg_db p)"
proof (cases "pg_db p' = pg_db p")
  case False
  with Submit_db [OF assms(1)] obtain payload where
    i: "insertable (pg_db p) (applyDefaults fresh job)"
    "pg_db p' = (pg_db p)\<lparr>jobs := jobs (pg_db p) @ [inserted p (applyDefaults fresh job) payload]\<rparr>" by blast
  with assms(2) show ?thesis
    by (auto simp: own_def insertable_def row_by_append applyDefaults_fields fun_eq_iff split: option.splits)
qed simp

lemma Submit_accounts:
  "Submit R U fresh p c job = (p', c', job', r) \<Longrightarrow> accounts (pg_db p') = accounts (pg_db p)"
  by (drule Submit_db) auto

lemma Submit_schema:
  assumes "Submit R U fresh p c job = (p', c', job', r)" and "schema_ok (pg_db p)"
  shows "schema_ok (pg_db p')"
  using Submit_db [OF assms(1)] assms(2) schema_insert by auto

text \<open>No call changes how the server reads texts.\<close>

definition same_texts :: "pg \<Rightarrow> pg \<Rightarrow> bool" where
  "same_texts p q \<longleftrightarrow> pg_text_ok p = pg_text_ok q \<and> pg_lower p = pg_lower q"

lemma same_texts_refl [simp]: "same_texts p p"
  by (simp add: same_texts_def)

lemma same_texts_trans: "same_texts p q \<Longrightarrow> same_texts q s \<Longrightarrow> same_texts p s"
  by (simp add: same_texts_def)

lemma same_texts_exec: "exec s p = (p', res) \<Longrightarrow> same_texts p' p"
  by (auto simp: same_texts_def exec_def Let_def split: prod.splits fault.splits sum.splits)

lemma same_texts_tx:
  "tx_begin p = (p', res) \<Longrightarrow> same_texts p' p" "tx_exec s w p = (p', res') \<Longrightarrow> same_texts p' p"
  "tx_commit w p = (p', res'') \<Longrightarrow> same_texts p' p"
  by (auto simp: tx_begin_def tx_commit_def tx_exec_def Let_def same_texts_def dest!: same_texts_exec split: prod.splits if_splits)

lemmas same_texts_calls = same_texts_exec same_texts_tx

lemma same_texts_store:
  "tenant_call f p t k = (p', res) \<Longrightarrow> same_texts p' p" "ListJobs p t g = (p', res') \<Longrightarrow> same_texts p' p"
  "Submit R U fresh p c job = (p', c', job', res'') \<Longrightarrow> same_texts p' p"
proof goal_cases
  case 1
  then show ?case
    by (cases f; auto simp: GetJob_def CancelJob_def jobExists_def RetryJob_def retry_tx_def
        split: prod.splits sum.splits option.splits bool.splits if_splits dest!: same_texts_calls; simp add: same_texts_def)
next
  case 2
  then show ?case
    by (auto simp: ListJobs_def split: prod.splits sum.splits dest!: same_texts_exec intro: same_texts_trans)
next
  case 3
  then show ?case
    by (auto simp: Submit_def CreateJob_def Let_def split: prod.splits sum.splits if_splits dest!: same_texts_exec)
qed

locale tenant_endpoint =
  fixes serve :: "pg \<Rightarrow> 'r rconn \<Rightarrow> request \<Rightarrow> pg \<times> 'r rconn \<times> response"
  assumes no_tenant: "rq_tenant r = None \<Longrightarrow> \<exists>rs. serve p c r = (p, c, rs) \<and> rs_Status rs = 500"
    and keeps_schema: "schema_ok (pg_db p) \<Longrightarrow> serve p c r = (p', c', rs) \<Longrightarrow> schema_ok (pg_db p')"
    and keeps_accounts: "schema_ok (pg_db p) \<Longrightarrow> serve p c r = (p', c', rs) \<Longrightarrow> accounts (pg_db p') = accounts (pg_db p)"
    and keeps_texts: "serve p c r = (p', c', rs) \<Longrightarrow> same_texts p' p"
    and others_kept: "schema_ok (pg_db p) \<Longrightarrow> serve p c r = (p', c', rs) \<Longrightarrow> rq_tenant r = Some t \<Longrightarrow> t' \<noteq> t \<Longrightarrow>
      own t' (pg_db p') = own t' (pg_db p)"
    and own_jobs: "schema_ok (pg_db p) \<Longrightarrow> serve p c r = (p', c', rs) \<Longrightarrow> rq_tenant r = Some t \<Longrightarrow>
      j \<in> set (body_jobs (rs_Body rs)) \<Longrightarrow> job_TenantID j = t"

datatype job_route = GET_jobs | POST_enqueue | GET_job | POST_retry | POST_cancel

fun job_handler :: "'r redis \<Rightarrow> uuid_pkg \<Rightarrow> uuid \<Rightarrow> job_route \<Rightarrow> 'r handler" where
  "job_handler R U fresh GET_jobs = listJobs"
| "job_handler R U fresh POST_enqueue = enqueueJob R U fresh"
| "job_handler R U fresh GET_job = getJob U"
| "job_handler R U fresh POST_retry = retryJob R U"
| "job_handler R U fresh POST_cancel = cancelJob R U"

text \<open>Each handler either leaves the database alone, or runs one store call for the caller's tenant.\<close>

lemma handler_calls:
  assumes "job_handler R U fresh route p c r = (p', c', rs)" and "rq_tenant r = Some t"
  obtains (quiet) "pg_db p' = pg_db p" "same_texts p' p" "\<And>j. j \<in> set (body_jobs (rs_Body rs)) \<Longrightarrow> job_TenantID j = t"
  | (call) f k res where "tenant_call f p t k = (p', res)" "\<And>j. j \<in> set (body_jobs (rs_Body rs)) \<Longrightarrow> res = Inr j"
  | (submit) req job' res where "Submit R U fresh p c (requested_job t req) = (p', c', job', res)"
      "\<And>j. j \<in> set (body_jobs (rs_Body rs)) \<Longrightarrow> res = Inr () \<and> j = job'"
proof -
  have t: "tenantID r = Inr t" using assms(2) by (simp add: tenantID_def tenantFromContext_def)
  have tc: thesis if "uuid_Parse U (rq_Param_id r) = None \<Longrightarrow> p' = p \<and> body_jobs (rs_Body rs) = []"
    and "\<And>k q res. uuid_Parse U (rq_Param_id r) = Some k \<Longrightarrow> tenant_call f p t k = (q, res) \<Longrightarrow>
      q = p' \<and> (\<forall>j \<in> set (body_jobs (rs_Body rs)). res = Inr j)" for f
  proof (cases "uuid_Parse U (rq_Param_id r)")
    case None
    with that show ?thesis by (intro quiet) auto
  next
    case (Some k)
    obtain q res where q: "tenant_call f p t k = (q, res)" by force
    with that(2) [OF Some q] show ?thesis by (intro call [of f k res]) auto
  qed
  show thesis
  proof (cases route)
    case GET_jobs
    then show ?thesis
      using assms(1) t ListJobs_db ListJobs_own
      by (intro quiet) (auto simp: listJobs_def intro: same_texts_store split: sum.splits prod.splits; metis fst_conv)+
  next
    case POST_enqueue
    show ?thesis
    proof (cases "decode_struct enqueueRequest_fields zero_enqueueRequest (rq_Body r)")
      case None
      with POST_enqueue assms(1) t show ?thesis by (intro quiet) (auto simp: enqueueJob_def)
    next
      case (Some req)
      obtain q d job' res where s: "Submit R U fresh p c (requested_job t req) = (q, d, job', res)" by (metis prod.collapse)
      show ?thesis
      proof (cases "er_JobType req = []")
        case True
        with Some POST_enqueue assms(1) t show ?thesis by (intro quiet) (auto simp: enqueueJob_def)
      next
        case False
        with Some POST_enqueue assms(1) t s show ?thesis
          by (intro submit [of req job' res]) (auto simp: enqueueJob_def split: sum.splits submit_err.splits)
      qed
    qed
  next
    case GET_job
    with assms(1) t show ?thesis
      by (intro tc [of Op_get]) (auto simp: getJob_def split: sum.splits store_err.splits)
  next
    case POST_retry
    with assms(1) t show ?thesis
      by (intro tc [of Op_retry]) (auto simp: retryJob_def split: sum.splits store_err.splits prod.splits)
  next
    case POST_cancel
    with assms(1) t show ?thesis
      by (intro tc [of Op_cancel]) (auto simp: cancelJob_def split: sum.splits store_err.splits prod.splits)
  qed
qed

lemma handler_no_tenant:
  assumes "rq_tenant r = None"
  shows "job_handler R U fresh route p c r = (p, c, writeError 500 ''no tenant in request context'')"
proof -
  have "tenantID r = Inl (writeError 500 ''no tenant in request context'')"
    using assms by (simp add: tenantID_def tenantFromContext_def)
  then show ?thesis
    by (cases route) (simp_all add: listJobs_def enqueueJob_def getJob_def retryJob_def cancelJob_def)
qed

interpretation job_api: tenant_endpoint "job_handler R U fresh route"
proof (unfold_locales, goal_cases)
  case (1 r p c)
  then show ?case by (simp add: handler_no_tenant)
next
  case (2 p c r p' c' rs)
  show ?case
  proof (cases "rq_tenant r")
    case None
    with 2 show ?thesis by (simp add: handler_no_tenant)
  next
    case (Some t)
    from 2(2) Some show ?thesis
    proof (cases rule: handler_calls)
      case quiet
      with 2(1) show ?thesis by simp
    next
      case (call f k res)
      with api.keeps_schema [OF 2(1), of f t k] show ?thesis by simp
    next
      case (submit req job' res)
      with 2(1) show ?thesis by (auto intro: Submit_schema)
    qed
  qed
next
  case (3 p c r p' c' rs)
  show ?case
  proof (cases "rq_tenant r")
    case None
    with 3 show ?thesis by (simp add: handler_no_tenant)
  next
    case (Some t)
    from 3(2) Some show ?thesis
    proof (cases rule: handler_calls)
      case quiet
      then show ?thesis by simp
    next
      case (call f k res)
      with tenant_call_accounts [OF 3(1), of f t k] show ?thesis by simp
    next
      case (submit req job' res)
      show ?thesis by (rule Submit_accounts [OF submit(1)])
    qed
  qed
next
  case (4 p c r p' c' rs)
  show ?case
  proof (cases "rq_tenant r")
    case None
    with 4 show ?thesis by (simp add: handler_no_tenant)
  next
    case (Some t)
    from 4 Some show ?thesis by (cases rule: handler_calls) (auto intro: same_texts_store)
  qed
next
  case (5 p c r p' c' rs t t')
  from 5(2,3) show ?case
  proof (cases rule: handler_calls)
    case quiet
    then show ?thesis by simp
  next
    case (call f k res)
    with api.others_kept [OF 5(1,4), of f k] show ?thesis by simp
  next
    case (submit req job' res)
    with 5(4) show ?thesis by (intro Submit_others [OF submit(1)]) (simp add: requested_job_def Let_def)
  qed
next
  case (6 p c r p' c' rs t j)
  from 6(2,3) show ?case
  proof (cases rule: handler_calls)
    case quiet
    with 6(4) show ?thesis by blast
  next
    case (call f k res)
    then have "snd (tenant_call f p t k) = Inr j" using 6(4) by simp
    with api.answer_own [OF 6(1)] show ?thesis by blast
  next
    case (submit req job' res)
    with 6(4) have "res = Inr ()" "j = job'" by blast+
    with Submit_ok(1) [OF submit(1)] show ?thesis by (auto simp: applyDefaults_fields requested_job_def Let_def)
  qed
qed

end
