(* ===== verification/Admin.thy ===== *)
theory Admin
  imports JobsApi "HOL-Library.AList"
begin

section \<open>Statistics for the dashboard\<close>

text \<open>
  \<^verbatim>\<open>src/internal/store/stats.go\<close>, \<^verbatim>\<open>src/internal/handlers/admin.go\<close> and the health check of
  \<^verbatim>\<open>src/internal/handlers/handlers.go\<close>. Two functions of the database server are parameters: the
  start of the day of its time zone, and the average of a column of durations as \<open>pgx\<close> reads it into a
  \<open>float64\<close>.
\<close>

record pg_aggregates =
  date_trunc_day :: "time \<Rightarrow> time"
  avg_epoch :: "time list \<Rightarrow> rat"

subsection \<open>stats.go\<close>

record Metrics =
  mt_CompletedLastMinute :: int
  mt_CompletedLastHour :: int
  mt_FailedLastHour :: int
  mt_AvgLatencySeconds :: rat

text \<open>\<open>status = s AND completed_at >= since\<close>; a comparison with \<open>NULL\<close> is not true.\<close>

definition ended_since :: "Status \<Rightarrow> time \<Rightarrow> job \<Rightarrow> bool" where
  "ended_since s since j =
     (job_Status j = s \<and> (case job_CompletedAt j of None \<Rightarrow> False | Some t \<Rightarrow> since \<le> t))"

text \<open>\<open>completed_at - started_at\<close> of the rows where both are set.\<close>

definition run_time :: "job \<Rightarrow> time option" where
  "run_time j =
     (case (job_StartedAt j, job_CompletedAt j) of (Some a, Some b) \<Rightarrow> Some (b - a) | _ \<Rightarrow> None)"

definition metrics_stmt :: "pg_aggregates \<Rightarrow> uuid \<Rightarrow> Metrics stmt" where
  "metrics_stmt G tid p =
     (let rows = filter (\<lambda>j. job_TenantID j = tid) (jobs (pg_db p));
          count = (\<lambda>w. int (length (filter w rows)));
          latencies = List.map_filter run_time (filter (ended_since StatusCompleted (pg_now p - hour)) rows)
      in Inr (pg_db p,
           \<lparr>mt_CompletedLastMinute = count (ended_since StatusCompleted (pg_now p - minute)),
            mt_CompletedLastHour = count (ended_since StatusCompleted (pg_now p - hour)),
            mt_FailedLastHour = count (ended_since StatusFailed (pg_now p - hour)),
            mt_AvgLatencySeconds = (if latencies = [] then 0 else avg_epoch G latencies)\<rparr>))"

definition JobMetrics :: "pg_aggregates \<Rightarrow> pg \<Rightarrow> uuid \<Rightarrow> pg \<times> (store_err + Metrics)" where
  "JobMetrics G p tid =
     (case exec (metrics_stmt G tid) p of
        (p', Inl e) \<Rightarrow> (p', Inl (Wrapped ''job metrics'' e))
      | (p', Inr m) \<Rightarrow> (p', Inr m))"

text \<open>One row per status the tenant has; \<open>GROUP BY\<close> promises no order.\<close>

definition status_stmt :: "pg_aggregates \<Rightarrow> uuid \<Rightarrow> (Status \<times> int \<times> int) list stmt" where
  "status_stmt G tid p =
     (let rows = filter (\<lambda>j. job_TenantID j = tid) (jobs (pg_db p)) in
      Inr (pg_db p, map (\<lambda>st. (st, int (length (filter (\<lambda>j. job_Status j = st) rows)),
             int (length (filter (\<lambda>j. job_Status j = st \<and> date_trunc_day G (pg_now p) \<le> job_CreatedAt j) rows))))
           (remdups (map job_Status rows))))"

fun count_rows :: "(Status \<times> int \<times> int) list \<Rightarrow> (Status \<rightharpoonup> int) \<Rightarrow> int \<Rightarrow> (Status \<rightharpoonup> int) \<times> int" where
  "count_rows [] counts today = (counts, today)"
| "count_rows ((st, n, t) # rows) counts today = count_rows rows (counts(st \<mapsto> n)) (today + t)"

definition StatusCounts :: "pg_aggregates \<Rightarrow> pg \<Rightarrow> uuid \<Rightarrow> pg \<times> (store_err + (Status \<rightharpoonup> int) \<times> int)" where
  "StatusCounts G p tid =
     (case exec (status_stmt G tid) p of
        (p', Inl e) \<Rightarrow> (p', Inl (Wrapped ''status counts'' e))
      | (p', Inr rows) \<Rightarrow> (p', Inr (count_rows rows Map.empty 0)))"

subsection \<open>admin.go\<close>

definition recentJobsLimit :: int where "recentJobsLimit = 10"

text \<open>The two nested loops of \<open>mergeUnique\<close>, and the same in \<open>mergeQueues\<close> of \<^verbatim>\<open>src/cmd/api/metrics.go\<close>.\<close>

fun merge_values :: "string list \<Rightarrow> string set \<times> string list \<Rightarrow> string set \<times> string list" where
  "merge_values [] (seen, out) = (seen, out)"
| "merge_values (v # vs) (seen, out) =
     merge_values vs (if v \<noteq> [] \<and> v \<notin> seen then (insert v seen, out @ [v]) else (seen, out))"

fun merge_lists :: "string list list \<Rightarrow> string set \<times> string list \<Rightarrow> string set \<times> string list" where
  "merge_lists [] acc = acc"
| "merge_lists (l # ls) acc = merge_lists ls (merge_values l acc)"

definition mergeUnique :: "string list \<Rightarrow> string list \<Rightarrow> string list" where
  "mergeUnique a b = sort (snd (merge_lists [a, b] ({}, [])))"

definition round_places :: "rat \<Rightarrow> nat \<Rightarrow> rat" where
  "round_places f places =
     (let pow = math_Pow10 places in f64_div (math_Round (f64_mult f pow)) pow)"

text \<open>The loop over the queues; the error is the message of the 500.\<close>

fun queue_depths :: "'r redis \<Rightarrow> string list \<Rightarrow> queueDepth list \<Rightarrow> 'r rconn \<Rightarrow> 'r rconn \<times> (string + queueDepth list)" where
  "queue_depths R [] depths c = (c, Inr depths)"
| "queue_depths R (name # names) depths c =
     (case Len R c name of
        (c', Inl e) \<Rightarrow> (c', Inl ''failed to read queue depth'')
      | (c', Inr depth) \<Rightarrow>
          (case DelayedLen R c' name of
             (c'', Inl e) \<Rightarrow> (c'', Inl ''failed to read delayed depth'')
           | (c'', Inr later) \<Rightarrow>
               queue_depths R names (depths @ [\<lparr>qd_Queue = name, qd_Depth = depth, qd_Delayed = later\<rparr>]) c''))"

definition failure_rate :: "Metrics \<Rightarrow> rat" where
  "failure_rate m =
     (let terminal = mt_CompletedLastHour m + mt_FailedLastHour m in
      if terminal > 0 then f64_div (f64_of_int (mt_FailedLastHour m)) (f64_of_int terminal) else 0)"

definition stats_response :: "queueDepth list \<Rightarrow> Metrics \<Rightarrow> int \<Rightarrow> statsResponse" where
  "stats_response depths m workers =
     \<lparr>sr_Queues = depths, sr_ProcessingRatePerMin = mt_CompletedLastMinute m,
      sr_AvgLatencyMs = round_places (f64_mult (mt_AvgLatencySeconds m) 1000) 2,
      sr_FailureRate = round_places (failure_rate m) 4, sr_ActiveWorkers = workers\<rparr>"

text \<open>
  A worker scan that never ends (a server that never returns cursor 0) means no answer at all: the status
  is 0 then, which no handler writes.
\<close>

definition no_response :: response where
  "no_response = \<lparr>rs_Status = 0, rs_Cookies = [], rs_Body = No_body\<rparr>"

definition stats :: "'r redis \<Rightarrow> pg_aggregates \<Rightarrow> string list \<Rightarrow> 'r handler" where
  "stats R G queues p c r =
     (case tenantID r of
        Inl rs \<Rightarrow> (p, c, rs)
      | Inr t \<Rightarrow>
          (case QueueNames p t of
             (p1, Inl e) \<Rightarrow> (p1, c, writeError 500 ''failed to load queues'')
           | (p1, Inr dbQueues) \<Rightarrow>
               (case queue_depths R (mergeUnique queues dbQueues) [] c of
                  (c1, Inl msg) \<Rightarrow> (p1, c1, writeError 500 msg)
                | (c1, Inr depths) \<Rightarrow>
                    (case JobMetrics G p1 t of
                       (p2, Inl e) \<Rightarrow> (p2, c1, writeError 500 ''failed to load metrics'')
                     | (p2, Inr m) \<Rightarrow>
                         (case CountActiveWorkers R c1 of
                            None \<Rightarrow> (p2, c1, no_response)
                          | Some (c2, Inl e) \<Rightarrow> (p2, c2, writeError 500 ''failed to count workers'')
                          | Some (c2, Inr workers) \<Rightarrow>
                              (p2, c2, writeJSON 200 (Stats_body (stats_response depths m workers))))))))"

text \<open>The Go maps of the answers are association lists; reading an absent key of \<open>counts\<close> gives zero.\<close>

fun fill_totals :: "Status list \<Rightarrow> (Status \<rightharpoonup> int) \<Rightarrow> (string \<times> int) list \<Rightarrow> (string \<times> int) list" where
  "fill_totals [] counts totals = totals"
| "fill_totals (st # sts) counts totals =
     fill_totals sts counts (AList.update st (case counts st of None \<Rightarrow> 0 | Some n \<Rightarrow> n) totals)"

definition dashboard :: "pg_aggregates \<Rightarrow> 'r handler" where
  "dashboard G p c r =
     (case tenantID r of
        Inl rs \<Rightarrow> (p, c, rs)
      | Inr t \<Rightarrow>
          (case StatusCounts G p t of
             (p1, Inl e) \<Rightarrow> (p1, c, writeError 500 ''failed to load status counts'')
           | (p1, Inr (counts, today)) \<Rightarrow>
               (case ListJobs p1 t \<lparr>jf_Queue = [], jf_Status = [], jf_Limit = recentJobsLimit, jf_Offset = 0\<rparr> of
                  (p2, Inl e) \<Rightarrow> (p2, c, writeError 500 ''failed to load recent jobs'')
                | (p2, Inr (recent, _)) \<Rightarrow>
                    (p2, c, writeJSON 200 (Dashboard_body \<lparr>dr_TotalsByStatus = fill_totals AllStatuses counts [],
                       dr_JobsToday = today, dr_RecentJobs = recent\<rparr>)))))"

subsection \<open>health\<close>

definition Store_Ping :: "pg \<Rightarrow> pg \<times> (pgerr + unit)" where
  "Store_Ping p = exec (\<lambda>q. Inr (pg_db q, ())) p"

definition Queue_Ping :: "'r rconn \<Rightarrow> 'r rconn \<times> (redis_err + unit)" where
  "Queue_Ping c = redis_do (\<lambda>r. (r, ())) c"

definition health :: "'r handler" where
  "health p c r =
     (let resp = [(''status'', ''ok''), (''postgres'', ''ok''), (''redis'', ''ok'')] in
      case Store_Ping p of (p', a) \<Rightarrow>
      case Queue_Ping c of (c', b) \<Rightarrow>
      let (resp, code) = (case a of
              Inl _ \<Rightarrow> (AList.update ''status'' ''degraded'' (AList.update ''postgres'' ''down'' resp), 503)
            | Inr _ \<Rightarrow> (resp, 200));
          (resp, code) = (case b of
              Inl _ \<Rightarrow> (AList.update ''status'' ''degraded'' (AList.update ''redis'' ''down'' resp), 503)
            | Inr _ \<Rightarrow> (resp, code))
      in (p', c', writeJSON code (Health_body resp)))"

subsection \<open>Reading changes nothing\<close>

definition quiet :: "'a stmt \<Rightarrow> bool" where
  "quiet s \<longleftrightarrow> (\<forall>p d a. s p = Inr (d, a) \<longrightarrow> d = pg_db p)"

lemma quiet_stmts [simp]:
  "quiet (metrics_stmt G t)" "quiet (status_stmt G t)" "quiet (queue_names_stmt w)" "quiet (\<lambda>q. Inr (pg_db q, x))"
  by (auto simp: quiet_def metrics_stmt_def status_stmt_def queue_names_stmt_def Let_def)

lemma quiet_exec: "quiet s \<Longrightarrow> exec s p = (p', res) \<Longrightarrow> pg_db p' = pg_db p"
  using exec_db_cases [of s p] by (auto simp: quiet_def)

lemma stats_calls:
  "QueueNames p t = (p', q) \<Longrightarrow> pg_db p' = pg_db p \<and> same_texts p' p"
  "AllQueueNames p = (p', q) \<Longrightarrow> pg_db p' = pg_db p \<and> same_texts p' p"
  "JobMetrics G p t = (p', m) \<Longrightarrow> pg_db p' = pg_db p \<and> same_texts p' p"
  "StatusCounts G p t = (p', n) \<Longrightarrow> pg_db p' = pg_db p \<and> same_texts p' p"
  "Store_Ping p = (p', u) \<Longrightarrow> pg_db p' = pg_db p \<and> same_texts p' p"
  by (auto simp: QueueNames_def AllQueueNames_def scanQueueNames_def JobMetrics_def StatusCounts_def Store_Ping_def
      split: prod.splits sum.splits dest: quiet_exec [rotated] same_texts_exec)

lemma ListJobs_calls: "ListJobs p t f = (p', x) \<Longrightarrow> pg_db p' = pg_db p \<and> same_texts p' p"
  using ListJobs_db [of p t f] same_texts_store(2) by auto

text \<open>Both endpoints behave like the job endpoints towards tenants: the same contract holds of them.\<close>

datatype admin_route = GET_stats | GET_dashboard

fun admin_handler :: "'r redis \<Rightarrow> pg_aggregates \<Rightarrow> string list \<Rightarrow> admin_route \<Rightarrow> 'r handler" where
  "admin_handler R G queues GET_stats = stats R G queues"
| "admin_handler R G queues GET_dashboard = dashboard G"

lemma admin_reads:
  assumes "admin_handler R G queues route p c r = (p', c', rs)"
  shows "pg_db p' = pg_db p \<and> same_texts p' p"
proof (cases route)
  case GET_stats
  with assms show ?thesis
    by (auto simp: stats_def split: sum.splits prod.splits option.splits dest!: stats_calls intro: same_texts_trans)
next
  case GET_dashboard
  with assms show ?thesis
    by (auto simp: dashboard_def split: sum.splits prod.splits dest!: stats_calls ListJobs_calls intro: same_texts_trans)
qed

lemma admin_own:
  assumes "admin_handler R G queues route p c r = (p', c', rs)" and "rq_tenant r = Some t" and "j \<in> set (body_jobs (rs_Body rs))"
  shows "job_TenantID j = t"
proof (cases route)
  case GET_stats
  with assms show ?thesis
    by (auto simp: stats_def no_response_def tenantID_def tenantFromContext_def split: sum.splits prod.splits option.splits)
next
  case GET_dashboard
  with assms show ?thesis
    by (auto simp: dashboard_def tenantID_def tenantFromContext_def split: sum.splits prod.splits dest: ListJobs_own)
qed

interpretation admin_api: tenant_endpoint "admin_handler R G queues route"
proof (unfold_locales, goal_cases)
  case (1 r p c)
  then show ?case by (cases route) (auto simp: stats_def dashboard_def tenantID_def tenantFromContext_def)
qed (use admin_reads admin_own in \<open>fastforce+\<close>)

subsection \<open>What the numbers mean\<close>

lemma merge_values_spec:
  "distinct out \<Longrightarrow> \<exists>out'. merge_values vs (set out, out) = (set out', out') \<and> distinct out' \<and> set out' = set out \<union> (set vs - {[]})"
proof (induction vs arbitrary: out)
  case (Cons v vs)
  show ?case
  proof (cases "v \<noteq> [] \<and> v \<notin> set out")
    case True
    with Cons.IH [of "out @ [v]"] Cons.prems show ?thesis by auto
  qed (use Cons.IH [of out] Cons.prems in auto)
qed simp

lemma merge_lists_spec:
  "distinct out \<Longrightarrow> \<exists>out'. merge_lists ls (set out, out) = (set out', out') \<and> distinct out' \<and>
     set out' = set out \<union> (\<Union> (set ` set ls) - {[]})"
proof (induction ls arbitrary: out)
  case (Cons l ls)
  obtain o1 where m: "merge_values l (set out, out) = (set o1, o1)" "distinct o1" "set o1 = set out \<union> (set l - {[]})"
    using merge_values_spec [OF Cons.prems] by blast
  from Cons.IH [OF m(2)] m show ?case by auto
qed simp

lemma mergeUnique_spec:
  "sorted (mergeUnique a b)" "distinct (mergeUnique a b)" "set (mergeUnique a b) = set a \<union> set b - {[]}"
proof -
  obtain out where m: "merge_lists [a, b] ({}, []) = (set out, out)" "distinct out" "set out = set a \<union> set b - {[]}"
    using merge_lists_spec [of "[]" "[a, b]"] by auto
  then show "distinct (mergeUnique a b)" "set (mergeUnique a b) = set a \<union> set b - {[]}"
    by (simp_all add: mergeUnique_def del: merge_lists.simps)
qed (simp add: mergeUnique_def del: merge_lists.simps)

lemma count_rows_spec:
  "distinct (map fst rows) \<Longrightarrow>
   count_rows rows counts today =
     (\<lambda>st. case map_of rows st of None \<Rightarrow> counts st | Some (n, t) \<Rightarrow> Some n, today + sum_list (map (snd \<circ> snd) rows))"
  by (induction rows counts today rule: count_rows.induct)
     (auto simp: fun_eq_iff map_of_eq_None_iff [symmetric] split: option.splits)

lemma count_rows_empty:
  "distinct (map fst rows) \<Longrightarrow>
   count_rows rows Map.empty 0 = (\<lambda>st. map_option fst (map_of rows st), sum_list (map (snd \<circ> snd) rows))"
  by (auto simp: count_rows_spec fun_eq_iff split: option.split)

lemma fill_totals_spec:
  "map_of (fill_totals sts counts totals) st =
     (if st \<in> set sts then Some (case counts st of None \<Rightarrow> 0 | Some n \<Rightarrow> n) else map_of totals st)"
  by (induction sts arbitrary: totals) (auto simp: update_conv')

text \<open>How many of a tenant's jobs satisfy a condition.\<close>

definition tenant_count :: "db \<Rightarrow> uuid \<Rightarrow> (job \<Rightarrow> bool) \<Rightarrow> int" where
  "tenant_count d t w = int (length (filter (\<lambda>j. job_TenantID j = t \<and> w j) (jobs d)))"

lemma tenant_count_eq: "int (length (filter w (filter (\<lambda>j. job_TenantID j = t) (jobs d)))) = tenant_count d t w"
  by (simp add: tenant_count_def conj_commute)

text \<open>Counting group by group counts every row once, when the groups cover the rows.\<close>

lemma sum_groups:
  assumes "distinct ks" and "f ` set xs \<subseteq> set ks"
  shows "sum_list (map (\<lambda>k. int (length (filter (\<lambda>x. f x = k \<and> w x) xs))) ks) = int (length (filter w xs))"
  using assms(2)
proof (induction xs)
  case (Cons x xs)
  have "sum_list (map (\<lambda>k. int (length (filter (\<lambda>x. f x = k \<and> w x) (x # xs)))) ks) =
    sum_list (map (\<lambda>k. (if f x = k \<and> w x then 1 else 0) + int (length (filter (\<lambda>x. f x = k \<and> w x) xs))) ks)"
    by (rule arg_cong [where f = sum_list], rule map_cong) auto
  also have "\<dots> = sum_list (map (\<lambda>k. if f x = k \<and> w x then 1 else 0) ks) + int (length (filter w xs))"
    using Cons by (simp add: sum_list_addf)
  also have "sum_list (map (\<lambda>k. if f x = k \<and> w x then 1 else 0) ks) = (if w x then 1 else (0 :: int))"
    using assms(1) Cons.prems by (simp add: sum_list_distinct_conv_sum_set sum.delta)
  finally show ?case by simp
qed simp

lemma StatusCounts_ok:
  assumes "StatusCounts G p t = (p', Inr (counts, today))"
  shows "(case counts st of None \<Rightarrow> 0 | Some n \<Rightarrow> n) = tenant_count (pg_db p) t (\<lambda>j. job_Status j = st)"
    and "today = tenant_count (pg_db p) t (\<lambda>j. date_trunc_day G (pg_now p) \<le> job_CreatedAt j)"
proof -
  let ?rows = "filter (\<lambda>j. job_TenantID j = t) (jobs (pg_db p))"
  let ?new = "\<lambda>j. date_trunc_day G (pg_now p) \<le> job_CreatedAt j"
  let ?ks = "remdups (map job_Status ?rows)"
  define out where "out = map (\<lambda>st. (st, int (length (filter (\<lambda>j. job_Status j = st) ?rows)),
    int (length (filter (\<lambda>j. job_Status j = st \<and> ?new j) ?rows)))) ?ks"
  from assms obtain r where r: "exec (status_stmt G t) p = (p', Inr r)" "count_rows r Map.empty 0 = (counts, today)"
    by (auto simp: StatusCounts_def split: prod.splits sum.splits)
  have "distinct (map fst out)"
    unfolding out_def by (simp only: map_map comp_def fst_conv list.map_ident distinct_remdups)
  moreover from exec_ok [OF r(1)] have "r = out" by (auto simp: status_stmt_def Let_def out_def)
  ultimately have c: "counts = (\<lambda>st. map_option fst (map_of out st))" "today = sum_list (map (snd \<circ> snd) out)"
    using r(2) by (simp_all add: count_rows_empty)
  show "(case counts st of None \<Rightarrow> 0 | Some n \<Rightarrow> n) = tenant_count (pg_db p) t (\<lambda>j. job_Status j = st)"
  proof (cases "st \<in> set ?ks")
    case False
    then have "filter (\<lambda>j. job_Status j = st) ?rows = []" by (auto simp: filter_empty_conv)
    moreover have "map_of out st = None" using False by (auto simp: map_of_eq_None_iff out_def)
    ultimately show ?thesis using tenant_count_eq [of "\<lambda>j. job_Status j = st" t "pg_db p"] by (simp add: c(1))
  next
    case True
    then have "map_of out st = Some (int (length (filter (\<lambda>j. job_Status j = st) ?rows)),
      int (length (filter (\<lambda>j. job_Status j = st \<and> ?new j) ?rows)))"
      unfolding out_def by (simp only: map_of_map_restrict restrict_map_def comp_def if_True)
    then show ?thesis using tenant_count_eq [of "\<lambda>j. job_Status j = st" t "pg_db p"] by (simp add: c(1))
  qed
  have "map (snd \<circ> snd) out = map (\<lambda>st. int (length (filter (\<lambda>j. job_Status j = st \<and> ?new j) ?rows))) ?ks"
    by (simp add: out_def)
  with sum_groups [of ?ks job_Status ?rows ?new] c(2) have "today = int (length (filter ?new ?rows))" by simp
  then show "today = tenant_count (pg_db p) t ?new" by (simp only: tenant_count_eq)
qed

lemma dashboard_ok:
  assumes "dashboard G p c r = (p', c', rs)" and "rs_Status rs = 200"
  obtains t counts today where "rq_tenant r = Some t" "snd (StatusCounts G p t) = Inr (counts, today)"
    "rs_Body rs = Dashboard_body \<lparr>dr_TotalsByStatus = fill_totals AllStatuses counts [], dr_JobsToday = today,
       dr_RecentJobs = take 10 (sort_key (\<lambda>j. - job_CreatedAt j) (filter (\<lambda>j. job_TenantID j = t) (jobs (pg_db p))))\<rparr>"
proof -
  let ?f = "\<lparr>jf_Queue = [], jf_Status = [], jf_Limit = recentJobsLimit, jf_Offset = 0\<rparr>"
  from assms obtain t p1 counts today p2 recent n where t: "tenantID r = Inr t"
    and s: "StatusCounts G p t = (p1, Inr (counts, today))" and l: "ListJobs p1 t ?f = (p2, Inr (recent, n))"
    and b: "rs_Body rs = Dashboard_body \<lparr>dr_TotalsByStatus = fill_totals AllStatuses counts [],
      dr_JobsToday = today, dr_RecentJobs = recent\<rparr>"
    by (auto simp: dashboard_def tenantID_def tenantFromContext_def split: option.splits prod.splits sum.splits)
  from l obtain q p3 where "exec (count_stmt t ?f) p1 = (q, Inr n)" and e: "exec (page_stmt t ?f) q = (p3, Inr recent)"
    by (auto simp: ListJobs_def split: prod.splits sum.splits)
  then have "pg_db q = pg_db p"
    using exec_db_cases [of "count_stmt t ?f" p1] stats_calls(4) [OF s] by (auto simp: count_stmt_def split: if_splits)
  moreover have "list_where t ?f = (\<lambda>j. job_TenantID j = t)" by (simp add: list_where_def list_conds_def fun_eq_iff)
  ultimately have "recent = take 10 (sort_key (\<lambda>j. - job_CreatedAt j) (filter (\<lambda>j. job_TenantID j = t) (jobs (pg_db p))))"
    using exec_ok [OF e] by (auto simp: page_stmt_def recentJobsLimit_def split: if_splits)
  with b s t that [of t counts today] show ?thesis
    by (simp add: tenantID_def tenantFromContext_def split: option.splits)
qed

text \<open>Every count of a 200 answer, each over the rows of one tenant.\<close>

lemma totals_sum:
  assumes "\<And>j. j \<in> set (jobs d) \<Longrightarrow> job_TenantID j = t \<Longrightarrow> Valid (job_Status j)"
  shows "sum_list (map (\<lambda>st. tenant_count d t (\<lambda>j. job_Status j = st)) AllStatuses) = tenant_count d t (\<lambda>_. True)"
proof -
  have "distinct AllStatuses" by (simp add: AllStatuses_def)
  moreover have "job_Status ` set (filter (\<lambda>j. job_TenantID j = t) (jobs d)) \<subseteq> set AllStatuses"
    using assms by (auto simp: Valid_iff)
  ultimately show ?thesis
    using sum_groups [of AllStatuses job_Status "filter (\<lambda>j. job_TenantID j = t) (jobs d)" "\<lambda>_. True"]
    by (simp add: tenant_count_def conj_commute)
qed

lemma metrics_ok:
  assumes "JobMetrics G p t = (p', Inr m)"
  shows "mt_CompletedLastMinute m = tenant_count (pg_db p) t (ended_since StatusCompleted (pg_now p - minute))"
    and "mt_CompletedLastHour m = tenant_count (pg_db p) t (ended_since StatusCompleted (pg_now p - hour))"
    and "mt_FailedLastHour m = tenant_count (pg_db p) t (ended_since StatusFailed (pg_now p - hour))"
proof -
  from assms have "exec (metrics_stmt G t) p = (p', Inr m)" by (auto simp: JobMetrics_def split: prod.splits sum.splits)
  from exec_ok [OF this] show "mt_CompletedLastMinute m = tenant_count (pg_db p) t (ended_since StatusCompleted (pg_now p - minute))"
    and "mt_CompletedLastHour m = tenant_count (pg_db p) t (ended_since StatusCompleted (pg_now p - hour))"
    and "mt_FailedLastHour m = tenant_count (pg_db p) t (ended_since StatusFailed (pg_now p - hour))"
    by (auto simp: metrics_stmt_def Let_def tenant_count_eq [symmetric])
qed

text \<open>
  Three roundings lie between the counts and the failure rate that is shown; together they cost less than
  a ten-thousandth, and the rate never leaves the unit interval.
\<close>

lemma unit_round:
  assumes "0 \<le> q" and "q \<le> 1"
  shows "0 \<le> round_places q 4 \<and> round_places q 4 \<le> 1 \<and> \<bar>round_places q 4 - q\<bar> \<le> 1 / 20000 + 1 / 2 ^ 50"
proof -
  define y where "y = f64 (q * 10000)"
  have pow: "math_Pow10 4 = 10000" using f64_int [of 10000] by (simp add: math_Pow10_def)
  have y: "0 \<le> y" "y \<le> 10000" using f64_le_int [of "q * 10000" 10000] assms by (auto simp: y_def intro: f64_nonneg)
  have e1: "\<bar>y - q * 10000\<bar> \<le> 2 ^ 14 / 2 ^ 54" unfolding y_def using assms by (intro f64_close_pow) auto
  have "\<lfloor>y + 1 / 2\<rfloor> \<le> 10000" using y by (simp add: floor_le_iff)
  then have "(of_int \<lfloor>y + 1 / 2\<rfloor> :: rat) \<le> of_int 10000" by (simp only: of_int_le_iff)
  moreover have "0 \<le> \<lfloor>y + 1 / 2\<rfloor>" using y by simp
  ultimately have r: "0 \<le> math_Round y" "math_Round y \<le> 10000" using y by (simp_all add: math_Round_nonneg)
  have e2: "\<bar>math_Round y - y\<bar> \<le> 1 / 2" using y(1) by (rule math_Round_close)
  have z: "round_places q 4 = f64 (math_Round y / 10000)"
    by (simp add: round_places_def pow f64_div_def f64_mult_def y_def)
  have e3: "\<bar>f64 (math_Round y / 10000) - math_Round y / 10000\<bar> \<le> 2 ^ 1 / 2 ^ 54"
    using r by (intro f64_close_pow) auto
  have "0 \<le> f64 (math_Round y / 10000)" "f64 (math_Round y / 10000) \<le> 1"
    using r f64_le_int [of "math_Round y / 10000" 1] by (auto intro: f64_nonneg)
  moreover have "\<bar>f64 (math_Round y / 10000) - q\<bar> \<le> 1 / 20000 + 1 / 2 ^ 50"
  proof -
    have "y - q * 10000 \<le> 2 ^ 14 / 2 ^ 54" "q * 10000 - y \<le> 2 ^ 14 / 2 ^ 54" using e1 unfolding abs_le_iff by linarith+
    moreover have "math_Round y - y \<le> 1 / 2" "y - math_Round y \<le> 1 / 2" using e2 unfolding abs_le_iff by linarith+
    moreover have "f64 (math_Round y / 10000) - math_Round y / 10000 \<le> 2 ^ 1 / 2 ^ 54"
      "math_Round y / 10000 - f64 (math_Round y / 10000) \<le> 2 ^ 1 / 2 ^ 54" using e3 unfolding abs_le_iff by linarith+
    ultimately show ?thesis unfolding abs_le_iff by simp
  qed
  ultimately show ?thesis by (simp add: z)
qed

lemma failure_rate_close:
  assumes "0 \<le> mt_CompletedLastHour m" and "0 \<le> mt_FailedLastHour m"
    and "0 < mt_CompletedLastHour m + mt_FailedLastHour m" and "mt_CompletedLastHour m + mt_FailedLastHour m < 2 ^ 53"
  shows "0 \<le> failure_rate m \<and> failure_rate m \<le> 1 \<and>
    \<bar>failure_rate m - of_int (mt_FailedLastHour m) / of_int (mt_CompletedLastHour m + mt_FailedLastHour m)\<bar> \<le> 1 / 2 ^ 53"
proof -
  let ?T = "mt_CompletedLastHour m + mt_FailedLastHour m"
  let ?q = "of_int (mt_FailedLastHour m) / of_int ?T :: rat"
  have F: "f64_of_int (mt_FailedLastHour m) = of_int (mt_FailedLastHour m)" "f64_of_int ?T = of_int ?T"
    using assms by (simp_all only: f64_of_int_def f64_int)
  then have r: "failure_rate m = f64 ?q" using assms(3) by (simp add: failure_rate_def Let_def f64_div_def)
  have "of_int (mt_FailedLastHour m) \<le> (of_int ?T :: rat)" using assms(1) by (simp only: of_int_le_iff)
  then have q: "0 \<le> ?q" "?q \<le> 1" using assms by (simp_all add: divide_le_eq_1)
  then have "f64 ?q \<le> 1" using f64_le_int [of ?q 1] by simp
  moreover have "\<bar>f64 ?q - ?q\<bar> \<le> 2 ^ 1 / 2 ^ 54" using q by (intro f64_close_pow) auto
  ultimately show ?thesis using f64_nonneg [OF q(1)] by (simp add: r)
qed

lemma shown_rate:
  assumes "0 \<le> mt_CompletedLastHour m" and "0 \<le> mt_FailedLastHour m"
    and "mt_CompletedLastHour m + mt_FailedLastHour m < 2 ^ 53"
  shows "0 \<le> round_places (failure_rate m) 4 \<and> round_places (failure_rate m) 4 \<le> 1 \<and>
    \<bar>round_places (failure_rate m) 4 - of_int (mt_FailedLastHour m) / of_int (mt_CompletedLastHour m + mt_FailedLastHour m)\<bar> \<le> 1 / 19999"
proof (cases "0 < mt_CompletedLastHour m + mt_FailedLastHour m")
  case True
  let ?q = "of_int (mt_FailedLastHour m) / of_int (mt_CompletedLastHour m + mt_FailedLastHour m) :: rat"
  have f: "0 \<le> failure_rate m" "failure_rate m \<le> 1" "\<bar>failure_rate m - ?q\<bar> \<le> 1 / 2 ^ 53"
    using failure_rate_close [OF assms(1,2) True assms(3)] by blast+
  note u = unit_round [OF f(1,2)]
  then have "\<bar>round_places (failure_rate m) 4 - failure_rate m\<bar> \<le> 1 / 20000 + 1 / 2 ^ 50" by blast
  then have "\<bar>round_places (failure_rate m) 4 - ?q\<bar> \<le> 1 / 20000 + 1 / 2 ^ 50 + 1 / 2 ^ 53" using f(3) by linarith
  also have "\<dots> \<le> 1 / 19999" by simp
  finally show ?thesis using u by blast
next
  case False
  then have "failure_rate m = 0" "mt_FailedLastHour m = 0" using assms by (auto simp: failure_rate_def Let_def)
  then show ?thesis by (simp add: round_places_def f64_div_def f64_mult_def f64_def math_Round_def)
qed

definition depth_of :: "'r redis \<Rightarrow> 'r rconn \<Rightarrow> string \<Rightarrow> queueDepth" where
  "depth_of R c q = \<lparr>qd_Queue = q, qd_Depth = int (length (queued R c q)), qd_Delayed = int (length (delayed R c q))\<rparr>"

lemma QueueNames_healthy:
  "healthy p \<Longrightarrow> QueueNames p t = (p, Inr (sort (remdups (map job_QueueName (filter (\<lambda>j. job_TenantID j = t) (jobs (pg_db p)))))))"
  by (simp add: QueueNames_def scanQueueNames_def exec_healthy queue_names_stmt_def)

lemma AllQueueNames_healthy:
  "healthy p \<Longrightarrow> AllQueueNames p = (p, Inr (sort (remdups (map job_QueueName (jobs (pg_db p))))))"
  by (simp add: AllQueueNames_def scanQueueNames_def exec_healthy queue_names_stmt_def)

context redis_server
begin

lemma Len_healthy: "r_net c = [] \<Longrightarrow> Len R c q = (c, Inr (int (length (queued R c q))))"
  by (simp add: Len_def redis_do_healthy llen_lrange queued_def)

lemma DelayedLen_healthy: "r_net c = [] \<Longrightarrow> DelayedLen R c q = (c, Inr (int (length (delayed R c q))))"
  by (simp add: DelayedLen_def redis_do_healthy zcard_zrange delayed_def)

lemma queue_depths_healthy:
  "r_net c = [] \<Longrightarrow> queue_depths R qs ds c = (c, Inr (ds @ map (depth_of R c) qs))"
  by (induction qs arbitrary: ds) (simp_all add: Len_healthy DelayedLen_healthy depth_of_def)

lemma stats_healthy:
  assumes "r_net c = []" and "healthy p" and "rq_tenant r = Some t"
  shows "stats R G queues p c r = (p, c, writeJSON 200 (Stats_body (stats_response
    (map (depth_of R c) (mergeUnique queues (sort (remdups (map job_QueueName (filter (\<lambda>j. job_TenantID j = t) (jobs (pg_db p))))))))
    (projr (snd (JobMetrics G p t))) (int (card (live_keys R (r_srv c) workerKeyPrefix (r_now c)))))))"
  using assms
  by (simp add: stats_def tenantID_def tenantFromContext_def QueueNames_healthy queue_depths_healthy
      CountActiveWorkers_live JobMetrics_def exec_healthy metrics_stmt_def Let_def)

end

end
