(* ===== verification/Credentials.thy ===== *)
theory Credentials
  imports AuthStore
begin

section \<open>Sessions and API keys as revocable credentials\<close>

text \<open>
  Both kinds of credential are rows found by the hash of a secret: issued for an owner, looked up on every
  request, revoked by deleting the row. The contract is the locale \<open>credentials\<close>: after a successful issue
  the hash finds its owner, after a revocation it finds nothing, and other hashes are not affected. Its
  client lemma says that a history of issues and revocations implements a finite map from hashes to owners.
  The locale is interpreted on the functions of \<^verbatim>\<open>sessions.go\<close> and of \<^verbatim>\<open>apikeys.go\<close>.
\<close>

datatype 'a cred_event = Issue 'a string | Revoke string

fun run_events :: "('a \<Rightarrow> string \<Rightarrow> pg \<Rightarrow> pg option) \<Rightarrow> (string \<Rightarrow> pg \<Rightarrow> pg) \<Rightarrow> 'a cred_event list \<Rightarrow> pg \<Rightarrow> pg option" where
  "run_events issue revoke [] p = Some p"
| "run_events issue revoke (Issue a h # es) p =
     (case issue a h p of None \<Rightarrow> None | Some p' \<Rightarrow> run_events issue revoke es p')"
| "run_events issue revoke (Revoke h # es) p = run_events issue revoke es (revoke h p)"

fun replay :: "('a \<Rightarrow> 'o option) \<Rightarrow> 'a cred_event list \<Rightarrow> (string \<rightharpoonup> 'o) \<Rightarrow> (string \<rightharpoonup> 'o)" where
  "replay owner [] m = m"
| "replay owner (Issue a h # es) m = replay owner es (m(h := owner a))"
| "replay owner (Revoke h # es) m = replay owner es (m(h := None))"

locale credentials =
  fixes ok :: "pg \<Rightarrow> bool"
    and issue :: "'a \<Rightarrow> string \<Rightarrow> pg \<Rightarrow> pg option"
    and owner :: "'a \<Rightarrow> 'o option"
    and lookup :: "string \<Rightarrow> pg \<Rightarrow> 'o option"
    and revoke :: "string \<Rightarrow> pg \<Rightarrow> pg"
  assumes issue_ok: "ok p \<Longrightarrow> issue a h p = Some p' \<Longrightarrow> ok p'"
    and lookup_issue: "ok p \<Longrightarrow> issue a h p = Some p' \<Longrightarrow> lookup h' p' = (if h' = h then owner a else lookup h' p)"
    and revoke_ok: "ok p \<Longrightarrow> ok (revoke h p)"
    and lookup_revoke: "ok p \<Longrightarrow> lookup h' (revoke h p) = (if h' = h then None else lookup h' p)"
begin

lemma run_refines:
  "ok p \<Longrightarrow> run_events issue revoke es p = Some p' \<Longrightarrow> (\<lambda>h. lookup h p') = replay owner es (\<lambda>h. lookup h p)"
proof (induction es arbitrary: p)
  case Nil
  then show ?case by simp
next
  case (Cons e es)
  show ?case
  proof (cases e)
    case (Issue a h)
    with Cons.prems obtain q where q: "issue a h p = Some q" "run_events issue revoke es q = Some p'"
      by (auto split: option.splits)
    have "(\<lambda>h'. lookup h' q) = (\<lambda>h'. lookup h' p)(h := owner a)"
      using lookup_issue [OF Cons.prems(1) q(1)] by (auto simp: fun_eq_iff)
    with Cons.IH [OF issue_ok [OF Cons.prems(1) q(1)] q(2)] Issue show ?thesis by simp
  next
    case (Revoke h)
    have "(\<lambda>h'. lookup h' (revoke h p)) = (\<lambda>h'. lookup h' p)(h := None)"
      using lookup_revoke [OF Cons.prems(1)] by (auto simp: fun_eq_iff)
    with Cons.IH [OF revoke_ok [OF Cons.prems(1)]] Cons.prems(2) Revoke show ?thesis by simp
  qed
qed

lemma revoked_stays_out:
  assumes "ok p" and "run_events issue revoke (Revoke h # es) p = Some p'" and "\<forall>a. Issue a h \<notin> set es"
  shows "lookup h p' = None"
proof -
  have none: "m h = None \<Longrightarrow> replay owner es m h = None" for m
    using assms(3)
  proof (induction es arbitrary: m)
    case Nil
    then show ?case by simp
  next
    case (Cons e es)
    then show ?case by (cases e) auto
  qed
  from run_refines [OF assms(1,2)] have "lookup h p' = replay owner (Revoke h # es) (\<lambda>h. lookup h p) h"
    by (simp add: fun_eq_iff)
  then show ?thesis by (simp add: none)
qed

end

subsection \<open>Rows by the hash of a secret\<close>

lemma rows_by_key:
  "distinct (map key rows) \<Longrightarrow> filter (\<lambda>r. key r = k) rows = (case row_by key k rows of None \<Rightarrow> [] | Some r \<Rightarrow> [r])"
  using filter_by_key [of key rows k "\<lambda>_. True"] by (auto split: option.splits)

definition live_session :: "pg \<Rightarrow> string \<Rightarrow> user option" where
  "live_session p h =
     (case row_by sess_token_hash h (sessions (pg_db p)) of
        None \<Rightarrow> None
      | Some s \<Rightarrow> if sess_expires_at s > pg_now p then row_by user_ID (sess_user_id s) (users (pg_db p)) else None)"

lemma accounts_distinct:
  assumes "accounts_ok low d"
  shows "distinct (map user_ID (users d))" "distinct (map (\<lambda>u. low (user_Email u)) (users d))"
    "distinct (map sess_token_hash (sessions d))" "distinct (map key_ID (api_keys d))" "distinct (map key_KeyHash (api_keys d))"
  using assms by (simp_all add: accounts_ok_def)

lemma session_join_rows:
  assumes "accounts_ok low (pg_db p)"
  shows "first_row (concat (map (\<lambda>s. filter (\<lambda>u. user_ID u = sess_user_id s) (users (pg_db p)))
     (filter (\<lambda>s. sess_token_hash s = h \<and> sess_expires_at s > pg_now p) (sessions (pg_db p))))) = live_session p h"
  unfolding live_session_def filter_by_key [OF accounts_distinct(3) [OF assms]] rows_by_key [OF accounts_distinct(1) [OF assms]]
  by (auto split: option.splits)

text \<open>The result of the two look-ups, whatever the network does.\<close>

lemma SessionUser_result:
  assumes "accounts_ok low (pg_db p)"
  shows "snd (SessionUser p h) =
    (if fst (next_fault (pg_net p)) \<noteq> Delivered then Inl (Store_failed ''session user'' Conn_error)
     else if \<not> pg_text_ok p h then Inl (Store_failed ''session user'' Encode_error)
     else case live_session p h of None \<Rightarrow> Inl ErrSessionInvalid | Some u \<Rightarrow> Inr u)"
  by (auto simp: SessionUser_def exec_result session_join_def session_join_rows [OF assms] split: prod.splits option.splits)

lemma AuthenticateAPIKey_result:
  assumes "accounts_ok low (pg_db p)"
  shows "snd (AuthenticateAPIKey p h) =
    (if fst (next_fault (pg_net p)) \<noteq> Delivered then Inl (Store_failed ''authenticate api key'' Conn_error)
     else if \<not> pg_text_ok p h then Inl (Store_failed ''authenticate api key'' Encode_error)
     else case row_by key_KeyHash h (api_keys (pg_db p)) of
       None \<Rightarrow> Inl ErrAPIKeyNotFound | Some k \<Rightarrow> Inr (key_TenantID k, key_ID k))"
  by (auto simp: AuthenticateAPIKey_def exec_result select_key_hash_def rows_by_key [OF accounts_distinct(5) [OF assms]]
      split: prod.splits option.splits)

lemma select_db [simp]:
  "pg_db (fst (SessionUser p h)) = pg_db p" "pg_db (fst (AuthenticateAPIKey p h)) = pg_db p"
  "pg_db (fst (GetUserByEmail p e)) = pg_db p" "pg_db (fst (GetUserByID p k)) = pg_db p"
  "pg_db (fst (ListAPIKeys p t)) = pg_db p" "pg_db (fst (GetTenant p t)) = pg_db p"
  by (auto simp: SessionUser_def session_join_def AuthenticateAPIKey_def select_key_hash_def GetUserByEmail_def scanUser_def
      select_email_def GetUserByID_def select_user_def ListAPIKeys_def select_keys_def GetTenant_def select_tenant_def exec_result
      split: prod.splits sum.splits option.splits if_splits)

subsection \<open>Sessions\<close>

definition accounts_up :: "time \<Rightarrow> pg \<Rightarrow> bool" where
  "accounts_up now p \<longleftrightarrow> accounts_ok (pg_lower p) (pg_db p) \<and> healthy p \<and> pg_now p = now"

definition session_issue :: "uuid \<times> uuid \<times> time \<Rightarrow> string \<Rightarrow> pg \<Rightarrow> pg option" where
  "session_issue a h p =
     (case a of (gen, u, expiresAt) \<Rightarrow>
        (case CreateSession p gen u h expiresAt of (p', Inr _) \<Rightarrow> Some p' | (p', Inl _) \<Rightarrow> None))"

definition session_owner :: "time \<Rightarrow> uuid \<times> uuid \<times> time \<Rightarrow> uuid option" where
  "session_owner now a = (case a of (gen, u, expiresAt) \<Rightarrow> if expiresAt > now then Some u else None)"

definition session_lookup :: "string \<Rightarrow> pg \<Rightarrow> uuid option" where
  "session_lookup h p = (case SessionUser p h of (_, Inr u) \<Rightarrow> Some (user_ID u) | (_, Inl _) \<Rightarrow> None)"

definition session_revoke :: "string \<Rightarrow> pg \<Rightarrow> pg" where
  "session_revoke h p = fst (DeleteSession p h)"

lemma session_lookup_eq:
  assumes "accounts_up now p"
  shows "session_lookup h p = (if pg_text_ok p h then map_option user_ID (live_session p h) else None)"
proof -
  obtain q r where "SessionUser p h = (q, r)" by force
  moreover have "snd (SessionUser p h) = (if \<not> pg_text_ok p h then Inl (Store_failed ''session user'' Encode_error)
     else case live_session p h of None \<Rightarrow> Inl ErrSessionInvalid | Some u \<Rightarrow> Inr u)"
    using assms SessionUser_result [of "pg_lower p" p h] by (simp add: accounts_up_def)
  ultimately show ?thesis by (auto simp: session_lookup_def split: option.splits)
qed

lemma CreateSession_ok:
  assumes "CreateSession p gen u h e = (p', Inr x)"
  shows "pg_text_ok p h \<and> h \<notin> sess_token_hash ` set (sessions (pg_db p)) \<and> u \<in> user_ID ` set (users (pg_db p)) \<and>
    pg_db p' = (pg_db p)\<lparr>sessions := sessions (pg_db p) @
      [\<lparr>sess_id = gen, sess_user_id = u, sess_token_hash = h, sess_created_at = pg_now p, sess_expires_at = e\<rparr>]\<rparr>"
proof -
  from assms have "exec (insert_session gen u h e) p = (p', Inr x)"
    by (auto simp: CreateSession_def split: prod.splits sum.splits)
  from exec_ok [OF this] show ?thesis by (auto simp: insert_session_def split: if_splits)
qed

lemma exec_up:
  assumes "keeps s p" and "accounts_up now p"
  shows "accounts_up now (fst (exec s p))" and "pg_text_ok (fst (exec s p)) = pg_text_ok p"
proof -
  have "healthy (fst (exec s p))"
    using assms(2) by (auto simp: accounts_up_def exec_healthy split: sum.splits prod.splits)
  then show "accounts_up now (fst (exec s p))"
    using assms(2) keeps_exec(1) [OF assms(1)] by (simp add: accounts_up_def)
qed simp

lemma session_issue_Some:
  assumes "session_issue (gen, u, e) h p = Some p'"
  shows "CreateSession p gen u h e = (p', Inr ())"
  using assms by (auto simp: session_issue_def split: prod.splits sum.splits)

interpretation sess: credentials "accounts_up now" session_issue "session_owner now" session_lookup session_revoke
proof (unfold_locales, goal_cases)
  case (1 p a h p')
  obtain gen u e where a: "a = (gen, u, e)" by (cases a)
  from session_issue_Some [OF 1(2) [unfolded a]] have "p' = fst (exec (insert_session gen u h e) p)"
    by (metis fst_account_calls(1) fst_conv)
  with exec_up(1) [OF keeps_stmts(3) 1(1)] show ?case by simp
next
  case (2 p a h p' h')
  obtain gen u e where a: "a = (gen, u, e)" by (cases a)
  note c = session_issue_Some [OF 2(2) [unfolded a]]
  note r = CreateSession_ok [OF c]
  have p': "p' = fst (exec (insert_session gen u h e) p)" by (metis c fst_account_calls(1) fst_conv)
  have up: "accounts_up now p'" and tx: "pg_text_ok p' = pg_text_ok p"
    unfolding p' using exec_up [OF keeps_stmts(3) 2(1)] by simp_all
  have now: "pg_now p' = now" "pg_now p = now" using up 2(1) by (simp_all add: accounts_up_def)
  have new: "row_by sess_token_hash h (sessions (pg_db p)) = None" using r by (simp add: row_by_None_iff)
  obtain x where x: "row_by user_ID u (users (pg_db p)) = Some x"
    using r by (metis option.exhaust row_by_None_iff)
  then have "user_ID x = u" by (auto dest: row_by_SomeD)
  with new x r now have "map_option user_ID (live_session p' h') =
      (if h' = h then session_owner now a else map_option user_ID (live_session p h'))"
    by (auto simp: live_session_def row_by_append a session_owner_def split: option.splits)
  then show ?case using r tx by (auto simp: session_lookup_eq [OF up] session_lookup_eq [OF 2(1)])
next
  case (3 p h)
  then show ?case unfolding session_revoke_def fst_account_calls by (rule exec_up(1) [OF keeps_stmts(11)])
next
  case (4 p h' h)
  let ?q = "fst (exec (delete_session h) p)"
  have up: "accounts_up now ?q" and tx: "pg_text_ok ?q = pg_text_ok p"
    using exec_up [OF keeps_stmts(11) 4] by simp_all
  have "pg_db ?q = (if pg_text_ok p h then (pg_db p)\<lparr>sessions := sql_delete (\<lambda>s. sess_token_hash s = h) (sessions (pg_db p))\<rparr> else pg_db p)"
    using 4 by (simp add: accounts_up_def exec_healthy delete_session_def)
  moreover have "pg_now ?q = pg_now p" by simp
  ultimately have "pg_text_ok p h \<Longrightarrow> live_session ?q h' = (if h' = h then None else live_session p h')"
    "\<not> pg_text_ok p h \<Longrightarrow> live_session ?q h' = live_session p h'"
    by (auto simp: live_session_def row_by_delete split: option.split)
  then show ?case
    unfolding session_revoke_def fst_account_calls session_lookup_eq [OF up] session_lookup_eq [OF 4] tx by auto
qed

subsection \<open>API keys\<close>

text \<open>A key is revoked by its owner and id, those \<open>AuthenticateAPIKey\<close> reports for its hash.\<close>

definition key_issue :: "uuid \<times> uuid \<times> string \<times> string \<Rightarrow> string \<Rightarrow> pg \<Rightarrow> pg option" where
  "key_issue a h p =
     (case a of (gen, t, name, prefix) \<Rightarrow>
        (case CreateAPIKey p gen t name h prefix of (p', Inr _) \<Rightarrow> Some p' | (p', Inl _) \<Rightarrow> None))"

definition key_owner :: "uuid \<times> uuid \<times> string \<times> string \<Rightarrow> uuid option" where
  "key_owner a = Some (fst (snd a))"

definition key_lookup :: "string \<Rightarrow> pg \<Rightarrow> uuid option" where
  "key_lookup h p = (case AuthenticateAPIKey p h of (_, Inr (t, _)) \<Rightarrow> Some t | (_, Inl _) \<Rightarrow> None)"

definition key_revoke :: "string \<Rightarrow> pg \<Rightarrow> pg" where
  "key_revoke h p =
     (case AuthenticateAPIKey p h of (p', Inr (t, k)) \<Rightarrow> fst (DeleteAPIKey p' t k) | (p', Inl _) \<Rightarrow> p')"

definition key_row :: "pg \<Rightarrow> string \<Rightarrow> api_key option" where
  "key_row p h = (if pg_text_ok p h then row_by key_KeyHash h (api_keys (pg_db p)) else None)"

lemma AuthenticateAPIKey_up:
  assumes "accounts_up now p"
  shows "AuthenticateAPIKey p h =
    (p, if \<not> pg_text_ok p h then Inl (Store_failed ''authenticate api key'' Encode_error)
        else case key_row p h of None \<Rightarrow> Inl ErrAPIKeyNotFound | Some k \<Rightarrow> Inr (key_TenantID k, key_ID k))"
proof -
  from assms have h: "healthy p" and d: "distinct (map key_KeyHash (api_keys (pg_db p)))"
    by (auto simp: accounts_up_def dest: accounts_distinct)
  show ?thesis
    by (simp add: AuthenticateAPIKey_def exec_healthy [OF h] select_key_hash_def rows_by_key [OF d] key_row_def split: option.split)
qed

lemma key_lookup_eq: "accounts_up now p \<Longrightarrow> key_lookup h p = map_option key_TenantID (key_row p h)"
  by (auto simp: key_lookup_def AuthenticateAPIKey_up key_row_def split: option.splits)

lemma CreateAPIKey_ok:
  assumes "CreateAPIKey p gen t name h pre = (p', Inr k)"
  shows "pg_text_ok p h \<and> h \<notin> key_KeyHash ` set (api_keys (pg_db p)) \<and> gen \<notin> key_ID ` set (api_keys (pg_db p)) \<and>
    k = \<lparr>key_ID = gen, key_TenantID = t, key_Name = name, key_KeyHash = h, key_KeyPrefix = pre, key_LastUsedAt = None,
         key_CreatedAt = pg_now p\<rparr> \<and> pg_db p' = (pg_db p)\<lparr>api_keys := api_keys (pg_db p) @ [k]\<rparr>"
proof -
  from assms have "exec (insert_key gen t name h pre) p = (p', Inr k)"
    by (auto simp: CreateAPIKey_def split: prod.splits sum.splits)
  from exec_ok [OF this] show ?thesis by (auto simp: insert_key_def Let_def split: if_splits)
qed

lemma key_issue_Some:
  assumes "key_issue (gen, t, name, pre) h p = Some p'"
  obtains k where "CreateAPIKey p gen t name h pre = (p', Inr k)"
  using assms by (auto simp: key_issue_def split: prod.splits sum.splits)

text \<open>Deleting the one row with a given key id removes the one hash it has.\<close>

lemma delete_key_row:
  assumes "distinct (map key_ID ks)" and "distinct (map key_KeyHash ks)" and "x \<in> set ks"
  shows "row_by key_KeyHash h' (sql_delete (\<lambda>y. key_ID y = key_ID x \<and> key_TenantID y = key_TenantID x) ks) =
    (if h' = key_KeyHash x then None else row_by key_KeyHash h' ks)"
proof -
  have "y = x" if "y \<in> set ks" "key_ID y = key_ID x" for y
    using that assms(1,3) by (auto simp: distinct_map inj_on_def)
  moreover have "y = x" if "y \<in> set ks" "key_KeyHash y = key_KeyHash x" for y
    using that assms(2,3) by (auto simp: distinct_map inj_on_def)
  ultimately have "sql_delete (\<lambda>y. key_ID y = key_ID x \<and> key_TenantID y = key_TenantID x) ks =
      sql_delete (\<lambda>y. key_KeyHash y = key_KeyHash x) ks"
    unfolding sql_delete_def by (intro filter_cong) auto
  then show ?thesis by (simp add: row_by_delete)
qed

lemma key_revoke_up:
  assumes "accounts_up now p"
  shows "accounts_up now (key_revoke h p)" and "pg_text_ok (key_revoke h p) = pg_text_ok p"
    and "pg_db (key_revoke h p) = (case key_row p h of None \<Rightarrow> pg_db p | Some k \<Rightarrow>
      (pg_db p)\<lparr>api_keys := sql_delete (\<lambda>y. key_ID y = key_ID k \<and> key_TenantID y = key_TenantID k) (api_keys (pg_db p))\<rparr>)"
proof -
  have r: "key_revoke h p = (case key_row p h of None \<Rightarrow> p | Some k \<Rightarrow> fst (exec (delete_key (key_TenantID k) (key_ID k)) p))"
    by (auto simp: key_revoke_def AuthenticateAPIKey_up [OF assms] fst_account_calls key_row_def split: option.split)
  show "accounts_up now (key_revoke h p)" "pg_text_ok (key_revoke h p) = pg_text_ok p"
    unfolding r using assms exec_up [OF keeps_stmts(12) assms] by (auto split: option.split)
  show "pg_db (key_revoke h p) = (case key_row p h of None \<Rightarrow> pg_db p | Some k \<Rightarrow>
      (pg_db p)\<lparr>api_keys := sql_delete (\<lambda>y. key_ID y = key_ID k \<and> key_TenantID y = key_TenantID k) (api_keys (pg_db p))\<rparr>)"
    unfolding r using assms by (auto simp: accounts_up_def exec_healthy delete_key_def Let_def split: option.split)
qed

interpretation apikey: credentials "accounts_up now" key_issue key_owner key_lookup key_revoke
proof (unfold_locales, goal_cases)
  case (1 p a h p')
  obtain gen t n pre where a: "a = (gen, t, n, pre)" by (cases a)
  obtain k where "CreateAPIKey p gen t n h pre = (p', Inr k)" using 1(2) unfolding a by (rule key_issue_Some)
  then have "p' = fst (exec (insert_key gen t n h pre) p)" by (metis fst_account_calls(3) fst_conv)
  with exec_up(1) [OF keeps_stmts(4) 1(1)] show ?case by simp
next
  case (2 p a h p' h')
  obtain gen t n pre where a: "a = (gen, t, n, pre)" by (cases a)
  obtain k where c: "CreateAPIKey p gen t n h pre = (p', Inr k)" using 2(2) unfolding a by (rule key_issue_Some)
  note r = CreateAPIKey_ok [OF c]
  have p': "p' = fst (exec (insert_key gen t n h pre) p)" by (metis c fst_account_calls(3) fst_conv)
  have up: "accounts_up now p'" and tx: "pg_text_ok p' = pg_text_ok p"
    unfolding p' using exec_up [OF keeps_stmts(4) 2(1)] by simp_all
  have new: "row_by key_KeyHash h (api_keys (pg_db p)) = None" using r by (simp add: row_by_None_iff)
  show ?case
    unfolding key_lookup_eq [OF up] key_lookup_eq [OF 2(1)]
    using r tx new by (auto simp: key_row_def row_by_append key_owner_def a split: option.splits)
next
  case (3 p h)
  then show ?case by (rule key_revoke_up(1))
next
  case (4 p h' h)
  note up = key_revoke_up [OF 4, of h]
  show ?case
  proof (cases "key_row p h")
    case None
    then show ?thesis
      unfolding key_lookup_eq [OF up(1)] key_lookup_eq [OF 4] using up(2,3) by (auto simp: key_row_def)
  next
    case (Some k)
    then have k: "k \<in> set (api_keys (pg_db p))" "key_KeyHash k = h" "pg_text_ok p h"
      by (auto simp: key_row_def split: if_splits dest: row_by_SomeD)
    have d: "distinct (map key_ID (api_keys (pg_db p)))" "distinct (map key_KeyHash (api_keys (pg_db p)))"
      using 4 by (auto simp: accounts_up_def dest: accounts_distinct)
    show ?thesis
      unfolding key_lookup_eq [OF up(1)] key_lookup_eq [OF 4]
      using up(2,3) Some delete_key_row [OF d k(1), of h'] k(2,3) by (auto simp: key_row_def)
  qed
qed

end
