(* ===== verification/Sha256.thy ===== *)
theory Sha256
  imports GoStd
begin

section \<open>SHA-256, HMAC, hex and base64\<close>

text \<open>
  What \<^verbatim>\<open>src/internal/auth/auth.go\<close> uses of Go's \<open>crypto/sha256\<close>, \<open>crypto/hmac\<close>, \<open>encoding/hex\<close> and
  \<open>encoding/base64\<close>: the hash of FIPS 180-4 on 32-bit words, the keyed hash of RFC 2104, lower-case hex, and
  the URL alphabet of RFC 4648 without padding. A string is its bytes.
\<close>

unbundle bit_operations_syntax

type_synonym byte = "8 word"
type_synonym w32 = "32 word"

definition bytes :: "string \<Rightarrow> byte list" where
  "bytes s = map (\<lambda>c. of_nat (of_char c)) s"

text \<open>
  The constants of the standard: the first 32 bits of the fractional parts of the square roots of the
  first 8 primes and of the cube roots of the first 64. \<open>root_bits\<close> finds an integer root bit by bit.
\<close>

definition root_bits :: "nat \<Rightarrow> nat \<Rightarrow> nat" where
  "root_bits k n = foldl (\<lambda>acc i. if (acc + 2 ^ i) ^ k \<le> n then acc + 2 ^ i else acc) 0 (rev [0..<37])"

definition first_primes :: "nat list" where
  "first_primes = filter (\<lambda>q. list_all (\<lambda>d. q mod d \<noteq> 0) [2..<q]) [2..<312]"

definition sha_k :: "w32 list" where
  "sha_k = map (\<lambda>q. of_nat (root_bits 3 (q * 2 ^ 96))) first_primes"

definition sha_init :: "w32 list" where
  "sha_init = map (\<lambda>q. of_nat (root_bits 2 (q * 2 ^ 64))) (take 8 first_primes)"

definition rotr :: "nat \<Rightarrow> w32 \<Rightarrow> w32" where
  "rotr n x = drop_bit n x OR push_bit (32 - n) x"

text \<open>Padding: the byte 80, zeros up to 56 modulo 64, the length in bits as 64 bits.\<close>

definition be_bytes :: "nat \<Rightarrow> nat \<Rightarrow> byte list" where
  "be_bytes k n = map (\<lambda>i. of_nat (n div 256 ^ i)) (rev [0..<k])"

definition sha_pad :: "byte list \<Rightarrow> byte list" where
  "sha_pad m = m @ [0x80] @ replicate ((119 - length m mod 64) mod 64) 0 @ be_bytes 8 (8 * length m)"

fun be_words :: "byte list \<Rightarrow> w32 list" where
  "be_words (a # b # c # d # r) = of_nat (((unat a * 256 + unat b) * 256 + unat c) * 256 + unat d) # be_words r"
| "be_words _ = []"

fun schedule :: "nat \<Rightarrow> w32 list \<Rightarrow> w32 list" where
  "schedule 0 w = w"
| "schedule (Suc n) w =
     (let t = length w;
          x = w ! (t - 15); s0 = rotr 7 x XOR rotr 18 x XOR drop_bit 3 x;
          y = w ! (t - 2); s1 = rotr 17 y XOR rotr 19 y XOR drop_bit 10 y
      in schedule n (w @ [w ! (t - 16) + s0 + w ! (t - 7) + s1]))"

fun round_step :: "w32 list \<Rightarrow> w32 \<times> w32 \<Rightarrow> w32 list" where
  "round_step [a, b, c, d, e, f, g, h] (k, w) =
     (let s1 = rotr 6 e XOR rotr 11 e XOR rotr 25 e;
          ch = (e AND f) XOR (NOT e AND g);
          t1 = h + s1 + ch + k + w;
          s0 = rotr 2 a XOR rotr 13 a XOR rotr 22 a;
          maj = (a AND b) XOR (a AND c) XOR (b AND c)
      in [t1 + s0 + maj, a, b, c, d + t1, e, f, g])"
| "round_step st _ = st"

definition compress :: "w32 list \<Rightarrow> byte list \<Rightarrow> w32 list" where
  "compress st block = map2 (+) st (foldl round_step st (zip sha_k (schedule 48 (be_words block))))"

function sha_blocks :: "w32 list \<Rightarrow> byte list \<Rightarrow> w32 list" where
  "sha_blocks st m = (if m = [] then st else sha_blocks (compress st (take 64 m)) (drop 64 m))"
  by pat_completeness auto
termination by (relation "measure (\<lambda>(st, m). length m)") auto

declare sha_blocks.simps [simp del]

definition sha256 :: "byte list \<Rightarrow> byte list" where
  "sha256 m = concat (map (\<lambda>w. be_bytes 4 (unat w)) (sha_blocks sha_init (sha_pad m)))"

definition hmac_sha256 :: "byte list \<Rightarrow> byte list \<Rightarrow> byte list" where
  "hmac_sha256 secret m =
     (let k = (if length secret > 64 then sha256 secret else secret); k' = k @ replicate (64 - length k) 0
      in sha256 (map (\<lambda>b. b XOR 0x5c) k' @ sha256 (map (\<lambda>b. b XOR 0x36) k' @ m)))"

definition hex_digits :: string where "hex_digits = ''0123456789abcdef''"

definition hex :: "byte list \<Rightarrow> string" where
  "hex bs = concat (map (\<lambda>b. [hex_digits ! (unat b div 16), hex_digits ! (unat b mod 16)]) bs)"

definition url_alphabet :: string where
  "url_alphabet = ''ABCDEFGHIJKLMNOPQRSTUVWXYZabcdefghijklmnopqrstuvwxyz0123456789-_''"

definition sextets :: "nat \<Rightarrow> nat \<Rightarrow> string" where
  "sextets k n = map (\<lambda>i. url_alphabet ! (n div 64 ^ i mod 64)) (rev [0..<k])"

fun base64url :: "byte list \<Rightarrow> string" where
  "base64url (a # b # c # r) = sextets 4 ((unat a * 256 + unat b) * 256 + unat c) @ base64url r"
| "base64url [a, b] = sextets 3 ((unat a * 256 + unat b) * 4)"
| "base64url [a] = sextets 2 (unat a * 16)"
| "base64url [] = []"

subsection \<open>Characters of an encoding\<close>

text \<open>Printable ASCII that needs no escape in a header or cookie: letters, digits, \<open>-\<close> and \<open>_\<close>.\<close>

definition plain :: "char \<Rightarrow> bool" where
  "plain c \<longleftrightarrow> c \<in> set url_alphabet"

lemma length_url_alphabet: "length url_alphabet = 64"
  by (simp add: url_alphabet_def)

lemma sextets_plain: "list_all plain (sextets k n)"
  by (auto simp: sextets_def list_all_iff plain_def length_url_alphabet intro!: nth_mem)

lemma base64url_plain: "list_all plain (base64url bs)"
  by (induction bs rule: base64url.induct) (auto simp: sextets_plain)

lemma length_sextets [simp]: "length (sextets k n) = k"
  by (simp add: sextets_def)

lemma length_base64url: "length (base64url bs) = (4 * length bs + 2) div 3"
  by (induction bs rule: base64url.induct) auto

text \<open>White space starts with a byte outside the alphabet, so trimming leaves such a string alone.\<close>

lemma spaces_not_plain: "list_all (\<lambda>sp. \<not> plain (hd sp) \<and> \<not> plain (hd (rev sp))) spaces"
  by code_simp

lemma trim_by_plain:
  assumes "list_all plain s" and "\<And>sp. sp \<in> set sps \<Longrightarrow> \<not> plain (hd sp)"
  shows "trim_by sps s = s"
proof -
  have "\<not> (sp \<noteq> [] \<and> HasPrefix s sp)" if "sp \<in> set sps" for sp
    using assms(1) assms(2) [OF that] by (cases sp) (auto simp: HasPrefix_iff)
  then have "find (\<lambda>sp. sp \<noteq> [] \<and> HasPrefix s sp) sps = None" by (auto simp: find_None_iff)
  then show ?thesis by (subst trim_by.simps) simp
qed

lemma TrimSpace_plain:
  assumes "list_all plain s"
  shows "TrimSpace s = s"
proof -
  have "trim_by spaces s = s"
    using assms spaces_not_plain by (intro trim_by_plain) (auto simp: list_all_iff)
  moreover have "trim_by (map rev spaces) (rev s) = rev s"
    using assms spaces_not_plain by (intro trim_by_plain) (auto simp: list_all_iff)
  ultimately show ?thesis by (simp add: TrimSpace_def)
qed

end
