(* ===== verification/Auth.thy ===== *)
theory Auth
  imports Sha256
begin

section \<open>Credentials\<close>

text \<open>
  \<^verbatim>\<open>src/internal/auth/auth.go\<close>. The package \<^verbatim>\<open>golang.org/x/crypto/bcrypt\<close> is the parameter \<open>B\<close>: what
  \<open>GenerateFromPassword\<close> returns for a password and the salt it draws (\<open>None\<close>: an error), and whether
  \<open>CompareHashAndPassword\<close> accepts. \<open>bcrypt_ok\<close> is its documented behaviour: a generated hash matches its
  password. The bytes \<open>crypto/rand\<close> delivers are the argument \<open>rnd\<close> (\<open>None\<close>: the read failed).
\<close>

record bcrypt_pkg =
  bc_Generate :: "string \<Rightarrow> int \<Rightarrow> string \<Rightarrow> string option"   \<comment> \<open>password, cost, salt\<close>
  bc_Compare :: "string \<Rightarrow> string \<Rightarrow> bool"
  bc_Cost :: "string \<Rightarrow> int"
  bc_DefaultCost :: int

definition bcrypt_ok :: "bcrypt_pkg \<Rightarrow> bool" where
  "bcrypt_ok B \<longleftrightarrow> (\<forall>pw salt h. bc_Generate B pw (bc_DefaultCost B) salt = Some h \<longrightarrow>
     bc_Compare B h pw \<and> bc_Cost B h = bc_DefaultCost B)"

definition APIKeyPrefix :: string where "APIKeyPrefix = ''dk_''"
definition tokenBytes :: nat where "tokenBytes = 32"
definition prefixDisplayLen :: nat where "prefixDisplayLen = 8"

text \<open>\<open>init\<close>: the value of \<open>dummyPasswordHash\<close>, or a panic (\<open>None\<close>).\<close>

definition auth_init :: "bcrypt_pkg \<Rightarrow> string \<Rightarrow> string option" where
  "auth_init B salt = bc_Generate B ''dispatch-timing-equalizer'' (bc_DefaultCost B) salt"

definition HashPassword :: "bcrypt_pkg \<Rightarrow> string \<Rightarrow> string \<Rightarrow> string option" where
  "HashPassword B salt plaintext = bc_Generate B plaintext (bc_DefaultCost B) salt"

text \<open>The list is the work done: the hashes \<open>CompareHashAndPassword\<close> was run on.\<close>

definition CheckPassword :: "bcrypt_pkg \<Rightarrow> string \<Rightarrow> string \<Rightarrow> bool \<times> string list" where
  "CheckPassword B hash plaintext = (bc_Compare B hash plaintext, [hash])"

definition CheckDummyPassword :: "bcrypt_pkg \<Rightarrow> string \<Rightarrow> string \<Rightarrow> string list" where
  "CheckDummyPassword B dummyPasswordHash plaintext = snd (bc_Compare B dummyPasswordHash plaintext, [dummyPasswordHash])"

text \<open>\<open>rand.Read\<close> fills the whole buffer of \<open>tokenBytes\<close> bytes.\<close>

definition randomToken :: "byte list option \<Rightarrow> string option" where
  "randomToken rnd =
     (case rnd of
        None \<Rightarrow> None
      | Some bs \<Rightarrow> Some (base64url (take tokenBytes (bs @ replicate tokenBytes 0))))"

definition GenerateSessionToken :: "byte list option \<Rightarrow> string option" where
  "GenerateSessionToken rnd = randomToken rnd"

definition GenerateAPIKey :: "byte list option \<Rightarrow> (string \<times> string) option" where
  "GenerateAPIKey rnd =
     (case randomToken rnd of
        None \<Rightarrow> None
      | Some tok \<Rightarrow> Some (APIKeyPrefix @ tok, APIKeyPrefix @ take prefixDisplayLen tok))"

definition HashAPIKey :: "string \<Rightarrow> string" where
  "HashAPIKey full = hex (sha256 (bytes full))"

definition HashSessionToken :: "string \<Rightarrow> string \<Rightarrow> string" where
  "HashSessionToken secret token = hex (hmac_sha256 (bytes secret) (bytes token))"

subsection \<open>Shape of the secrets\<close>

lemma randomToken_shape:
  assumes "randomToken rnd = Some tok"
  shows "length tok = 43" and "list_all plain tok"
  using assms base64url_plain
  by (auto simp: randomToken_def length_base64url tokenBytes_def split: option.splits)

lemma GenerateAPIKey_shape:
  assumes "GenerateAPIKey rnd = Some (full, pre)"
  shows "length full = 46" and "list_all plain full" and "HasPrefix full APIKeyPrefix" and "HasPrefix full pre" and "length pre = 11"
proof -
  from assms obtain tok where tok: "randomToken rnd = Some tok" and f: "full = APIKeyPrefix @ tok"
    "pre = APIKeyPrefix @ take prefixDisplayLen tok"
    by (auto simp: GenerateAPIKey_def split: option.splits)
  note s = randomToken_shape [OF tok]
  show "length full = 46" "length pre = 11" using s f by (simp_all add: APIKeyPrefix_def prefixDisplayLen_def)
  show "list_all plain full" using s f by (simp add: APIKeyPrefix_def plain_def url_alphabet_def)
  show "HasPrefix full APIKeyPrefix" using f by simp
  have "full = pre @ drop prefixDisplayLen tok" using f by simp
  then show "HasPrefix full pre" by simp
qed

end
