(* ===== verification/AuthApi.thy ===== *)
theory AuthApi
  imports Admin Credentials Auth
begin

section \<open>Accounts, sessions and API keys over HTTP\<close>

text \<open>
  \<^verbatim>\<open>src/internal/handlers/auth.go\<close> and \<^verbatim>\<open>src/internal/handlers/keys.go\<close>. The record \<open>api\<close> is the
  \<open>Handler\<close>: the services' packages and the \<open>SessionConfig\<close>. The record \<open>hinput\<close> is what one request
  draws from outside: the ids the server generates, random bytes, the bcrypt salt and the two readings of
  the clock in \<open>startSession\<close> and \<open>setSessionCookie\<close>.
\<close>

record 'r api =
  api_R :: "'r redis"
  api_U :: uuid_pkg
  api_B :: bcrypt_pkg
  api_dummyHash :: string          \<comment> \<open>\<open>dummyPasswordHash\<close> of the package \<open>auth\<close>\<close>
  api_unicode_lower :: "string \<Rightarrow> string"
  ses_Secret :: string
  ses_Secure :: bool
  ses_TTL :: time
  ses_CookieName :: string
  api_queues :: "string list"
  api_G :: pg_aggregates

record hinput =
  hi_New :: uuid
  hi_tenant_id :: uuid
  hi_user_id :: uuid
  hi_row_id :: uuid
  hi_rand :: "byte list option"
  hi_salt :: string
  hi_Now :: time
  hi_Later :: time

subsection \<open>Reading credentials\<close>

definition minPasswordLen :: int where "minPasswordLen = 8"
definition maxPasswordLen :: int where "maxPasswordLen = 72"
definition maxEmailLen :: int where "maxEmailLen = 254"

record credentialsRequest =
  cr_Email :: string
  cr_Password :: string

definition credentials_fields :: "(string \<times> credentialsRequest setter) list" where
  "credentials_fields =
     [(''email'', set_string (\<lambda>v q. q\<lparr>cr_Email := v\<rparr>)), (''password'', set_string (\<lambda>v q. q\<lparr>cr_Password := v\<rparr>))]"

definition validEmail :: "string \<Rightarrow> bool" where
  "validEmail email =
     (if email = [] \<or> int (length email) > maxEmailLen then False
      else let i = IndexByte email (CHR ''@'') in
        if i \<le> 0 \<or> i = int (length email) - 1 then False
        else let domain = drop (nat (i + 1)) email in Contains domain ''.'' \<and> \<not> Contains domain '' '')"

definition decodeCredentials :: "'r api \<Rightarrow> request \<Rightarrow> response + credentialsRequest" where
  "decodeCredentials A r =
     (case decode_struct credentials_fields \<lparr>cr_Email = [], cr_Password = []\<rparr> (rq_Body r) of
        None \<Rightarrow> Inl (writeError 400 ''invalid JSON body'')
      | Some req \<Rightarrow>
          let req = req\<lparr>cr_Email := ToLower (api_unicode_lower A) (TrimSpace (cr_Email req))\<rparr> in
          if \<not> validEmail (cr_Email req) then Inl (writeError 400 ''a valid email is required'')
          else if int (length (cr_Password req)) < minPasswordLen then Inl (writeError 400 ''password must be at least 8 characters'')
          else if int (length (cr_Password req)) > maxPasswordLen then Inl (writeError 400 ''password must be at most 72 characters'')
          else Inr req)"

definition bearerToken :: "string \<Rightarrow> string option" where
  "bearerToken header =
     (let prefix = ''bearer '' in
      if length header < length prefix \<or> \<not> EqualFold (take (length prefix) header) prefix then None
      else let token = TrimSpace (drop (length prefix) header) in
        if token = [] then None else Some token)"

subsection \<open>Session cookies\<close>

text \<open>\<open>int(d.Seconds())\<close>: whole seconds, truncated towards zero.\<close>

definition whole_seconds :: "time \<Rightarrow> int" where
  "whole_seconds d = sgn d * (\<bar>d\<bar> div second)"

definition setSessionCookie :: "'r api \<Rightarrow> time \<Rightarrow> string \<Rightarrow> time \<Rightarrow> cookie" where
  "setSessionCookie A now token expiresAt =
     \<lparr>ck_Name = ses_CookieName A, ck_Value = token, ck_Path = ''/'', ck_Expires = Some expiresAt,
      ck_MaxAge = whole_seconds (expiresAt - now), ck_HttpOnly = True, ck_Secure = ses_Secure A, ck_SameSiteLax = True\<rparr>"

definition clearSessionCookie :: "'r api \<Rightarrow> cookie" where
  "clearSessionCookie A =
     \<lparr>ck_Name = ses_CookieName A, ck_Value = [], ck_Path = ''/'', ck_Expires = None,
      ck_MaxAge = -1, ck_HttpOnly = True, ck_Secure = ses_Secure A, ck_SameSiteLax = True\<rparr>"

text \<open>The error of \<open>startSession\<close> is only tested against \<open>nil\<close>.\<close>

definition startSession :: "'r api \<Rightarrow> hinput \<Rightarrow> pg \<Rightarrow> uuid \<Rightarrow> pg \<times> cookie option" where
  "startSession A i p userID =
     (case GenerateSessionToken (hi_rand i) of
        None \<Rightarrow> (p, None)
      | Some token \<Rightarrow>
          let expiresAt = hi_Now i + ses_TTL A in
          (case CreateSession p (hi_row_id i) userID (HashSessionToken (ses_Secret A) token) expiresAt of
             (p', Inl e) \<Rightarrow> (p', None)
           | (p', Inr _) \<Rightarrow> (p', Some (setSessionCookie A (hi_Later i) token expiresAt))))"

subsection \<open>auth.go\<close>

definition signup :: "'r api \<Rightarrow> hinput \<Rightarrow> 'r handler" where
  "signup A i p c r =
     (case decodeCredentials A r of
        Inl rs \<Rightarrow> (p, c, rs)
      | Inr req \<Rightarrow>
          (case HashPassword (api_B A) (hi_salt i) (cr_Password req) of
             None \<Rightarrow> (p, c, writeError 500 ''failed to process password'')
           | Some hash \<Rightarrow>
               (case CreateAccount p (hi_tenant_id i) (hi_user_id i) (cr_Email req) hash of
                  (p', Inl ErrEmailTaken) \<Rightarrow> (p', c, writeError 409 ''email already registered'')
                | (p', Inl e) \<Rightarrow> (p', c, writeError 500 ''failed to create account'')
                | (p', Inr (t, user)) \<Rightarrow>
                    (case startSession A i p' (user_ID user) of
                       (p'', None) \<Rightarrow> (p'', c, writeError 500 ''account created but failed to start session'')
                     | (p'', Some ck) \<Rightarrow> (p'', c, (writeJSON 201 (User_body user))\<lparr>rs_Cookies := [ck]\<rparr>)))))"

text \<open>\<open>login\<close> with the password comparisons it makes, which its answer does not show.\<close>

definition login_run :: "'r api \<Rightarrow> hinput \<Rightarrow> pg \<Rightarrow> 'r rconn \<Rightarrow> request \<Rightarrow> (pg \<times> 'r rconn \<times> response) \<times> string list" where
  "login_run A i p c r =
     (case decodeCredentials A r of
        Inl rs \<Rightarrow> ((p, c, rs), [])
      | Inr req \<Rightarrow>
          (case GetUserByEmail p (cr_Email req) of
             (p', Inl ErrUserNotFound) \<Rightarrow>
               (let work = CheckDummyPassword (api_B A) (api_dummyHash A) (cr_Password req)
                in ((p', c, writeError 401 ''invalid email or password''), work))
           | (p', Inl e) \<Rightarrow> ((p', c, writeError 500 ''failed to load user''), [])
           | (p', Inr user) \<Rightarrow>
               (case CheckPassword (api_B A) (user_PasswordHash user) (cr_Password req) of
                  (False, work) \<Rightarrow> ((p', c, writeError 401 ''invalid email or password''), work)
                | (True, work) \<Rightarrow>
                    (case startSession A i p' (user_ID user) of
                       (p'', None) \<Rightarrow> ((p'', c, writeError 500 ''failed to start session''), work)
                     | (p'', Some ck) \<Rightarrow> ((p'', c, (writeJSON 200 (User_body user))\<lparr>rs_Cookies := [ck]\<rparr>), work)))))"

definition login :: "'r api \<Rightarrow> hinput \<Rightarrow> 'r handler" where
  "login A i p c r = fst (login_run A i p c r)"

definition logout :: "'r api \<Rightarrow> 'r handler" where
  "logout A p c r =
     (let done = (\<lambda>p'. (p', c, (writeHeader 204)\<lparr>rs_Cookies := [clearSessionCookie A]\<rparr>)) in
      case map_of (rq_Cookies r) (ses_CookieName A) of
        None \<Rightarrow> done p
      | Some value \<Rightarrow>
          (case DeleteSession p (HashSessionToken (ses_Secret A) value) of
             (p', Inl e) \<Rightarrow> (p', c, writeError 500 ''failed to end session'')
           | (p', Inr _) \<Rightarrow> done p'))"

definition me :: "'r handler" where
  "me p c r =
     (case context_user r of
        Inl rs \<Rightarrow> (p, c, rs)
      | Inr user \<Rightarrow>
          (case GetTenant p (user_TenantID user) of
             (p', Inl e) \<Rightarrow> (p', c, writeError 500 ''failed to load tenant'')
           | (p', Inr t) \<Rightarrow> (p', c, writeJSON 200 (Me_body user t))))"

definition RequireSession :: "'r api \<Rightarrow> 'r handler \<Rightarrow> 'r handler" where
  "RequireSession A next p c r =
     (case map_of (rq_Cookies r) (ses_CookieName A) of
        None \<Rightarrow> (p, c, writeError 401 ''authentication required'')
      | Some value \<Rightarrow>
          (case SessionUser p (HashSessionToken (ses_Secret A) value) of
             (p', Inl ErrSessionInvalid) \<Rightarrow> (p', c, writeError 401 ''authentication required'')
           | (p', Inl e) \<Rightarrow> (p', c, writeError 500 ''authentication error'')
           | (p', Inr user) \<Rightarrow> next p' c (WithUser (WithTenant r (user_TenantID user)) user)))"

definition RequireAPIKey :: "'r api \<Rightarrow> 'r handler \<Rightarrow> 'r handler" where
  "RequireAPIKey A next p c r =
     (case bearerToken (rq_Authorization r) of
        None \<Rightarrow> (p, c, writeError 401 ''invalid or missing API key'')
      | Some key \<Rightarrow>
          if \<not> HasPrefix key APIKeyPrefix then (p, c, writeError 401 ''invalid or missing API key'')
          else
            (case AuthenticateAPIKey p (HashAPIKey key) of
               (p', Inl ErrAPIKeyNotFound) \<Rightarrow> (p', c, writeError 401 ''invalid or missing API key'')
             | (p', Inl e) \<Rightarrow> (p', c, writeError 500 ''authentication error'')
             | (p', Inr (t, keyID)) \<Rightarrow>
                 (case TouchAPIKey p' keyID of (p'', _) \<Rightarrow> next p'' c (WithTenant r t))))"

subsection \<open>keys.go\<close>

definition maxKeyNameLen :: int where "maxKeyNameLen = 100"

definition createKey_fields :: "(string \<times> string setter) list" where
  "createKey_fields = [(''name'', set_string (\<lambda>v q. v))]"

definition listKeys :: "'r handler" where
  "listKeys p c r =
     (case tenantID r of
        Inl rs \<Rightarrow> (p, c, rs)
      | Inr t \<Rightarrow>
          (case ListAPIKeys p t of
             (p', Inl e) \<Rightarrow> (p', c, writeError 500 ''failed to list API keys'')
           | (p', Inr ks) \<Rightarrow> (p', c, writeJSON 200 (Key_list_body ks))))"

definition createKey :: "hinput \<Rightarrow> 'r handler" where
  "createKey i p c r =
     (case tenantID r of
        Inl rs \<Rightarrow> (p, c, rs)
      | Inr t \<Rightarrow>
          (case decode_struct createKey_fields [] (rq_Body r) of
             None \<Rightarrow> (p, c, writeError 400 ''invalid JSON body'')
           | Some name \<Rightarrow>
               let name = TrimSpace name in
               if name = [] then (p, c, writeError 400 ''name is required'')
               else if int (length name) > maxKeyNameLen then (p, c, writeError 400 ''name must be at most 100 characters'')
               else
                 (case GenerateAPIKey (hi_rand i) of
                    None \<Rightarrow> (p, c, writeError 500 ''failed to generate key'')
                  | Some (full, prefix) \<Rightarrow>
                      (case CreateAPIKey p (hi_row_id i) t name (HashAPIKey full) prefix of
                         (p', Inl e) \<Rightarrow> (p', c, writeError 500 ''failed to create key'')
                       | (p', Inr key) \<Rightarrow>
                           (p', c, writeJSON 201 (Key_body \<lparr>ckr_ID = key_ID key, ckr_Name = key_Name key, ckr_Key = full,
                              ckr_KeyPrefix = key_KeyPrefix key, ckr_CreatedAt = key_CreatedAt key\<rparr>))))))"

definition deleteKey :: "'r api \<Rightarrow> 'r handler" where
  "deleteKey A p c r =
     (case tenantID r of
        Inl rs \<Rightarrow> (p, c, rs)
      | Inr t \<Rightarrow>
          (case uuid_Parse (api_U A) (rq_Param_id r) of
             None \<Rightarrow> (p, c, writeError 400 ''invalid key id'')
           | Some k \<Rightarrow>
               (case DeleteAPIKey p t k of
                  (p', Inl ErrAPIKeyNotFound) \<Rightarrow> (p', c, writeError 404 ''key not found'')
                | (p', Inl e) \<Rightarrow> (p', c, writeError 500 ''failed to delete key'')
                | (p', Inr _) \<Rightarrow> (p', c, writeHeader 204))))"

subsection \<open>handlers.go\<close>

definition DefaultSessionTTL :: time where "DefaultSessionTTL = 7 * 24 * hour"
definition defaultCookieName :: string where "defaultCookieName = ''dispatch_session''"

definition New :: "'r api \<Rightarrow> 'r api" where
  "New A =
     (let A = (if ses_TTL A = 0 then A\<lparr>ses_TTL := DefaultSessionTTL\<rparr> else A)
      in if ses_CookieName A = [] then A\<lparr>ses_CookieName := defaultCookieName\<rparr> else A)"

text \<open>
  \<open>Routes\<close>: which middleware guards which handler. The router, \<^verbatim>\<open>github.com/go-chi/chi\<close>, picks the route.
\<close>

datatype route =
    POST_signup | POST_login | POST_logout | GET_me
  | Job_route job_route
  | GET_keys | POST_keys | DELETE_key
  | Admin_route admin_route
  | GET_healthz

fun Routes :: "'r api \<Rightarrow> hinput \<Rightarrow> route \<Rightarrow> 'r handler" where
  "Routes A i POST_signup = signup A i"
| "Routes A i POST_login = login A i"
| "Routes A i POST_logout = RequireSession A (logout A)"
| "Routes A i GET_me = RequireSession A me"
| "Routes A i (Job_route jr) = RequireAPIKey A (job_handler (api_R A) (api_U A) (hi_New i) jr)"
| "Routes A i GET_keys = RequireSession A listKeys"
| "Routes A i POST_keys = RequireSession A (createKey i)"
| "Routes A i DELETE_key = RequireSession A (deleteKey A)"
| "Routes A i (Admin_route ar) = RequireSession A (admin_handler (api_R A) (api_G A) (api_queues A) ar)"
| "Routes A i GET_healthz = health"

lemma login_eq:
  "login A i p c r =
     (case decodeCredentials A r of
        Inl rs \<Rightarrow> (p, c, rs)
      | Inr req \<Rightarrow>
          (case GetUserByEmail p (cr_Email req) of
             (p', Inl ErrUserNotFound) \<Rightarrow> (p', c, writeError 401 ''invalid email or password'')
           | (p', Inl e) \<Rightarrow> (p', c, writeError 500 ''failed to load user'')
           | (p', Inr user) \<Rightarrow>
               if \<not> bc_Compare (api_B A) (user_PasswordHash user) (cr_Password req)
               then (p', c, writeError 401 ''invalid email or password'')
               else
                 (case startSession A i p' (user_ID user) of
                    (p'', None) \<Rightarrow> (p'', c, writeError 500 ''failed to start session'')
                  | (p'', Some ck) \<Rightarrow> (p'', c, (writeJSON 200 (User_body user))\<lparr>rs_Cookies := [ck]\<rparr>))))"
  by (auto simp: login_def login_run_def CheckPassword_def Let_def split: sum.split prod.split account_err.split option.split bool.split)

subsection \<open>The two guards\<close>

text \<open>The tenant a request's API key stands for, and the user its session cookie stands for.\<close>

definition key_caller :: "pg \<Rightarrow> request \<Rightarrow> uuid option" where
  "key_caller p r =
     (case bearerToken (rq_Authorization r) of
        None \<Rightarrow> None
      | Some key \<Rightarrow> if HasPrefix key APIKeyPrefix then map_option key_TenantID (key_row p (HashAPIKey key)) else None)"

definition session_caller :: "'r api \<Rightarrow> pg \<Rightarrow> request \<Rightarrow> user option" where
  "session_caller A p r =
     (case map_of (rq_Cookies r) (ses_CookieName A) of
        None \<Rightarrow> None
      | Some v \<Rightarrow> if pg_text_ok p (HashSessionToken (ses_Secret A) v) then live_session p (HashSessionToken (ses_Secret A) v) else None)"

lemma AuthenticateAPIKey_ok:
  assumes "accounts_ok low (pg_db p)" and "AuthenticateAPIKey p h = (p', Inr (t, k))"
  shows "\<exists>x. key_row p h = Some x \<and> key_TenantID x = t \<and> key_ID x = k"
proof -
  have "snd (AuthenticateAPIKey p h) = Inr (t, k)" using assms(2) by simp
  with AuthenticateAPIKey_result [OF assms(1), of h] show ?thesis
    by (auto simp: key_row_def split: if_splits option.splits)
qed

lemma AuthenticateAPIKey_texts: "same_texts (fst (AuthenticateAPIKey p h)) p"
  unfolding fst_account_calls by (metis prod.collapse same_texts_exec)

lemma TouchAPIKey_tables:
  "jobs (pg_db (fst (TouchAPIKey p k))) = jobs (pg_db p)" "schema_ok (pg_db p) \<Longrightarrow> schema_ok (pg_db (fst (TouchAPIKey p k)))"
  "accounts_ok (pg_lower p) (pg_db p) \<Longrightarrow> accounts_ok (pg_lower p) (pg_db (fst (TouchAPIKey p k)))"
  unfolding fst_account_calls by (auto intro: keeps_exec [OF keeps_stmts(13)])

lemma own_jobs_cong: "jobs d = jobs d' \<Longrightarrow> own t d = own t d'"
  by (simp add: own_def fun_eq_iff)

text \<open>
  What the key guard lets through: nothing without a live key (an answer 401 or 500 that ran no handler),
  and otherwise the handler with the tenant of that key, on the same jobs.
\<close>

lemma RequireAPIKey_cases:
  assumes "RequireAPIKey A serve p c r = (p', c', rs)" and "accounts_ok (pg_lower p) (pg_db p)"
  obtains (refused) "pg_db p' = pg_db p" "same_texts p' p" "c' = c" "rs_Status rs \<in> {401, 500}" "rs_Body rs \<in> range Error_body"
  | (served) t q where "key_caller p r = Some t" "serve q c (WithTenant r t) = (p', c', rs)" "jobs (pg_db q) = jobs (pg_db p)"
      "schema_ok (pg_db p) \<Longrightarrow> schema_ok (pg_db q)" "accounts_ok (pg_lower p) (pg_db q)"
      "\<exists>k. q = fst (TouchAPIKey (fst (AuthenticateAPIKey p (HashAPIKey (the (bearerToken (rq_Authorization r)))))) k)"
proof -
  have quiet: thesis if "(p', c', rs) = (q, c, writeError n m)" "pg_db q = pg_db p" "same_texts q p" "n \<in> {401, 500}" for q n m
    using that by (intro refused) auto
  show ?thesis
  proof (cases "bearerToken (rq_Authorization r)")
    case None
    with assms(1) show ?thesis by (intro quiet [of p 401]) (auto simp: RequireAPIKey_def)
  next
    case (Some key)
    obtain q res where a: "AuthenticateAPIKey p (HashAPIKey key) = (q, res)" by force
    have q: "pg_db q = pg_db p" using select_db(2) [of p "HashAPIKey key"] a by simp
    have st: "same_texts q p" using a AuthenticateAPIKey_texts [of p "HashAPIKey key"] by simp
    then have low: "pg_lower q = pg_lower p" by (simp add: same_texts_def)
    show ?thesis
    proof (cases "HasPrefix key APIKeyPrefix")
      case False
      with Some assms(1) show ?thesis by (intro quiet [of p 401]) (auto simp: RequireAPIKey_def)
    next
      case pre: True
      show ?thesis
      proof (cases res)
        case (Inl e)
        with Some pre a q st assms(1) show ?thesis
          by (cases e) (auto simp: RequireAPIKey_def intro: quiet)
      next
        case (Inr tk)
        obtain t k where tk: "tk = (t, k)" by force
        obtain q' u where t: "TouchAPIKey q k = (q', u)" by force
        have s: "serve q' c (WithTenant r t) = (p', c', rs)"
          using assms(1) Some pre a Inr tk t by (simp add: RequireAPIKey_def)
        have "key_caller p r = Some t"
          using AuthenticateAPIKey_ok [OF assms(2) a [unfolded Inr tk]] Some pre by (auto simp: key_caller_def)
        then show ?thesis
          using s TouchAPIKey_tables [of q k] t q low assms(2) a Some
          by (intro served [of t q']) (auto intro!: exI [of _ k])
      qed
    qed
  qed
qed

text \<open>The same for the session guard, which writes nothing itself.\<close>

lemma RequireSession_cases:
  assumes "RequireSession A serve p c r = (p', c', rs)" and "accounts_ok (pg_lower p) (pg_db p)"
  obtains (refused) "pg_db p' = pg_db p" "same_texts p' p" "c' = c" "rs_Status rs \<in> {401, 500}" "rs_Body rs \<in> range Error_body"
  | (served) u q where "session_caller A p r = Some u" "pg_db q = pg_db p" "same_texts q p"
      "serve q c (WithUser (WithTenant r (user_TenantID u)) u) = (p', c', rs)"
proof -
  have quiet: thesis if "(p', c', rs) = (q, c, writeError n m)" "pg_db q = pg_db p" "same_texts q p" "n \<in> {401, 500}" for q n m
    using that by (intro refused) auto
  show ?thesis
  proof (cases "map_of (rq_Cookies r) (ses_CookieName A)")
    case None
    with assms(1) show ?thesis by (intro quiet [of p 401]) (auto simp: RequireSession_def)
  next
    case (Some v)
    let ?h = "HashSessionToken (ses_Secret A) v"
    obtain q res where a: "SessionUser p ?h = (q, res)" by force
    have q: "pg_db q = pg_db p" using select_db(1) [of p ?h] a by simp
    have st: "same_texts q p"
      using a by (auto simp: SessionUser_def split: prod.splits sum.splits option.splits dest: same_texts_exec)
    show ?thesis
    proof (cases res)
      case (Inl e)
      with Some a q st assms(1) show ?thesis by (cases e) (auto simp: RequireSession_def intro: quiet)
    next
      case (Inr u)
      have "session_caller A p r = Some u"
        using SessionUser_result [OF assms(2), of ?h] a Inr Some by (auto simp: session_caller_def split: if_splits option.splits)
      with Some a Inr q st assms(1) show ?thesis by (intro served [of u q]) (auto simp: RequireSession_def)
    qed
  qed
qed

context tenant_endpoint
begin

lemma session_guarded:
  assumes "RequireSession A serve p c r = (p', c', rs)" and "schema_ok (pg_db p)" and "accounts_ok (pg_lower p) (pg_db p)"
  shows "session_caller A p r = None \<Longrightarrow> pg_db p' = pg_db p \<and> c' = c \<and> rs_Status rs \<in> {401, 500}"
    and "j \<in> set (body_jobs (rs_Body rs)) \<Longrightarrow> map_option user_TenantID (session_caller A p r) = Some (job_TenantID j)"
proof -
  from assms(1,3) have "(session_caller A p r = None \<longrightarrow> pg_db p' = pg_db p \<and> c' = c \<and> rs_Status rs \<in> {401, 500}) \<and>
    (j \<in> set (body_jobs (rs_Body rs)) \<longrightarrow> map_option user_TenantID (session_caller A p r) = Some (job_TenantID j))"
  proof (cases rule: RequireSession_cases)
    case refused
    then show ?thesis by auto
  next
    case (served u q)
    then show ?thesis
      using own_jobs [of q c "WithUser (WithTenant r (user_TenantID u)) u" p' c' rs "user_TenantID u" j] assms(2)
      by (auto simp: WithUser_def WithTenant_def)
  qed
  then show "session_caller A p r = None \<Longrightarrow> pg_db p' = pg_db p \<and> c' = c \<and> rs_Status rs \<in> {401, 500}"
    and "j \<in> set (body_jobs (rs_Body rs)) \<Longrightarrow> map_option user_TenantID (session_caller A p r) = Some (job_TenantID j)"
    by blast+
qed

lemma guarded:
  assumes "RequireAPIKey A serve p c r = (p', c', rs)" and "schema_ok (pg_db p)" and "accounts_ok (pg_lower p) (pg_db p)"
  shows "schema_ok (pg_db p')" and "accounts_ok (pg_lower p) (pg_db p')"
    and "key_caller p r \<noteq> Some t \<Longrightarrow> own t (pg_db p') = own t (pg_db p)"
    and "j \<in> set (body_jobs (rs_Body rs)) \<Longrightarrow> key_caller p r = Some (job_TenantID j)"
    and "key_caller p r = None \<Longrightarrow> pg_db p' = pg_db p \<and> c' = c \<and> rs_Status rs \<in> {401, 500}"
proof -
  have acc: "accounts_ok low d \<longleftrightarrow> accounts_ok low d'" if "accounts d = accounts d'" for low d d'
    using that by (simp add: accounts_ok_def accounts_def)
  from assms(1,3) have "schema_ok (pg_db p') \<and> accounts_ok (pg_lower p) (pg_db p') \<and>
    (key_caller p r \<noteq> Some t \<longrightarrow> own t (pg_db p') = own t (pg_db p)) \<and>
    (j \<in> set (body_jobs (rs_Body rs)) \<longrightarrow> key_caller p r = Some (job_TenantID j)) \<and>
    (key_caller p r = None \<longrightarrow> pg_db p' = pg_db p \<and> c' = c \<and> rs_Status rs \<in> {401, 500})"
  proof (cases rule: RequireAPIKey_cases)
    case refused
    with assms show ?thesis by auto
  next
    case (served u q)
    have q: "schema_ok (pg_db q)" using served assms(2) by blast
    have w: "rq_tenant (WithTenant r u) = Some u" by (simp add: WithTenant_def)
    note laws = keeps_schema [OF q served(2)] keeps_accounts [OF q served(2)] others_kept [OF q served(2) w] own_jobs [OF q served(2) w]
    have "own x (pg_db q) = own x (pg_db p)" for x by (rule own_jobs_cong) (rule served(3))
    with laws served(1,5) acc [OF laws(2)] show ?thesis by auto
  qed
  then show "schema_ok (pg_db p')" and "accounts_ok (pg_lower p) (pg_db p')"
    and "key_caller p r \<noteq> Some t \<Longrightarrow> own t (pg_db p') = own t (pg_db p)"
    and "j \<in> set (body_jobs (rs_Body rs)) \<Longrightarrow> key_caller p r = Some (job_TenantID j)"
    and "key_caller p r = None \<Longrightarrow> pg_db p' = pg_db p \<and> c' = c \<and> rs_Status rs \<in> {401, 500}"
    by blast+
qed

end

subsection \<open>Many requests\<close>

text \<open>A run of requests to the job endpoints; each draws its own input.\<close>

fun serve_all :: "'r api \<Rightarrow> (hinput \<times> job_route \<times> request) list \<Rightarrow> pg \<Rightarrow> 'r rconn \<Rightarrow> pg \<times> 'r rconn" where
  "serve_all A [] p c = (p, c)"
| "serve_all A ((i, jr, r) # rs) p c =
     (case Routes A i (Job_route jr) p c r of (p', c', _) \<Rightarrow> serve_all A rs p' c')"

text \<open>Serving a job request changes no key but the time of its last use.\<close>

definition same_keys :: "pg \<Rightarrow> pg \<Rightarrow> bool" where
  "same_keys p q \<longleftrightarrow> same_texts p q \<and>
     (\<forall>h. map_option key_TenantID (row_by key_KeyHash h (api_keys (pg_db p))) =
          map_option key_TenantID (row_by key_KeyHash h (api_keys (pg_db q))))"

lemma same_keys_caller: "same_keys p q \<Longrightarrow> key_caller p r = key_caller q r"
  by (auto simp: same_keys_def same_texts_def key_caller_def key_row_def split: option.splits)

lemma same_keys_trans: "same_keys p q \<Longrightarrow> same_keys q s \<Longrightarrow> same_keys p s"
  by (auto simp: same_keys_def same_texts_def)

lemma same_keys_tables: "same_texts p q \<Longrightarrow> api_keys (pg_db p) = api_keys (pg_db q) \<Longrightarrow> same_keys p q"
  by (simp add: same_keys_def)

lemma same_keys_touch: "same_keys (fst (TouchAPIKey p k)) p"
proof -
  have "map_option key_TenantID (row_by key_KeyHash h (sql_update (\<lambda>x. key_ID x = k) (\<lambda>x. x\<lparr>key_LastUsedAt := u\<rparr>) ks)) =
      map_option key_TenantID (row_by key_KeyHash h ks)" for h u ks
    by (induction ks) (simp_all add: sql_update_def)
  moreover have "same_texts (fst (exec (touch_key k) p)) p" by (metis prod.collapse same_texts_exec)
  ultimately show ?thesis
    using exec_db_cases [of "touch_key k" p]
    by (auto simp: same_keys_def fst_account_calls touch_key_def)
qed

lemma guarded_keys:
  assumes "Routes A i (Job_route jr) p c r = (p', c', rs)" and "schema_ok (pg_db p)" and "accounts_ok (pg_lower p) (pg_db p)"
  shows "same_keys p' p"
proof -
  let ?serve = "job_handler (api_R A) (api_U A) (hi_New i) jr"
  have a: "RequireAPIKey A ?serve p c r = (p', c', rs)" using assms(1) by simp
  from a assms(3) show ?thesis
  proof (cases rule: RequireAPIKey_cases)
    case refused
    then show ?thesis by (intro same_keys_tables) simp_all
  next
    case (served t q)
    then obtain k where q: "q = fst (TouchAPIKey (fst (AuthenticateAPIKey p (HashAPIKey (the (bearerToken (rq_Authorization r)))))) k)"
      by blast
    have "accounts (pg_db p') = accounts (pg_db q)"
      using job_api.keeps_accounts [OF served(4) [OF assms(2)] served(2)] .
    then have "same_keys p' q"
      using job_api.keeps_texts [OF served(2)] by (intro same_keys_tables) (simp_all add: accounts_def)
    moreover have "same_keys (fst (AuthenticateAPIKey p h)) p" for h by (intro same_keys_tables AuthenticateAPIKey_texts) simp
    ultimately show ?thesis unfolding q using same_keys_touch same_keys_trans by blast
  qed
qed

lemma serve_all_others:
  assumes "serve_all A rs p c = (p', c')" and "schema_ok (pg_db p)" and "accounts_ok (pg_lower p) (pg_db p)"
    and "\<forall>(i, jr, r) \<in> set rs. key_caller p r \<noteq> Some t"
  shows "own t (pg_db p') = own t (pg_db p) \<and> schema_ok (pg_db p') \<and> same_keys p' p"
  using assms
proof (induction rs arbitrary: p c)
  case Nil
  then show ?case by (auto simp: same_keys_def)
next
  case (Cons x rs)
  obtain i jr r where x: "x = (i, jr, r)" by (cases x)
  obtain q d res where s: "Routes A i (Job_route jr) p c r = (q, d, res)" by (metis prod.collapse)
  have g: "RequireAPIKey A (job_handler (api_R A) (api_U A) (hi_New i) jr) p c r = (q, d, res)" using s by simp
  note l = job_api.guarded [OF g Cons.prems(2,3)]
  have k: "same_keys q p" by (rule guarded_keys [OF s Cons.prems(2,3)])
  have low: "pg_lower q = pg_lower p" using k by (simp add: same_keys_def same_texts_def)
  have "own t (pg_db q) = own t (pg_db p)" using l(3) [of t] Cons.prems(4) x by auto
  moreover have "own t (pg_db p') = own t (pg_db q) \<and> schema_ok (pg_db p') \<and> same_keys p' q"
    using Cons.prems(1,4) s l(1,2) low same_keys_caller [OF k] by (intro Cons.IH [of q d]) (auto simp: x)
  ultimately show ?case using k same_keys_trans by metis
qed

end
