(* ===== verification/AuthFlows.thy ===== *)
theory AuthFlows
  imports AuthApi
begin

section \<open>From credentials to requests\<close>

text \<open>
  How the handlers that issue and revoke credentials and the guards that check them work together, on a
  working database (\<open>accounts_up\<close>) whose encoding accepts hex digits (\<open>accepts_hex\<close>).
\<close>

definition accepts_hex :: "pg \<Rightarrow> bool" where
  "accepts_hex p \<longleftrightarrow> (\<forall>bs. pg_text_ok p (hex bs))"

lemma accepts_hashes:
  "accepts_hex p \<Longrightarrow> pg_text_ok p (HashAPIKey k)" "accepts_hex p \<Longrightarrow> pg_text_ok p (HashSessionToken s v)"
  by (simp_all add: accepts_hex_def HashAPIKey_def HashSessionToken_def)

definition with_bearer :: "string \<Rightarrow> request \<Rightarrow> request" where
  "with_bearer key r = r\<lparr>rq_Authorization := ''Bearer '' @ key\<rparr>"

definition with_cookie :: "cookie \<Rightarrow> request \<Rightarrow> request" where
  "with_cookie ck r = r\<lparr>rq_Cookies := [(ck_Name ck, ck_Value ck)]\<rparr>"

lemma bearer_fold: "EqualFold ''Bearer '' ''bearer ''"
  by code_simp

lemma bearerToken_plain: "list_all plain key \<Longrightarrow> key \<noteq> [] \<Longrightarrow> bearerToken (''Bearer '' @ key) = Some key"
  using bearer_fold by (simp add: bearerToken_def TrimSpace_plain Let_def)

subsection \<open>API keys\<close>

lemma key_caller_issued:
  assumes "GenerateAPIKey rnd = Some (full, pre)"
  shows "key_caller p (with_bearer full r) = map_option key_TenantID (key_row p (HashAPIKey full))"
proof -
  note s = GenerateAPIKey_shape [OF assms]
  have "full \<noteq> []" using s(1) by auto
  then show ?thesis using bearerToken_plain [OF s(2)] s(3) by (simp add: key_caller_def with_bearer_def)
qed

text \<open>The key guard on a working database: 401 without a live key, the handler with the key's tenant otherwise.\<close>

lemma RequireAPIKey_up:
  assumes "accounts_up now p" and "accepts_hex p"
  shows "key_caller p r = None \<Longrightarrow> RequireAPIKey A serve p c r = (p, c, writeError 401 ''invalid or missing API key'')"
    and "key_caller p r = Some t \<Longrightarrow> \<exists>k. RequireAPIKey A serve p c r = serve (fst (TouchAPIKey p k)) c (WithTenant r t)"
proof -
  have a: "AuthenticateAPIKey p (HashAPIKey key) = (p, case key_row p (HashAPIKey key) of
      None \<Rightarrow> Inl ErrAPIKeyNotFound | Some k \<Rightarrow> Inr (key_TenantID k, key_ID k))" for key
    using AuthenticateAPIKey_up [OF assms(1), of "HashAPIKey key"] accepts_hashes(1) [OF assms(2), of key] by simp
  show "key_caller p r = None \<Longrightarrow> RequireAPIKey A serve p c r = (p, c, writeError 401 ''invalid or missing API key'')"
    by (auto simp: RequireAPIKey_def key_caller_def a split: option.splits if_splits)
  show "key_caller p r = Some t \<Longrightarrow> \<exists>k. RequireAPIKey A serve p c r = serve (fst (TouchAPIKey p k)) c (WithTenant r t)"
    by (auto simp: RequireAPIKey_def key_caller_def a split: option.splits if_splits prod.split) (metis fst_conv)
qed

lemma createKey_created:
  assumes "createKey i p c r = (p', c', rs)" and "rq_tenant r = Some t" and "rs_Status rs = 201"
  obtains full pre name k where "GenerateAPIKey (hi_rand i) = Some (full, pre)"
    "CreateAPIKey p (hi_row_id i) t name (HashAPIKey full) pre = (p', Inr k)" "c' = c" "name \<noteq> []"
    "rs_Body rs = Key_body \<lparr>ckr_ID = key_ID k, ckr_Name = key_Name k, ckr_Key = full,
       ckr_KeyPrefix = key_KeyPrefix k, ckr_CreatedAt = key_CreatedAt k\<rparr>"
  using assms
  by (auto simp: createKey_def tenantID_def tenantFromContext_def Let_def
      split: option.splits if_splits prod.splits sum.splits)

lemma accounts_up_call:
  assumes "accounts_up now p"
  shows "accounts_up now (fst (CreateAPIKey p g t n h pre))" "pg_text_ok (fst (CreateAPIKey p g t n h pre)) = pg_text_ok p"
    "accounts_up now (fst (DeleteAPIKey p t k))" "pg_text_ok (fst (DeleteAPIKey p t k)) = pg_text_ok p"
    "accounts_up now (fst (CreateSession p g u h e))" "pg_text_ok (fst (CreateSession p g u h e)) = pg_text_ok p"
    "accounts_up now (fst (DeleteSession p h))" "pg_text_ok (fst (DeleteSession p h)) = pg_text_ok p"
  unfolding fst_account_calls
  using exec_up(1) [OF keeps_inserts(4) assms] exec_up(1) [OF keeps_changes(2) assms]
    exec_up(1) [OF keeps_inserts(3) assms] exec_up(1) [OF keeps_changes(1) assms] by simp_all

text \<open>\<open>DeleteAPIKey\<close> on a working database, by key id.\<close>

lemma DeleteAPIKey_up:
  assumes "accounts_up now p"
  shows "DeleteAPIKey p t k =
    (case row_by key_ID k (api_keys (pg_db p)) of
       Some x \<Rightarrow> if key_TenantID x = t
         then (p\<lparr>pg_db := (pg_db p)\<lparr>api_keys := sql_delete (\<lambda>y. key_ID y = k \<and> key_TenantID y = t) (api_keys (pg_db p))\<rparr>\<rparr>, Inr ())
         else (p, Inl ErrAPIKeyNotFound)
     | None \<Rightarrow> (p, Inl ErrAPIKeyNotFound))"
proof -
  from assms have h: "healthy p" and d: "distinct (map key_ID (api_keys (pg_db p)))"
    by (auto simp: accounts_up_def dest: accounts_distinct)
  note f = filter_by_key [OF d, of k "\<lambda>x. key_TenantID x = t"]
  have del: "filter w ks = [] \<Longrightarrow> sql_delete w ks = ks" for w :: "api_key \<Rightarrow> bool" and ks
    by (induction ks) (auto simp: sql_delete_def split: if_splits)
  show ?thesis
    using f del [of "\<lambda>y. key_ID y = k \<and> key_TenantID y = t" "api_keys (pg_db p)"]
    by (auto simp: DeleteAPIKey_def exec_healthy [OF h] delete_key_def Let_def split: option.splits if_splits)
qed

lemma deleteKey_answers:
  assumes "accounts_up now p" and "rq_tenant r = Some t" and "uuid_Parse (api_U A) (rq_Param_id r) = Some k"
  shows "deleteKey A p c r =
    (case row_by key_ID k (api_keys (pg_db p)) of
       Some x \<Rightarrow> if key_TenantID x = t then (fst (DeleteAPIKey p t k), c, writeHeader 204)
         else (p, c, writeError 404 ''key not found'')
     | None \<Rightarrow> (p, c, writeError 404 ''key not found''))"
  using assms(2,3) by (auto simp: deleteKey_def tenantID_def tenantFromContext_def DeleteAPIKey_up [OF assms(1)] split: option.splits)

lemma deleted_key_row:
  assumes "accounts_up now p" and "row_by key_ID k (api_keys (pg_db p)) = Some x"
  shows "key_row (fst (DeleteAPIKey p (key_TenantID x) k)) h = (if h = key_KeyHash x then None else key_row p h)"
proof -
  have x: "x \<in> set (api_keys (pg_db p))" "key_ID x = k" using assms(2) by (auto dest: row_by_SomeD)
  have d: "distinct (map key_ID (api_keys (pg_db p)))" "distinct (map key_KeyHash (api_keys (pg_db p)))"
    using assms(1) by (auto simp: accounts_up_def dest: accounts_distinct)
  from delete_key_row [OF d x(1), of h] x(2) assms(2) show ?thesis
    by (cases "h = key_KeyHash x") (simp_all add: key_row_def DeleteAPIKey_up [OF assms(1)])
qed

subsection \<open>Sessions\<close>

lemma startSession_ok:
  assumes "startSession A i p u = (p', Some ck)"
  obtains token where "GenerateSessionToken (hi_rand i) = Some token"
    "CreateSession p (hi_row_id i) u (HashSessionToken (ses_Secret A) token) (hi_Now i + ses_TTL A) = (p', Inr ())"
    "ck = setSessionCookie A (hi_Later i) token (hi_Now i + ses_TTL A)"
  using assms by (auto simp: startSession_def Let_def split: option.splits prod.splits sum.splits)

lemma startSession_some:
  assumes "GenerateSessionToken (hi_rand i) = Some token"
    and "CreateSession p (hi_row_id i) u (HashSessionToken (ses_Secret A) token) (hi_Now i + ses_TTL A) = (p', Inr ())"
  shows "startSession A i p u = (p', Some (setSessionCookie A (hi_Later i) token (hi_Now i + ses_TTL A)))"
  using assms by (simp add: startSession_def)

lemma live_session_created:
  assumes "CreateSession p g u h e = (p', Inr x)" and "row_by user_ID u (users (pg_db p)) = Some user"
  shows "live_session (p'\<lparr>pg_now := n\<rparr>) h = (if n < e then Some user else None)"
proof -
  note r = CreateSession_ok [OF assms(1)]
  then have "row_by sess_token_hash h (sessions (pg_db p)) = None" by (simp add: row_by_None_iff)
  with r assms(2) show ?thesis by (auto simp: live_session_def row_by_append)
qed

lemma RequireSession_up:
  assumes "accounts_up now p" and "accepts_hex p"
  shows "RequireSession A serve p c r =
    (case session_caller A p r of
       None \<Rightarrow> (p, c, writeError 401 ''authentication required'')
     | Some user \<Rightarrow> serve p c (WithUser (WithTenant r (user_TenantID user)) user))"
proof -
  have h: "healthy p" and ok: "accounts_ok (pg_lower p) (pg_db p)" using assms(1) by (auto simp: accounts_up_def)
  have "SessionUser p h = (p, case live_session p h of None \<Rightarrow> Inl ErrSessionInvalid | Some u \<Rightarrow> Inr u)"
    if "pg_text_ok p h" for h
    using that by (simp add: SessionUser_def exec_healthy [OF \<open>healthy p\<close>] session_join_def session_join_rows [OF ok] split: option.split)
  then show ?thesis
    by (auto simp: RequireSession_def session_caller_def accepts_hashes(2) [OF assms(2)] split: option.splits)
qed

lemma session_cookie_caller:
  assumes "startSession A i p u = (p', Some ck)" and "row_by user_ID u (users (pg_db p)) = Some user" and "accepts_hex (p'\<lparr>pg_now := n\<rparr>)"
  shows "session_caller A (p'\<lparr>pg_now := n\<rparr>) (with_cookie ck r) = (if n < hi_Now i + ses_TTL A then Some user else None)"
proof -
  obtain token where t: "CreateSession p (hi_row_id i) u (HashSessionToken (ses_Secret A) token) (hi_Now i + ses_TTL A) = (p', Inr ())"
    "ck = setSessionCookie A (hi_Later i) token (hi_Now i + ses_TTL A)"
    using assms(1) by (rule startSession_ok)
  from live_session_created [OF t(1) assms(2), of n] accepts_hashes(2) [OF assms(3)] show ?thesis
    by (simp add: session_caller_def with_cookie_def t(2) setSessionCookie_def)
qed

lemma DeleteSession_up:
  assumes "accounts_up now p" and "pg_text_ok p h"
  shows "DeleteSession p h = (p\<lparr>pg_db := (pg_db p)\<lparr>sessions := sql_delete (\<lambda>s. sess_token_hash s = h) (sessions (pg_db p))\<rparr>\<rparr>, Inr ())"
  using assms by (simp add: DeleteSession_def accounts_up_def exec_healthy delete_session_def)

text \<open>Logging out ends the session of the presented cookie for good, and asks the browser to drop it.\<close>

lemma logout_ends:
  assumes "accounts_up now p" and "accepts_hex p" and "map_of (rq_Cookies r) (ses_CookieName A) = Some v"
  shows "\<exists>p'. logout A p c r = (p', c, (writeHeader 204)\<lparr>rs_Cookies := [clearSessionCookie A]\<rparr>) \<and>
    (\<forall>n. session_caller A (p'\<lparr>pg_now := n\<rparr>) r = None) \<and> accounts_up now p'"
proof -
  let ?h = "HashSessionToken (ses_Secret A) v"
  note d = DeleteSession_up [OF assms(1) accepts_hashes(2) [OF assms(2), of "ses_Secret A" v]]
  have "accounts_up now (fst (DeleteSession p ?h))" by (rule accounts_up_call(7) [OF assms(1)])
  moreover have "live_session ((fst (DeleteSession p ?h))\<lparr>pg_now := n\<rparr>) ?h = None" for n
    by (simp add: d live_session_def row_by_delete)
  ultimately show ?thesis
    using d assms(3) by (auto simp: logout_def session_caller_def)
qed

subsection \<open>Accounts\<close>

lemma signup_created:
  assumes "signup A i p c r = (p', c', rs)" and "rs_Status rs = 201"
  obtains req hash t user p1 ck where "decodeCredentials A r = Inr req"
    "HashPassword (api_B A) (hi_salt i) (cr_Password req) = Some hash"
    "CreateAccount p (hi_tenant_id i) (hi_user_id i) (cr_Email req) hash = (p1, Inr (t, user))"
    "startSession A i p1 (user_ID user) = (p', Some ck)" "rs_Body rs = User_body user" "rs_Cookies rs = [ck]" "c' = c"
proof -
  have "\<exists>e. decodeCredentials A r = Inr e \<or> (\<exists>m. decodeCredentials A r = Inl (writeError 400 m))"
    by (auto simp: decodeCredentials_def Let_def split: option.splits)
  then show ?thesis
    using assms that
    by (auto simp: signup_def split: sum.splits option.splits prod.splits account_err.splits)
qed

lemma GetUserByEmail_healthy:
  assumes "healthy p" and "accounts_ok (pg_lower p) (pg_db p)" and "pg_text_ok p email"
  shows "GetUserByEmail p email =
    (p, case row_by (\<lambda>u. pg_lower p (user_Email u)) (pg_lower p email) (users (pg_db p)) of
       None \<Rightarrow> Inl ErrUserNotFound | Some u \<Rightarrow> Inr u)"
  using assms(3) rows_by_key [OF accounts_distinct(2) [OF assms(2)], of "pg_lower p email"]
  by (simp add: GetUserByEmail_def scanUser_def exec_healthy [OF assms(1)] select_email_def split: option.split)

lemma login_answers:
  assumes "healthy p" and "accounts_ok (pg_lower p) (pg_db p)" and "decodeCredentials A r = Inr req" and "pg_text_ok p (cr_Email req)"
  shows "login A i p c r =
    (case row_by (\<lambda>u. pg_lower p (user_Email u)) (pg_lower p (cr_Email req)) (users (pg_db p)) of
       None \<Rightarrow> (p, c, writeError 401 ''invalid email or password'')
     | Some user \<Rightarrow>
         if \<not> bc_Compare (api_B A) (user_PasswordHash user) (cr_Password req) then (p, c, writeError 401 ''invalid email or password'')
         else (case startSession A i p (user_ID user) of
             (p'', None) \<Rightarrow> (p'', c, writeError 500 ''failed to start session'')
           | (p'', Some ck) \<Rightarrow> (p'', c, (writeJSON 200 (User_body user))\<lparr>rs_Cookies := [ck]\<rparr>)))"
  using assms(3) GetUserByEmail_healthy [OF assms(1,2,4)] by (auto simp: login_eq split: option.split)

lemma login_work:
  assumes "healthy p" and "accounts_ok (pg_lower p) (pg_db p)" and "decodeCredentials A r = Inr req" and "pg_text_ok p (cr_Email req)"
  shows "snd (login_run A i p c r) =
    [case row_by (\<lambda>u. pg_lower p (user_Email u)) (pg_lower p (cr_Email req)) (users (pg_db p)) of
       None \<Rightarrow> api_dummyHash A | Some u \<Rightarrow> user_PasswordHash u]"
  using assms(3) GetUserByEmail_healthy [OF assms(1,2,4)]
  by (auto simp: login_run_def CheckPassword_def CheckDummyPassword_def Let_def split: option.split prod.split bool.split)

lemma startSession_tables:
  "tenants (pg_db (fst (startSession A i p u))) = tenants (pg_db p)" "users (pg_db (fst (startSession A i p u))) = users (pg_db p)"
proof -
  have "tenants (pg_db (fst (CreateSession p g u h e))) = tenants (pg_db p) \<and> users (pg_db (fst (CreateSession p g u h e))) = users (pg_db p)" for g h e
    unfolding fst_account_calls by (auto simp: exec_result insert_session_def split: prod.split)
  then show "tenants (pg_db (fst (startSession A i p u))) = tenants (pg_db p)" "users (pg_db (fst (startSession A i p u))) = users (pg_db p)"
    by (auto simp: startSession_def Let_def split: option.split prod.split sum.split) (metis fst_conv)+
qed

lemma startSession_up:
  assumes "accounts_up now p"
  shows "accounts_up now (fst (startSession A i p u))" and "pg_text_ok (fst (startSession A i p u)) = pg_text_ok p"
  using accounts_up_call(5,6) [OF assms] assms
  by (auto simp: startSession_def Let_def split: option.split prod.split sum.split) (metis fst_conv)+

lemma CreateAccount_up:
  assumes "accounts_up now p"
  shows "accounts_up now (fst (CreateAccount p gt gu email hash))" and "pg_text_ok (fst (CreateAccount p gt gu email hash)) = pg_text_ok p"
proof -
  have h: "healthy p" using assms by (simp add: accounts_up_def)
  have s: "healthy (fst (CreateAccount p gt gu email hash)) \<and> pg_now (fst (CreateAccount p gt gu email hash)) = pg_now p \<and>
      pg_lower (fst (CreateAccount p gt gu email hash)) = pg_lower p \<and> pg_text_ok (fst (CreateAccount p gt gu email hash)) = pg_text_ok p"
    by (auto simp: CreateAccount_def tx_begin_healthy [OF h] tx_exec_healthy [OF h] tx_commit_healthy [OF h] h split: sum.split prod.split)
  then show "pg_text_ok (fst (CreateAccount p gt gu email hash)) = pg_text_ok p" by blast
  from s CreateAccount_db [of p gt gu email hash] with_account_ok(1) [of p gt gu email hash] assms
  show "accounts_up now (fst (CreateAccount p gt gu email hash))" by (auto simp: accounts_up_def)
qed

lemma CreateAccount_texts:
  assumes "CreateAccount p gt gu email hash = (p', res)"
  shows "same_texts p' p"
  using assms
  by (auto simp: CreateAccount_def split: prod.splits sum.splits if_splits dest!: same_texts_calls; simp add: same_texts_def)

lemma startSession_lower: "pg_lower (fst (startSession A i p u)) = pg_lower p"
proof -
  have "pg_lower (fst (CreateSession p g u h e)) = pg_lower p" for g h e unfolding fst_account_calls by simp
  then show ?thesis by (auto simp: startSession_def Let_def split: option.split prod.split sum.split) (metis fst_conv)+
qed

text \<open>The user a sign-up creates, and the row it has afterwards.\<close>

lemma created_user:
  assumes "CreateAccount p gt gu email hash = (p1, Inr (t, u))"
  shows "row_by user_ID (user_ID u) (users (pg_db p1)) = Some u"
    and "row_by (\<lambda>x. pg_lower p (user_Email x)) (pg_lower p email) (users (pg_db p1)) = Some u"
    and "user_PasswordHash u = hash" and "user_Email u = email" and "pg_text_ok p email"
proof -
  from CreateAccount_ok [OF assms] have f: "account_free p gt gu email" and r: "(t, u) = account_rows p gt gu email hash"
    and d: "pg_db p1 = with_account (t, u) (pg_db p)" by auto
  have u: "user_ID u = gu" "user_Email u = email" "user_PasswordHash u = hash" using r by (auto simp: account_rows_def)
  then show "user_PasswordHash u = hash" "user_Email u = email" by simp_all
  have "row_by user_ID gu (users (pg_db p)) = None" "row_by (\<lambda>x. pg_lower p (user_Email x)) (pg_lower p email) (users (pg_db p)) = None"
    using f by (simp_all add: account_free_def email_free_def row_by_None_iff)
  with u d show "row_by user_ID (user_ID u) (users (pg_db p1)) = Some u"
    "row_by (\<lambda>x. pg_lower p (user_Email x)) (pg_lower p email) (users (pg_db p1)) = Some u"
    by (simp_all add: with_account_def row_by_append)
  from assms obtain w1 p1' p2 x where "tx_exec (insert_tenant gt email) w1 p1' = (p2, Inr x)" "tx_begin p = (p1', Inr w1)"
    by (auto simp: CreateAccount_def split: prod.splits sum.splits if_splits)
  then show "pg_text_ok p email"
    using tx_frame(6) [of p] by (auto simp: insert_tenant_def split: if_splits dest!: tx_exec_ok [where w' = "fst x" and a = "snd x", simplified])
qed

text \<open>Starting a session succeeds exactly when a token can be drawn and neither its hash nor the row id is taken.\<close>

definition fresh_session :: "'r api \<Rightarrow> hinput \<Rightarrow> pg \<Rightarrow> bool" where
  "fresh_session A i p =
     (case GenerateSessionToken (hi_rand i) of
        None \<Rightarrow> False
      | Some token \<Rightarrow> hi_row_id i \<notin> sess_id ` set (sessions (pg_db p)) \<and>
          HashSessionToken (ses_Secret A) token \<notin> sess_token_hash ` set (sessions (pg_db p)))"

lemma startSession_fresh:
  assumes "accounts_up now p" and "accepts_hex p" and "u \<in> user_ID ` set (users (pg_db p))"
  shows "snd (startSession A i p u) = None \<longleftrightarrow> \<not> fresh_session A i p"
  using assms(1,3) accepts_hashes(2) [OF assms(2)]
  by (auto simp: startSession_def fresh_session_def CreateSession_def accounts_up_def exec_healthy insert_session_def Let_def
      split: option.splits)

subsection \<open>Where password hashes come from\<close>

definition hashed_by :: "bcrypt_pkg \<Rightarrow> db \<Rightarrow> bool" where
  "hashed_by B d \<longleftrightarrow> (\<forall>u \<in> set (users d). \<exists>pw salt. HashPassword B salt pw = Some (user_PasswordHash u))"

definition keeps_users :: "'a stmt \<Rightarrow> bool" where
  "keeps_users st \<longleftrightarrow> (\<forall>p d a. st p = Inr (d, a) \<longrightarrow> users d = users (pg_db p))"

lemma keeps_users_stmts:
  "keeps_users (insert_session g u h e)" "keeps_users (delete_session h)" "keeps_users (insert_key g t n h pre)"
  "keeps_users (delete_key t i)" "keeps_users (touch_key i)" "keeps_users (select_key_hash h)" "keeps_users (session_join h)"
  "keeps_users (select_email email)" "keeps_users (select_keys t)" "keeps_users (select_tenant t)"
  by (auto simp: keeps_users_def insert_session_def delete_session_def insert_key_def delete_key_def touch_key_def
      select_key_hash_def session_join_def select_email_def select_keys_def select_tenant_def Let_def split: if_splits)

lemma users_exec: "keeps_users st \<Longrightarrow> q = fst (exec st p) \<Longrightarrow> users (pg_db q) = users (pg_db p)"
  using exec_db_cases [of st p] by (auto simp: keeps_users_def)

lemma account_users:
  "CreateSession p g u h e = (p', x) \<Longrightarrow> users (pg_db p') = users (pg_db p)"
  "DeleteSession p h = (p', y) \<Longrightarrow> users (pg_db p') = users (pg_db p)"
  "CreateAPIKey p g t n h pre = (p', k) \<Longrightarrow> users (pg_db p') = users (pg_db p)"
  "DeleteAPIKey p t i = (p', y) \<Longrightarrow> users (pg_db p') = users (pg_db p)"
  "TouchAPIKey p i = (p', y) \<Longrightarrow> users (pg_db p') = users (pg_db p)"
  "AuthenticateAPIKey p h = (p', z) \<Longrightarrow> users (pg_db p') = users (pg_db p)"
  "SessionUser p h = (p', v) \<Longrightarrow> users (pg_db p') = users (pg_db p)"
  "GetUserByEmail p email = (p', v) \<Longrightarrow> users (pg_db p') = users (pg_db p)"
  "ListAPIKeys p t = (p', ks) \<Longrightarrow> users (pg_db p') = users (pg_db p)"
  "GetTenant p t = (p', tn) \<Longrightarrow> users (pg_db p') = users (pg_db p)"
  by (drule arg_cong [of _ _ fst], simp only: fst_account_calls fst_conv,
      rule users_exec [OF _ sym], rule keeps_users_stmts, assumption)+

lemma startSession_users: "startSession A i p u = (p', ck) \<Longrightarrow> users (pg_db p') = users (pg_db p)"
  using startSession_tables(2) [of A i p u] by simp

lemmas users_calls = account_users startSession_users

lemma handler_users:
  "login A i p c r = (p', c', rs) \<Longrightarrow> users (pg_db p') = users (pg_db p)"
  "logout A p c r = (p', c', rs) \<Longrightarrow> users (pg_db p') = users (pg_db p)"
  "me p c r = (p', c', rs) \<Longrightarrow> users (pg_db p') = users (pg_db p)"
  "listKeys p c r = (p', c', rs) \<Longrightarrow> users (pg_db p') = users (pg_db p)"
  "createKey i p c r = (p', c', rs) \<Longrightarrow> users (pg_db p') = users (pg_db p)"
  "deleteKey A p c r = (p', c', rs) \<Longrightarrow> users (pg_db p') = users (pg_db p)"
  "health p c r = (p', c', rs) \<Longrightarrow> users (pg_db p') = users (pg_db p)"
  by (auto simp: login_eq logout_def me_def listKeys_def createKey_def deleteKey_def health_def Let_def
      split: option.splits prod.splits sum.splits account_err.splits if_splits dest!: users_calls stats_calls)

lemma signup_hashed:
  assumes "signup A i p c r = (p', c', rs)" and "hashed_by (api_B A) (pg_db p)"
  shows "hashed_by (api_B A) (pg_db p')"
proof -
  have acc: "hashed_by (api_B A) (pg_db q)"
    if "CreateAccount p gt gu email h = (q, x)" "HashPassword (api_B A) salt pw = Some h" for gt gu email h q x salt pw
    using CreateAccount_db [of p gt gu email h] that assms(2)
    by (auto simp: hashed_by_def with_account_def account_rows_def) (metis that(2))
  have same: "users (pg_db q') = users (pg_db q) \<Longrightarrow> hashed_by (api_B A) (pg_db q) \<Longrightarrow> hashed_by (api_B A) (pg_db q')" for q q'
    by (simp add: hashed_by_def)
  from assms show ?thesis
    by (auto simp: signup_def split: sum.splits option.splits prod.splits account_err.splits
        dest!: startSession_users intro: acc same)
qed

text \<open>Every hash in the table was made by \<open>HashPassword\<close>, whatever is requested.\<close>

lemma router_hashed:
  assumes "Routes A i rt p c r = (p', c', rs)" and "schema_ok (pg_db p)" and "hashed_by (api_B A) (pg_db p)"
    and "accounts_ok (pg_lower p) (pg_db p)"
  shows "hashed_by (api_B A) (pg_db p')"
proof -
  have same: "users (pg_db p') = users (pg_db p) \<Longrightarrow> ?thesis" using assms(3) by (simp add: hashed_by_def)
  have guard: "users (pg_db p') = users (pg_db p)"
    if "RequireSession A serve p c r = (p', c', rs)"
      "\<And>q x q' rs'. serve q c x = (q', c', rs') \<Longrightarrow> users (pg_db q') = users (pg_db q)" for serve
    using that by (auto simp: RequireSession_def split: option.splits prod.splits sum.splits account_err.splits dest!: users_calls)
  show ?thesis
  proof (cases rt)
    case POST_signup
    with assms signup_hashed show ?thesis by simp
  next
    case POST_login
    with assms(1) same handler_users(1) show ?thesis by (metis Routes.simps(2))
  next
    case POST_logout
    with assms(1) show ?thesis by (intro same guard [of "logout A"] handler_users(2)) simp_all
  next
    case GET_me
    with assms(1) show ?thesis by (intro same guard [of me] handler_users(3)) simp_all
  next
    case (Job_route jr)
    let ?serve = "job_handler (api_R A) (api_U A) (hi_New i) jr"
    from Job_route assms(1) have "RequireAPIKey A ?serve p c r = (p', c', rs)" by simp
    from this assms(4) show ?thesis
    proof (cases rule: RequireAPIKey_cases)
      case refused
      with assms(3) show ?thesis by simp
    next
      case (served t q)
      have "users (pg_db q) = users (pg_db p)" using served(6) users_calls(5,6) by (metis prod.collapse)
      with job_api.keeps_accounts [OF served(4) [OF assms(2)] served(2)] show ?thesis by (intro same) (simp add: accounts_def)
    qed
  next
    case GET_keys
    with assms(1) show ?thesis by (intro same guard [of listKeys] handler_users(4)) simp_all
  next
    case POST_keys
    with assms(1) show ?thesis by (intro same guard [of "createKey i"] handler_users(5)) simp_all
  next
    case DELETE_key
    with assms(1) show ?thesis by (intro same guard [of "deleteKey A"] handler_users(6)) simp_all
  next
    case (Admin_route ar)
    with assms(1) show ?thesis
      by (intro same guard [of "admin_handler (api_R A) (api_G A) (api_queues A) ar"]) (auto dest: admin_reads)
  next
    case GET_healthz
    with assms(1) same handler_users(7) show ?thesis by (metis Routes.simps(10))
  qed
qed

end
