(* ===== verification/ApiTheorems.thy ===== *)
theory ApiTheorems
  imports Scenario AuthFlows
begin

section \<open>The HTTP API\<close>

text \<open>
  The properties of the API as a client sees it, from the credential a request presents to the rows it can
  touch. First the concrete values the theorems are applied to: the deployment of \<open>Scenario\<close> with one API
  key for each tenant, and a client that signs up.
\<close>

definition demo_bcrypt :: bcrypt_pkg where
  "demo_bcrypt = \<lparr>bc_Generate = (\<lambda>pw cost salt. if length pw \<le> 72 then Some (CHR ''$'' # pw) else None),
     bc_Compare = (\<lambda>h pw. h = CHR ''$'' # pw), bc_Cost = (\<lambda>_. 10), bc_DefaultCost = 10\<rparr>"

definition demo_dummy :: string where "demo_dummy = ''$dispatch-timing-equalizer''"

definition demo_aggregates :: pg_aggregates where
  "demo_aggregates = \<lparr>date_trunc_day = (\<lambda>t. t - t mod (24 * hour)),
     avg_epoch = (\<lambda>ds. f64 (of_int (sum_list ds) / of_int (int (length ds) * second)))\<rparr>"

definition demo_api :: "keyspace api" where
  "demo_api = \<lparr>api_R = ref_redis, api_U = bits_uuid, api_B = demo_bcrypt, api_dummyHash = demo_dummy, api_unicode_lower = (\<lambda>s. s), ses_Secret = ''pepper'',
     ses_Secure = True, ses_TTL = DefaultSessionTTL, ses_CookieName = defaultCookieName, api_queues = [''default''], api_G = demo_aggregates\<rparr>"

definition demo_input :: hinput where
  "demo_input = \<lparr>hi_New = 7, hi_tenant_id = 30, hi_user_id = 31, hi_row_id = 32, hi_rand = Some [], hi_salt = [],
     hi_Now = 100 * second, hi_Later = 100 * second\<rparr>"

definition demo_http :: request where
  "demo_http = \<lparr>rq_Method = ''POST'', rq_Query = [], rq_Param_id = uuid_String bits_uuid 32, rq_Body = None, rq_Authorization = [],
     rq_Cookies = [], rq_tenant = None, rq_user = None\<rparr>"

lemma demo_pg_up: "accounts_up (100 * second) demo_start_pg" "accepts_hex demo_start_pg"
  by (simp_all add: accounts_up_def accounts_ok_def accepts_hex_def demo_start_pg_def demo_start_db_def)

lemma demo_pg_text [simp]: "pg_text_ok demo_start_pg s"
  by (simp add: demo_start_pg_def)

lemma demo_bcrypt_ok: "bcrypt_ok demo_bcrypt"
  by (auto simp: bcrypt_ok_def demo_bcrypt_def split: if_splits)

subsection \<open>Isolation\<close>

text \<open>C13: A request to a job endpoint runs only under a live API key, and only for that key's tenant, whatever
  the network does: without one it is answered 401 or 500 and neither service is changed; every job in an
  answer belongs to the tenant of the key, and no row of another tenant changes.\<close>

theorem api_guard:
  assumes "Routes A i (Job_route jr) p c r = (p', c', rs)" and "schema_ok (pg_db p)" and "accounts_ok (pg_lower p) (pg_db p)"
  shows "(key_caller p r = None \<longrightarrow> pg_db p' = pg_db p \<and> c' = c \<and> rs_Status rs \<in> {401, 500}) \<and>
    (\<forall>j \<in> set (body_jobs (rs_Body rs)). key_caller p r = Some (job_TenantID j)) \<and>
    (\<forall>t. key_caller p r \<noteq> Some t \<longrightarrow> own t (pg_db p') = own t (pg_db p))"
proof -
  have g: "RequireAPIKey A (job_handler (api_R A) (api_U A) (hi_New i) jr) p c r = (p', c', rs)" using assms(1) by simp
  show ?thesis using job_api.guarded(3-5) [OF g assms(2,3)] by blast
qed

theorem api_guard_witness:
  "\<exists>p' c' rs. Routes demo_api demo_input (Job_route GET_jobs) demo_start_pg demo_start_conn demo_http = (p', c', rs) \<and>
     c' = demo_start_conn \<and> rs_Status rs \<in> {401, 500}"
proof -
  obtain p' c' rs where s: "Routes demo_api demo_input (Job_route GET_jobs) demo_start_pg demo_start_conn demo_http = (p', c', rs)"
    by (metis prod.collapse)
  have "key_caller demo_start_pg demo_http = None" by (simp add: key_caller_def demo_http_def bearerToken_def)
  moreover have "schema_ok (pg_db demo_start_pg)" "accounts_ok (pg_lower demo_start_pg) (pg_db demo_start_pg)"
    using start_schema demo_pg_up(1) by (simp_all add: demo_start_pg_def accounts_up_def)
  ultimately show ?thesis using api_guard [OF s] s by blast
qed

text \<open>C3: Tenants are isolated over any history of the job API: after any number of requests under the keys of
  other tenants (or under none), with any losses on the network, a tenant's jobs are what they were, and
  every key still stands for the tenant it stood for.\<close>

theorem api_isolation:
  assumes "serve_all A rs p c = (p', c')" and "schema_ok (pg_db p)" and "accounts_ok (pg_lower p) (pg_db p)"
    and "\<forall>(i, jr, r) \<in> set rs. key_caller p r \<noteq> Some t"
  shows "own t (pg_db p') = own t (pg_db p) \<and> (\<forall>r. key_caller p' r = key_caller p r)"
  using serve_all_others [OF assms] same_keys_caller by blast

text \<open>Tenant 2 asks for the job of tenant 1, and someone without a key does.\<close>

definition demo_foreign_key :: api_key where
  "demo_foreign_key = \<lparr>key_ID = 41, key_TenantID = 2, key_Name = ''cd'', key_KeyHash = HashAPIKey ''dk_b'', key_KeyPrefix = ''dk_b'',
     key_LastUsedAt = None, key_CreatedAt = 0\<rparr>"

definition demo_keyed_pg :: pg where
  "demo_keyed_pg = demo_admitted_pg\<lparr>pg_db := (pg_db demo_admitted_pg)\<lparr>api_keys := [demo_foreign_key]\<rparr>\<rparr>"

definition demo_foreign :: request where
  "demo_foreign = demo_http\<lparr>rq_Param_id := uuid_String bits_uuid 7, rq_Authorization := ''Bearer dk_b''\<rparr>"

lemma demo_foreign_caller: "key_caller demo_keyed_pg demo_foreign = Some 2"
proof -
  have "bearerToken (''Bearer '' @ ''dk_b'') = Some ''dk_b''" by (rule bearerToken_plain) (simp_all add: plain_def url_alphabet_def)
  then have "bearerToken (rq_Authorization demo_foreign) = Some ''dk_b''" by (simp add: demo_foreign_def)
  then show ?thesis by (simp add: key_caller_def key_row_def demo_keyed_pg_def demo_foreign_key_def APIKeyPrefix_def demo_admitted_pg_def)
qed

theorem api_isolation_witness:
  "\<exists>p' c'. serve_all demo_api [(demo_input, POST_cancel, demo_foreign), (demo_input, POST_cancel, demo_http), (demo_input, GET_jobs, demo_foreign)]
       demo_keyed_pg demo_admitted_conn = (p', c') \<and>
     own 1 (pg_db p') = own 1 (pg_db demo_keyed_pg) \<and> key_caller p' demo_foreign = Some 2"
proof -
  let ?rs = "[(demo_input, POST_cancel, demo_foreign), (demo_input, POST_cancel, demo_http), (demo_input, GET_jobs, demo_foreign)]"
  obtain p' c' where s: "serve_all demo_api ?rs demo_keyed_pg demo_admitted_conn = (p', c')" by force
  have acc: "accounts_ok (pg_lower demo_keyed_pg) (pg_db demo_keyed_pg)"
    by (simp add: accounts_ok_def demo_keyed_pg_def demo_admitted_pg_def demo_start_db_def demo_foreign_key_def demo_globex_def)
  have schema: "schema_ok (pg_db demo_keyed_pg)"
    by (simp add: demo_keyed_pg_def demo_admitted_pg_def schema_ok_def demo_start_db_def demo_acme_def demo_globex_def demo_nightly_def int4_def)
  have "key_caller demo_keyed_pg demo_http = None" by (simp add: key_caller_def demo_http_def bearerToken_def)
  then have callers: "\<forall>(i, jr, r) \<in> set ?rs. key_caller demo_keyed_pg r \<noteq> Some 1" using demo_foreign_caller by simp
  from api_isolation [OF s schema acc callers] demo_foreign_caller s show ?thesis by metis
qed

subsection \<open>The job endpoints\<close>

text \<open>C14: What the answer to \<open>POST /jobs/enqueue\<close> means, on any network: 202 is given exactly for a new pending
  row of the caller's tenant whose id is now the newest of its queue; 400 means nothing happened; when the
  answer says the job was persisted but not enqueued, the pending row is there; and the queue is never
  touched without a new row.\<close>

theorem enqueue_answers:
  assumes "redis_server R" and "enqueueJob R U fresh p c r = (p', c', rs)" and "rq_tenant r = Some t"
  shows "rs_Status rs \<in> {202, 400, 500} \<and> (rs_Status rs = 400 \<longrightarrow> p' = p \<and> c' = c) \<and>
    (rs_Status rs = 202 \<longrightarrow> (\<exists>job. rs_Body rs = Job_body job \<and> job_of (pg_db p) (job_ID job) = None \<and>
       job_of (pg_db p') (job_ID job) = Some job \<and> job_TenantID job = t \<and> job_Status job = StatusPending \<and>
       queued R c' (job_QueueName job) = uuid_String U (job_ID job) # queued R c (job_QueueName job))) \<and>
    (rs_Body rs = Error_body ''job persisted but failed to enqueue'' \<longrightarrow> (\<exists>job. job_of (pg_db p) (job_ID job) = None \<and>
       job_of (pg_db p') (job_ID job) = Some job \<and> job_TenantID job = t \<and> job_Status job = StatusPending)) \<and>
    (r_srv c' \<noteq> r_srv c \<longrightarrow> (\<exists>k. job_of (pg_db p) k = None \<and> job_of (pg_db p') k \<noteq> None))"
proof -
  have t: "tenantID r = Inr t" using assms(3) by (simp add: tenantID_def tenantFromContext_def)
  show ?thesis
  proof (cases "\<exists>req. decode_struct enqueueRequest_fields zero_enqueueRequest (rq_Body r) = Some req \<and> er_JobType req \<noteq> []")
    case False
    with assms(2) t show ?thesis by (auto simp: enqueueJob_def split: option.splits)
  next
    case True
    then obtain req where req: "decode_struct enqueueRequest_fields zero_enqueueRequest (rq_Body r) = Some req" "er_JobType req \<noteq> []"
      by blast
    obtain q d job res where s: "Submit R U fresh p c (requested_job t req) = (q, d, job, res)" by (metis prod.collapse)
    have out: "(p', c', rs) = (q, d, case res of
        Inl (ErrEnqueueAfterPersist e) \<Rightarrow> writeError 500 ''job persisted but failed to enqueue''
      | Inl _ \<Rightarrow> writeError 500 ''failed to persist job'' | Inr _ \<Rightarrow> writeJSON 202 (Job_body job))"
      using assms(2) t req s by (auto simp: enqueueJob_def split: sum.splits submit_err.splits)
    have new: "job_of (pg_db p) (job_ID job) = None \<and> job_of (pg_db q) (job_ID job) = Some job \<and> job_TenantID job = t \<and>
        job_Status job = StatusPending" if "res = Inr () \<or> res = Inl (ErrEnqueueAfterPersist e)" for e
      using Submit_ok(1) [OF s that] Submit_new [OF s that]
      by (auto simp: applyDefaults_fields requested_job_def zero_job_def Let_def)
    have q: "queued R d (job_QueueName job) = uuid_String U (job_ID job) # queued R c (job_QueueName job)" if "res = Inr ()"
      using Submit_ok(2) [OF s _ that, of undefined] that redis_server.lrange_lpush [OF assms(1)] by (simp add: queued_def)
    have "r_srv d \<noteq> r_srv c \<Longrightarrow> \<exists>k. job_of (pg_db p) k = None \<and> job_of (pg_db q) k \<noteq> None"
      using Submit_row_first [OF s] by blast
    with out new q show ?thesis by (auto split: sum.splits submit_err.splits)
  qed
qed

definition demo_post :: request where
  "demo_post = demo_http\<lparr>rq_Body := Some (JObj [(''job_type'', JStr ''echo'')]), rq_tenant := Some 1\<rparr>"

lemma demo_post_decodes:
  "decode_struct enqueueRequest_fields zero_enqueueRequest (rq_Body demo_post) = Some (zero_enqueueRequest\<lparr>er_JobType := ''echo''\<rparr>)"
  by (simp add: demo_post_def decode_struct_def enqueueRequest_fields_def field_of_def set_string_def)

lemma demo_post_answer:
  "enqueueJob ref_redis bits_uuid 7 demo_start_pg demo_start_conn demo_post = (demo_admitted_pg, demo_admitted_conn, writeJSON 202 (Job_body demo_row))"
proof -
  have "requested_job 1 (zero_enqueueRequest\<lparr>er_JobType := ''echo''\<rparr>) = demo_request"
    by (simp add: requested_job_def zero_enqueueRequest_def demo_request_def zero_job_def DefaultMaxRetries_def)
  moreover have "tenantID demo_post = Inr 1" by (simp add: tenantID_def tenantFromContext_def demo_post_def)
  ultimately show ?thesis by (simp add: enqueueJob_def demo_post_decodes start_Submit)
qed

theorem enqueue_answers_witness:
  "\<exists>job. Job_body demo_row = Job_body job \<and> job_of (pg_db demo_admitted_pg) (job_ID job) = Some job \<and>
     queued ref_redis demo_admitted_conn (job_QueueName job) = uuid_String bits_uuid (job_ID job) # queued ref_redis demo_start_conn (job_QueueName job)"
proof -
  have "rq_tenant demo_post = Some 1" by (simp add: demo_post_def)
  from enqueue_answers [OF ref_redis_server demo_post_answer this] show ?thesis by (simp only: write_simps) blast
qed

text \<open>A page of jobs is only fetched with validated parameters: when \<open>parseListParams\<close> accepts a query, the
  limit is between 1 and 100, the offset is a non-negative 64-bit number, the status is one of the five or
  none, the queue name has at most 100 bytes, absent parameters get their defaults; and \<open>GET /jobs\<close> answers
  400 without asking the database exactly when it does not accept.\<close>

theorem list_params_valid:
  assumes "rq_tenant r = Some t" and "listJobs p c r = (p', c', rs)"
  shows "(case parseListParams r of
      Inl e \<Rightarrow> p' = p \<and> c' = c \<and> rs = writeJSON 400 (Param_error_body e)
    | Inr lp \<Rightarrow> params_ok lp \<and> rs_Status rs \<in> {200, 500} \<and>
        (query_Get (rq_Query r) ''limit'' = [] \<longrightarrow> lp_Limit lp = 20) \<and> (query_Get (rq_Query r) ''offset'' = [] \<longrightarrow> lp_Offset lp = 0) \<and>
        lp_Queue lp = query_Get (rq_Query r) ''queue'' \<and> lp_Status lp = query_Get (rq_Query r) ''status'')"
proof (cases "parseListParams r")
  case (Inl e)
  with assms show ?thesis by (simp add: listJobs_def tenantID_def tenantFromContext_def)
next
  case (Inr lp)
  have f: "(query_Get (rq_Query r) ''limit'' = [] \<longrightarrow> lp_Limit lp = 20) \<and> (query_Get (rq_Query r) ''offset'' = [] \<longrightarrow> lp_Offset lp = 0) \<and>
      lp_Queue lp = query_Get (rq_Query r) ''queue'' \<and> lp_Status lp = query_Get (rq_Query r) ''status''"
    using Inr
    by (auto simp: parseListParams_def Let_def and_then_Inr parse_queue_def parse_status_def parse_limit_def parse_offset_def
        defaultListLimit_def split: if_splits option.splits)
  from Inr assms have "rs_Status rs \<in> {200, 500}"
    by (auto simp: listJobs_def tenantID_def tenantFromContext_def split: prod.splits sum.splits)
  with Inr f parseListParams_ok [OF Inr] show ?thesis by simp
qed

theorem list_params_valid_witness:
  "\<exists>p' c' rs. listJobs demo_start_pg demo_start_conn (demo_post\<lparr>rq_Query := [(''limit'', ''101'')]\<rparr>) = (p', c', rs) \<and>
     rs = writeJSON 400 (Param_error_body Limit_out_of_range)"
proof -
  let ?r = "demo_post\<lparr>rq_Query := [(''limit'', ''101'')]\<rparr>"
  obtain p' c' rs where l: "listJobs demo_start_pg demo_start_conn ?r = (p', c', rs)" by (metis prod.collapse)
  have "Atoi ''101'' = Some 101" by code_simp
  then have "parseListParams ?r = Inl Limit_out_of_range"
    by (simp add: parseListParams_def Let_def query_Get_def parse_queue_def parse_status_def parse_limit_def maxListLimit_def)
  with list_params_valid [OF _ l, of 1] l show ?thesis by (simp add: demo_post_def)
qed

subsection \<open>API keys\<close>

text \<open>C16: The life of an API key, on a working database. When \<open>POST /keys\<close> answers 201, the key it shows opens the
  job API for the caller's tenant; another tenant that asks to delete it gets 404 and changes nothing; when
  the owner deletes it the answer is 204 and the key opens nothing any more.\<close>

theorem key_life_cycle:
  assumes "accounts_up now p" and "accepts_hex p" and "createKey i p c r = (p', c', rs)" and "rq_tenant r = Some t"
    and "rs_Status rs = 201" and "uuid_codec (api_U A)"
  shows "\<exists>kr. rs_Body rs = Key_body kr \<and> (let opened = with_bearer (ckr_Key kr) q;
        del = (\<lambda>t'. deleteKey A p' c' (r\<lparr>rq_tenant := Some t', rq_Param_id := uuid_String (api_U A) (ckr_ID kr)\<rparr>)) in
     (\<exists>k. RequireAPIKey A serve p' c' opened = serve (fst (TouchAPIKey p' k)) c' (WithTenant opened t)) \<and>
     (\<forall>t'. t' \<noteq> t \<longrightarrow> del t' = (p', c', writeError 404 ''key not found'')) \<and>
     (\<exists>p''. del t = (p'', c', writeHeader 204) \<and>
        RequireAPIKey A serve p'' c' opened = (p'', c', writeError 401 ''invalid or missing API key'')))"
proof -
  obtain full pre name k where g: "GenerateAPIKey (hi_rand i) = Some (full, pre)"
    and cr: "CreateAPIKey p (hi_row_id i) t name (HashAPIKey full) pre = (p', Inr k)" and c: "c' = c"
    and b: "rs_Body rs = Key_body \<lparr>ckr_ID = key_ID k, ckr_Name = key_Name k, ckr_Key = full,
       ckr_KeyPrefix = key_KeyPrefix k, ckr_CreatedAt = key_CreatedAt k\<rparr>"
    using assms(3-5) by (rule createKey_created)
  note row = CreateAPIKey_ok [OF cr]
  have p': "p' = fst (CreateAPIKey p (hi_row_id i) t name (HashAPIKey full) pre)" using cr by simp
  have up: "accounts_up now p'" and hex: "accepts_hex p'"
    unfolding p' using accounts_up_call(1,2) [OF assms(1)] assms(2) by (simp_all add: accepts_hex_def)
  have byid: "row_by key_ID (key_ID k) (api_keys (pg_db p')) = Some k" "row_by key_KeyHash (HashAPIKey full) (api_keys (pg_db p')) = Some k"
    using row by (auto simp: row_by_append row_by_None_iff split: option.splits) (metis row_by_None_iff option.simps(3))+
  have k: "key_TenantID k = t" "key_KeyHash k = HashAPIKey full" using row by simp_all
  have "key_caller p' (with_bearer full q) = Some t"
    using key_caller_issued [OF g] byid(2) k(1) accepts_hashes(1) [OF hex] by (simp add: key_row_def)
  from RequireAPIKey_up(2) [OF up hex this]
  have 1: "\<exists>x. RequireAPIKey A serve p' c' (with_bearer full q) = serve (fst (TouchAPIKey p' x)) c' (WithTenant (with_bearer full q) t)"
    by blast
  have del: "deleteKey A p' c' (r\<lparr>rq_tenant := Some t', rq_Param_id := uuid_String (api_U A) (key_ID k)\<rparr>) =
      (if t = t' then (fst (DeleteAPIKey p' t' (key_ID k)), c', writeHeader 204) else (p', c', writeError 404 ''key not found''))" for t'
    using byid(1) k(1) by (simp add: deleteKey_answers [OF up] uuid_codec.Parse_String [OF assms(6)])
  let ?d = "fst (DeleteAPIKey p' t (key_ID k))"
  have up': "accounts_up now ?d" "accepts_hex ?d"
    using accounts_up_call(3,4) [OF up] hex by (simp_all add: accepts_hex_def)
  have "key_caller ?d (with_bearer full q) = None"
    using key_caller_issued [OF g] deleted_key_row [OF up byid(1)] k by simp
  from RequireAPIKey_up(1) [OF up' this]
  have 2: "RequireAPIKey A serve ?d c' (with_bearer full q) = (?d, c', writeError 401 ''invalid or missing API key'')" .
  from 1 2 del b show ?thesis by (auto simp: Let_def)
qed

definition demo_new_key :: request where
  "demo_new_key = demo_http\<lparr>rq_Body := Some (JObj [(''name'', JStr ''ci'')]), rq_tenant := Some 1\<rparr>"

lemma demo_createKey: "\<exists>p' rs. createKey demo_input demo_start_pg demo_start_conn demo_new_key = (p', demo_start_conn, rs) \<and> rs_Status rs = 201"
proof -
  have "decode_struct createKey_fields [] (rq_Body demo_new_key) = Some ''ci''"
    by (simp add: demo_new_key_def decode_struct_def createKey_fields_def field_of_def set_string_def)
  moreover have "TrimSpace ''ci'' = ''ci''" by (rule TrimSpace_plain) (simp add: plain_def url_alphabet_def)
  moreover obtain full pre where "GenerateAPIKey (hi_rand demo_input) = Some (full, pre)"
    by (simp add: GenerateAPIKey_def randomToken_def demo_input_def)
  moreover obtain p' k where "CreateAPIKey demo_start_pg (hi_row_id demo_input) 1 ''ci'' (HashAPIKey full) pre = (p', Inr k)"
    by (simp add: CreateAPIKey_def demo_start_pg_def exec_healthy insert_key_def Let_def demo_start_db_def demo_acme_def)
  moreover have "tenantID demo_new_key = Inr 1" by (simp add: tenantID_def tenantFromContext_def demo_new_key_def)
  ultimately show ?thesis by (simp add: createKey_def maxKeyNameLen_def)
qed

theorem key_life_cycle_witness:
  "\<exists>p' rs kr. createKey demo_input demo_start_pg demo_start_conn demo_new_key = (p', demo_start_conn, rs) \<and> rs_Body rs = Key_body kr \<and>
     (\<exists>k. RequireAPIKey demo_api listJobs p' demo_start_conn (with_bearer (ckr_Key kr) demo_http) =
        listJobs (fst (TouchAPIKey p' k)) demo_start_conn (WithTenant (with_bearer (ckr_Key kr) demo_http) 1))"
proof -
  obtain p' rs where c: "createKey demo_input demo_start_pg demo_start_conn demo_new_key = (p', demo_start_conn, rs)" "rs_Status rs = 201"
    using demo_createKey by blast
  have t: "rq_tenant demo_new_key = Some 1" by (simp add: demo_new_key_def)
  have u: "uuid_codec (api_U demo_api)" by (simp add: demo_api_def bits_uuid_codec)
  from key_life_cycle [OF demo_pg_up c(1) t c(2) u, of demo_http listJobs] c(1) show ?thesis unfolding Let_def by blast
qed

text \<open>C27: A history of issued and revoked API keys, on a working database, implements a map from key hashes to
  tenants: looking a hash up afterwards gives what replaying the history on the map gives.\<close>

theorem keys_refine_map:
  assumes "accounts_up now p" and "run_events key_issue key_revoke es p = Some p'"
  shows "(\<lambda>h. key_lookup h p') = replay key_owner es (\<lambda>h. key_lookup h p)"
  by (rule apikey.run_refines [OF assms])

theorem keys_refine_map_witness:
  "\<exists>p'. run_events key_issue key_revoke [Issue (9, 1, ''ci'', ''dk_a'') ''h1'', Issue (10, 2, ''cd'', ''dk_b'') ''h2'', Revoke ''h1''] demo_start_pg = Some p' \<and>
     key_lookup ''h1'' p' = None \<and> key_lookup ''h2'' p' = Some 2"
proof -
  let ?es = "[Issue (9, 1, ''ci'', ''dk_a'') ''h1'', Issue (10, 2, ''cd'', ''dk_b'') ''h2'', Revoke ''h1'']"
  obtain p' where r: "run_events key_issue key_revoke ?es demo_start_pg = Some p'"
    by (simp add: key_issue_def CreateAPIKey_def demo_start_pg_def exec_healthy insert_key_def Let_def demo_start_db_def demo_acme_def demo_globex_def)
  from keys_refine_map [OF demo_pg_up(1) r] have "key_lookup h p' = replay key_owner ?es (\<lambda>h. key_lookup h demo_start_pg) h" for h by metis
  with r show ?thesis by (simp add: key_owner_def)
qed

subsection \<open>Accounts and sessions\<close>

text \<open>C24: Signing up, on any network: the database gains a tenant and its user together or neither, and the
  address of a new account was not registered before in any letter case; 201 is answered only when both are
  there, with that user.\<close>

theorem signup_atomic:
  assumes "signup A i p c r = (p', c', rs)"
  shows "((tenants (pg_db p') = tenants (pg_db p) \<and> users (pg_db p') = users (pg_db p)) \<or>
     (\<exists>t u. tenants (pg_db p') = tenants (pg_db p) @ [t] \<and> users (pg_db p') = users (pg_db p) @ [u] \<and> user_TenantID u = tenant_ID t \<and>
        email_free p (user_Email u))) \<and>
    (rs_Status rs = 201 \<longrightarrow> (\<exists>t u. rs_Body rs = User_body u \<and> user_TenantID u = tenant_ID t \<and>
        users (pg_db p') = users (pg_db p) @ [u] \<and> tenants (pg_db p') = tenants (pg_db p) @ [t]))"
proof -
  have one: "(tenants (pg_db q) = tenants (pg_db p) \<and> users (pg_db q) = users (pg_db p)) \<or>
     (\<exists>t u. tenants (pg_db q) = tenants (pg_db p) @ [t] \<and> users (pg_db q) = users (pg_db p) @ [u] \<and> user_TenantID u = tenant_ID t \<and>
        email_free p (user_Email u))" if "CreateAccount p gt gu e h = (q, res)" for gt gu e h q res
    using CreateAccount_db [of p gt gu e h] that by (auto simp: with_account_def account_rows_def account_free_def)
  have st: "tenants (pg_db q') = tenants (pg_db q)" "users (pg_db q') = users (pg_db q)" if "startSession A i q u = (q', x)" for q q' u x
    using startSession_tables [of A i q u] that by simp_all
  have "tenants (pg_db p') = tenants (pg_db p) \<and> users (pg_db p') = users (pg_db p) \<or>
     (\<exists>gt gu e h q res. CreateAccount p gt gu e h = (q, res) \<and> tenants (pg_db p') = tenants (pg_db q) \<and> users (pg_db p') = users (pg_db q))"
    using assms
    by (auto simp: signup_def split: sum.splits option.splits prod.splits account_err.splits) (metis st)+
  then have "(tenants (pg_db p') = tenants (pg_db p) \<and> users (pg_db p') = users (pg_db p)) \<or>
     (\<exists>t u. tenants (pg_db p') = tenants (pg_db p) @ [t] \<and> users (pg_db p') = users (pg_db p) @ [u] \<and> user_TenantID u = tenant_ID t \<and>
        email_free p (user_Email u))"
    using one by metis
  moreover have "\<exists>t u. rs_Body rs = User_body u \<and> user_TenantID u = tenant_ID t \<and>
        users (pg_db p') = users (pg_db p) @ [u] \<and> tenants (pg_db p') = tenants (pg_db p) @ [t]" if "rs_Status rs = 201"
    using assms that
  proof (rule signup_created)
    fix req hash t user p1 ck
    assume "CreateAccount p (hi_tenant_id i) (hi_user_id i) (cr_Email req) hash = (p1, Inr (t, user))"
      and s: "startSession A i p1 (user_ID user) = (p', Some ck)" and b: "rs_Body rs = User_body user"
    from CreateAccount_ok [OF this(1)] st [OF s] b show ?thesis
      by (auto simp: with_account_def account_rows_def)
  qed
  ultimately show ?thesis by blast
qed

definition demo_signup :: request where
  "demo_signup = demo_http\<lparr>rq_Body := Some (JObj [(''email'', JStr ''Ann@Acme.io''), (''password'', JStr ''open sesame'')])\<rparr>"

definition demo_credentials :: credentialsRequest where
  "demo_credentials = \<lparr>cr_Email = ''ann@acme.io'', cr_Password = ''open sesame''\<rparr>"

lemma demo_signup_decodes: "decodeCredentials demo_api demo_signup = Inr demo_credentials"
  by code_simp

lemma demo_signup_created:
  "\<exists>p' rs. signup demo_api demo_input demo_start_pg demo_start_conn demo_signup = (p', demo_start_conn, rs) \<and> rs_Status rs = 201"
proof -
  have "HashPassword (api_B demo_api) (hi_salt demo_input) (cr_Password demo_credentials) = Some ''$open sesame''"
    by (simp add: HashPassword_def demo_api_def demo_bcrypt_def demo_credentials_def)
  moreover obtain p1 t u where a: "CreateAccount demo_start_pg (hi_tenant_id demo_input) (hi_user_id demo_input) (cr_Email demo_credentials) ''$open sesame'' =
      (p1, Inr (t, u))"
    by (simp add: CreateAccount_def healthy_simps demo_start_pg_def demo_start_db_def insert_tenant_def insert_user_def Let_def
        demo_input_def demo_acme_def demo_globex_def)
  moreover obtain p2 ck where "startSession demo_api demo_input p1 (user_ID u) = (p2, Some ck)"
  proof -
    have up: "accounts_up (100 * second) p1" "pg_text_ok p1 x" for x
      using CreateAccount_up [OF demo_pg_up(1), of "hi_tenant_id demo_input" "hi_user_id demo_input" "cr_Email demo_credentials" "''$open sesame''"] a
      by simp_all
    have d: "sessions (pg_db p1) = []" "user_ID u \<in> user_ID ` set (users (pg_db p1))"
      using CreateAccount_ok [OF a] by (auto simp: with_account_def demo_start_pg_def demo_start_db_def)
    have "\<exists>x. GenerateSessionToken (hi_rand demo_input) = Some x" by (simp add: GenerateSessionToken_def randomToken_def demo_input_def)
    moreover have "\<exists>q. CreateSession p1 g (user_ID u) h e = (q, Inr ())" for g h e
      using up d by (simp add: CreateSession_def accounts_up_def exec_healthy insert_session_def)
    ultimately show ?thesis using that by (metis (no_types, lifting) startSession_some)
  qed
  ultimately show ?thesis by (simp add: signup_def demo_signup_decodes)
qed

theorem signup_atomic_witness:
  "\<exists>p' rs t u. signup demo_api demo_input demo_start_pg demo_start_conn demo_signup = (p', demo_start_conn, rs) \<and>
     rs_Body rs = User_body u \<and> tenants (pg_db p') = tenants (pg_db demo_start_pg) @ [t] \<and> user_TenantID u = tenant_ID t"
proof -
  obtain p' rs where "signup demo_api demo_input demo_start_pg demo_start_conn demo_signup = (p', demo_start_conn, rs)" "rs_Status rs = 201"
    using demo_signup_created by blast
  with signup_atomic [OF this(1)] show ?thesis by blast
qed

text \<open>C15: The life of a session, on a working database. The cookie set by a sign-up is out of reach of scripts and
  cross-site requests; it opens the dashboard for the new user and tenant until it expires and is refused with
  401 from that moment on; once the user logs out it is refused at any time.\<close>

theorem session_life_cycle:
  assumes "accounts_up now p" and "accepts_hex p" and "signup A i p c r = (p', c', rs)" and "rs_Status rs = 201"
  shows "\<exists>u ck. rs_Body rs = User_body u \<and> rs_Cookies rs = [ck] \<and> ck_HttpOnly ck \<and> ck_SameSiteLax ck \<and> ck_Secure ck = ses_Secure A \<and>
    (let opened = with_cookie ck q; when = (\<lambda>n x. x\<lparr>pg_now := n\<rparr>); refused = (\<lambda>x. (x, c', writeError 401 ''authentication required'')) in
     (\<forall>n. RequireSession A serve (when n p') c' opened =
        (if n < hi_Now i + ses_TTL A then serve (when n p') c' (WithUser (WithTenant opened (user_TenantID u)) u) else refused (when n p'))) \<and>
     (\<forall>n. n < hi_Now i + ses_TTL A \<longrightarrow> (\<exists>p''. Routes A i' POST_logout (when n p') c' opened =
          (p'', c', (writeHeader 204)\<lparr>rs_Cookies := [clearSessionCookie A]\<rparr>) \<and>
        (\<forall>m. RequireSession A serve (when m p'') c' opened = refused (when m p'')))))"
proof -
  obtain req hash t u p1 ck where "decodeCredentials A r = Inr req" and "HashPassword (api_B A) (hi_salt i) (cr_Password req) = Some hash"
    and cr: "CreateAccount p (hi_tenant_id i) (hi_user_id i) (cr_Email req) hash = (p1, Inr (t, u))" and st: "startSession A i p1 (user_ID u) = (p', Some ck)" and b: "rs_Body rs = User_body u" "rs_Cookies rs = [ck]" and c: "c' = c"
    using assms(3,4) by (rule signup_created)
  have up1: "accounts_up now p1" and tx1: "pg_text_ok p1 = pg_text_ok p"
    using CreateAccount_up [OF assms(1), of "hi_tenant_id i" "hi_user_id i" "cr_Email req" hash] cr by simp_all
  have up: "accounts_up now p'" and tx: "pg_text_ok p' = pg_text_ok p"
    using startSession_up [OF up1, of A i "user_ID u"] st tx1 by simp_all
  have clock: "accounts_up n (p'\<lparr>pg_now := n\<rparr>)" "accepts_hex (p'\<lparr>pg_now := n\<rparr>)" for n
    using up tx assms(2) by (simp_all add: accounts_up_def accepts_hex_def)
  let ?r = "with_cookie ck q"
  have caller: "session_caller A (p'\<lparr>pg_now := n\<rparr>) ?r = (if n < hi_Now i + ses_TTL A then Some u else None)" for n
    by (rule session_cookie_caller [OF st created_user(1) [OF cr] clock(2)])
  obtain token where ck: "ck = setSessionCookie A (hi_Later i) token (hi_Now i + ses_TTL A)"
    using st by (rule startSession_ok)
  have val: "map_of (rq_Cookies ?r) (ses_CookieName A) = Some token"
    by (simp add: with_cookie_def ck setSessionCookie_def)
  have out: "\<exists>p''. Routes A i' POST_logout (p'\<lparr>pg_now := n\<rparr>) c' ?r =
        (p'', c', (writeHeader 204)\<lparr>rs_Cookies := [clearSessionCookie A]\<rparr>) \<and>
      (\<forall>m. RequireSession A serve (p''\<lparr>pg_now := m\<rparr>) c' ?r = (p''\<lparr>pg_now := m\<rparr>, c', writeError 401 ''authentication required''))"
    if n: "n < hi_Now i + ses_TTL A" for n
  proof -
    let ?w = "WithUser (WithTenant ?r (user_TenantID u)) u"
    have v: "map_of (rq_Cookies ?w) (ses_CookieName A) = Some token" using val by (simp add: WithUser_def WithTenant_def)
    obtain p'' where l: "logout A (p'\<lparr>pg_now := n\<rparr>) c' ?w = (p'', c', (writeHeader 204)\<lparr>rs_Cookies := [clearSessionCookie A]\<rparr>)"
      and gone: "\<And>m. session_caller A (p''\<lparr>pg_now := m\<rparr>) ?w = None" and up': "accounts_up n p''"
      using logout_ends [OF clock v] by blast
    have "pg_text_ok p'' = pg_text_ok p'"
      using l v accounts_up_call(8) [OF clock(1) [of n], of "HashSessionToken (ses_Secret A) token"]
      by (auto simp: logout_def Let_def split: prod.splits sum.splits)
    then have up'': "accounts_up m (p''\<lparr>pg_now := m\<rparr>)" "accepts_hex (p''\<lparr>pg_now := m\<rparr>)" for m
      using up' tx assms(2) by (simp_all add: accounts_up_def accepts_hex_def)
    have same: "session_caller A x ?r = session_caller A x ?w" for x by (simp add: session_caller_def WithUser_def WithTenant_def)
    show ?thesis
      using l caller [of n] n gone
      by (intro exI [of _ p'']) (simp add: same RequireSession_up [OF clock] RequireSession_up [OF up''])
  qed
  have "RequireSession A serve (p'\<lparr>pg_now := n\<rparr>) c' ?r = (if n < hi_Now i + ses_TTL A
      then serve (p'\<lparr>pg_now := n\<rparr>) c' (WithUser (WithTenant ?r (user_TenantID u)) u)
      else (p'\<lparr>pg_now := n\<rparr>, c', writeError 401 ''authentication required''))" for n
    using caller [of n] by (simp add: RequireSession_up [OF clock])
  with out b show ?thesis
    unfolding Let_def by (intro exI [of _ u] exI [of _ ck]) (simp add: ck setSessionCookie_def)
qed

theorem session_life_cycle_witness:
  "\<exists>p' rs u ck. signup demo_api demo_input demo_start_pg demo_start_conn demo_signup = (p', demo_start_conn, rs) \<and> rs_Cookies rs = [ck] \<and>
     RequireSession demo_api me (p'\<lparr>pg_now := 200 * second\<rparr>) demo_start_conn (with_cookie ck demo_http) =
       me (p'\<lparr>pg_now := 200 * second\<rparr>) demo_start_conn (WithUser (WithTenant (with_cookie ck demo_http) (user_TenantID u)) u)"
proof -
  obtain p' rs where s: "signup demo_api demo_input demo_start_pg demo_start_conn demo_signup = (p', demo_start_conn, rs)" "rs_Status rs = 201"
    using demo_signup_created by blast
  have t: "200 * second < hi_Now demo_input + ses_TTL demo_api"
    by (simp add: demo_input_def demo_api_def DefaultSessionTTL_def hour_def minute_def second_def)
  from session_life_cycle [OF demo_pg_up s, of demo_http me demo_input] s(1) t show ?thesis unfolding Let_def by fastforce
qed

text \<open>C25: What logging in tells a stranger, on a working database whose hashes were made by \<open>HashPassword\<close>: an
  address nobody registered and a registered address with the wrong password get the very same answer and change
  nothing, and only they do; and whoever asks, right or wrong, costs exactly one bcrypt comparison of the same
  work factor. No request brings a hash into the table that was not made that way.\<close>

theorem login_uniform:
  assumes "healthy p" and "accounts_ok (pg_lower p) (pg_db p)" and "decodeCredentials A r = Inr req" and "pg_text_ok p (cr_Email req)"
    and "bcrypt_ok (api_B A)" and "auth_init (api_B A) salt = Some (api_dummyHash A)"
    and "schema_ok (pg_db p)" and "hashed_by (api_B A) (pg_db p)"
  shows "((login A i p c r = (p, c, writeError 401 ''invalid email or password'')) =
    (\<forall>u \<in> set (users (pg_db p)). pg_lower p (user_Email u) = pg_lower p (cr_Email req) \<longrightarrow>
       \<not> bc_Compare (api_B A) (user_PasswordHash u) (cr_Password req))) \<and>
    map (bc_Cost (api_B A)) (snd (login_run A i p c r)) = [bc_DefaultCost (api_B A)] \<and>
    hashed_by (api_B A) (pg_db (fst (Routes A j rt p c r')))"
proof -
  let ?row = "row_by (\<lambda>u. pg_lower p (user_Email u)) (pg_lower p (cr_Email req)) (users (pg_db p))"
  have iff: "?row = Some u \<longleftrightarrow> u \<in> set (users (pg_db p)) \<and> pg_lower p (user_Email u) = pg_lower p (cr_Email req)" for u
    by (rule row_by_Some_iff) (rule accounts_distinct(2) [OF assms(2)])
  have "login A i p c r = (p, c, writeError 401 ''invalid email or password'') \<longleftrightarrow>
    (\<forall>u \<in> set (users (pg_db p)). pg_lower p (user_Email u) = pg_lower p (cr_Email req) \<longrightarrow>
       \<not> bc_Compare (api_B A) (user_PasswordHash u) (cr_Password req))"
  proof (cases ?row)
    case None
    then have "pg_lower p (user_Email u) \<noteq> pg_lower p (cr_Email req)" if "u \<in> set (users (pg_db p))" for u
      using that unfolding row_by_None_iff by (metis (no_types, lifting) image_eqI)
    with None login_answers [OF assms(1-4)] show ?thesis by simp
  next
    case (Some u)
    have only: "v = u" if "v \<in> set (users (pg_db p))" "pg_lower p (user_Email v) = pg_lower p (cr_Email req)" for v
      using iff [of v] that Some by simp
    have "\<forall>v \<in> set (users (pg_db p)). pg_lower p (user_Email v) = pg_lower p (cr_Email req) \<longrightarrow>
        \<not> bc_Compare (api_B A) (user_PasswordHash v) (cr_Password req)" if "\<not> bc_Compare (api_B A) (user_PasswordHash u) (cr_Password req)"
      using only that by metis
    moreover have "u \<in> set (users (pg_db p))" "pg_lower p (user_Email u) = pg_lower p (cr_Email req)" using iff [of u] Some by simp_all
    ultimately show ?thesis
      using login_answers [OF assms(1-4), of i c] Some by (auto split: prod.splits option.splits simp: writeJSON_def writeError_def)
  qed
  moreover have "snd (login_run A i p c r) = [case ?row of None \<Rightarrow> api_dummyHash A | Some u \<Rightarrow> user_PasswordHash u]"
    by (rule login_work [OF assms(1-4)])
  moreover have "bc_Cost (api_B A) (case ?row of None \<Rightarrow> api_dummyHash A | Some u \<Rightarrow> user_PasswordHash u) = bc_DefaultCost (api_B A)"
    using assms(5,6,8) iff by (auto simp: bcrypt_ok_def auth_init_def hashed_by_def HashPassword_def split: option.split)
  moreover have "hashed_by (api_B A) (pg_db (fst (Routes A j rt p c r')))"
    using router_hashed [OF _ assms(7,8,2)] by (metis prod.collapse)
  ultimately show ?thesis by simp
qed

theorem login_uniform_witness:
  "login demo_api demo_input demo_start_pg demo_start_conn demo_signup = (demo_start_pg, demo_start_conn, writeError 401 ''invalid email or password'') \<and>
   map (bc_Cost demo_bcrypt) (snd (login_run demo_api demo_input demo_start_pg demo_start_conn demo_signup)) = [10]"
proof -
  have up: "healthy demo_start_pg" "accounts_ok (pg_lower demo_start_pg) (pg_db demo_start_pg)" "users (pg_db demo_start_pg) = []"
    using demo_pg_up(1) by (simp_all add: accounts_up_def demo_start_pg_def demo_start_db_def)
  have b: "bcrypt_ok (api_B demo_api)" "auth_init (api_B demo_api) [] = Some (api_dummyHash demo_api)"
    by (simp_all add: demo_api_def demo_bcrypt_ok auth_init_def demo_dummy_def) (simp add: demo_bcrypt_def)
  have "schema_ok (pg_db demo_start_pg)" "hashed_by (api_B demo_api) (pg_db demo_start_pg)"
    using up(3) start_schema by (simp_all add: hashed_by_def demo_start_pg_def)
  with login_uniform [OF up(1,2) demo_signup_decodes demo_pg_text b, of demo_input demo_start_conn] up(3) show ?thesis
    by (simp add: demo_api_def) (simp add: demo_bcrypt_def)
qed


text \<open>C26: A user who signed up can log in, on a working database: presenting the same address (up to white space
  around it and letter case) and password later is never refused; the answer is 200 with the user the sign-up
  created when a session token can be drawn and its row is fresh, and 500 otherwise.\<close>

theorem signup_then_login:
  assumes "bcrypt_ok (api_B A)" and "accounts_up now p" and "accepts_hex p"
    and "signup A i p c r = (p', c', rs)" and "rs_Status rs = 201"
    and "decodeCredentials A r = Inr req" and "decodeCredentials A r2 = Inr req"
  shows "\<exists>u p'' rs2. rs_Body rs = User_body u \<and> login A i2 p' c' r2 = (p'', c', rs2) \<and>
    (if fresh_session A i2 p' then rs_Status rs2 = 200 \<and> rs_Body rs2 = User_body u else rs_Status rs2 = 500)"
proof -
  obtain req' hash t u p1 ck where d: "decodeCredentials A r = Inr req'" and h: "HashPassword (api_B A) (hi_salt i) (cr_Password req') = Some hash"
    and cr: "CreateAccount p (hi_tenant_id i) (hi_user_id i) (cr_Email req') hash = (p1, Inr (t, u))"
    and st: "startSession A i p1 (user_ID u) = (p', Some ck)" and b: "rs_Body rs = User_body u" and "rs_Cookies rs = [ck]" and "c' = c"
    using assms(4,5) by (rule signup_created)
  have req: "req' = req" using d assms(6) by simp
  note row = created_user [OF cr]
  have up1: "accounts_up now p1" and tx1: "pg_text_ok p1 = pg_text_ok p"
    using CreateAccount_up [OF assms(2), of "hi_tenant_id i" "hi_user_id i" "cr_Email req'" hash] cr by simp_all
  have up: "accounts_up now p'" and tx: "pg_text_ok p' = pg_text_ok p" and us: "users (pg_db p') = users (pg_db p1)"
    using startSession_up [OF up1, of A i "user_ID u"] startSession_tables(2) [of A i p1 "user_ID u"] st tx1 by simp_all
  have "pg_lower p1 = pg_lower p" using CreateAccount_texts [OF cr] by (simp add: same_texts_def)
  moreover have "pg_lower p' = pg_lower p1" using startSession_lower [of A i p1 "user_ID u"] st by simp
  ultimately have "row_by (\<lambda>u. pg_lower p' (user_Email u)) (pg_lower p' (cr_Email req)) (users (pg_db p')) = Some u"
    using row(2) us req by simp
  moreover have "bc_Compare (api_B A) (user_PasswordHash u) (cr_Password req)"
    using assms(1) h row(3) req by (simp add: bcrypt_ok_def HashPassword_def)
  moreover have "user_ID u \<in> user_ID ` set (users (pg_db p'))" using row(1) us row_by_SomeD by fastforce
  then obtain q x where "startSession A i2 p' (user_ID u) = (q, x)" "x = None \<longleftrightarrow> \<not> fresh_session A i2 p'"
    using startSession_fresh [OF up _ ] tx assms(3) by (metis accepts_hex_def prod.collapse)
  moreover have "healthy p'" "accounts_ok (pg_lower p') (pg_db p')" "pg_text_ok p' (cr_Email req)"
    using up tx row(5) req by (simp_all add: accounts_up_def)
  ultimately show ?thesis using b login_answers [OF _ _ assms(7), of p' i2 c'] by (cases x) simp_all
qed

theorem signup_then_login_witness:
  "\<exists>p' rs u p'' rs2. signup demo_api demo_input demo_start_pg demo_start_conn demo_signup = (p', demo_start_conn, rs) \<and>
     login demo_api (demo_input\<lparr>hi_rand := None\<rparr>) p' demo_start_conn demo_signup = (p'', demo_start_conn, rs2) \<and> rs_Status rs2 = 500"
proof -
  obtain p' rs where s: "signup demo_api demo_input demo_start_pg demo_start_conn demo_signup = (p', demo_start_conn, rs)" "rs_Status rs = 201"
    using demo_signup_created by blast
  have b: "bcrypt_ok (api_B demo_api)" by (simp add: demo_api_def demo_bcrypt_ok)
  from signup_then_login [OF b demo_pg_up s demo_signup_decodes demo_signup_decodes, of "demo_input\<lparr>hi_rand := None\<rparr>"] s(1)
  show ?thesis by (auto simp: fresh_session_def GenerateSessionToken_def randomToken_def)
qed

end
