(* ===== verification/ApiMetrics.thy ===== *)
theory ApiMetrics
  imports Admin
begin

section \<open>The gauges of the API process\<close>

text \<open>
  \<^verbatim>\<open>src/cmd/api/metrics.go\<close> and \<^verbatim>\<open>src/internal/metrics/api.go\<close>: what one Prometheus scrape of the API reads.
  The Go map of depths is an association list; \<open>rng\<close> is the order in which \<open>range\<close> visits it, any
  permutation. The Prometheus package only carries the samples.
\<close>

subsection \<open>metrics.go\<close>

definition mergeQueues :: "string list \<Rightarrow> string list \<Rightarrow> string list" where
  "mergeQueues a b = snd (merge_lists [a, b] ({}, []))"

fun depth_loop :: "'r redis \<Rightarrow> string list \<Rightarrow> (string \<times> int) list \<Rightarrow> 'r rconn \<Rightarrow> 'r rconn \<times> (redis_err + (string \<times> int) list)" where
  "depth_loop R [] depths c = (c, Inr depths)"
| "depth_loop R (name # names) depths c =
     (case Len R c name of
        (c', Inl e) \<Rightarrow> (c', Inl e)
      | (c', Inr n) \<Rightarrow> depth_loop R names (AList.update name n depths) c')"

definition QueueDepths ::
  "'r redis \<Rightarrow> string list \<Rightarrow> pg \<Rightarrow> 'r rconn \<Rightarrow> pg \<times> 'r rconn \<times> ((store_err + redis_err) + (string \<times> int) list)" where
  "QueueDepths R configured p c =
     (case AllQueueNames p of
        (p', Inl e) \<Rightarrow> (p', c, Inl (Inl e))
      | (p', Inr dbQueues) \<Rightarrow>
          (case depth_loop R (mergeQueues configured dbQueues) [] c of
             (c', Inl e) \<Rightarrow> (p', c', Inl (Inr e))
           | (c', Inr depths) \<Rightarrow> (p', c', Inr depths)))"

definition ActiveWorkers :: "'r redis \<Rightarrow> 'r rconn \<Rightarrow> ('r rconn \<times> (queue_err + int)) option" where
  "ActiveWorkers R c = CountActiveWorkers R c"

subsection \<open>api.go\<close>

datatype sample =
    Gauge string rat "string list"   \<comment> \<open>\<open>MustNewConstMetric\<close>: descriptor, value, label values\<close>
  | Invalid_metric string            \<comment> \<open>\<open>NewInvalidMetric\<close>\<close>

definition depthDesc :: string where "depthDesc = ''job_queue_depth''"
definition workersDesc :: string where "workersDesc = ''workers_active''"

text \<open>
  \<open>Collect\<close>, as the samples sent to the channel. A scan the server never ends is cut off by
  \<open>collectTimeout\<close>, which is an error like any other.
\<close>

definition Collect ::
  "'r redis \<Rightarrow> string list \<Rightarrow> ((string \<times> int) list \<Rightarrow> (string \<times> int) list) \<Rightarrow> pg \<Rightarrow> 'r rconn \<Rightarrow> pg \<times> 'r rconn \<times> sample list" where
  "Collect R configured rng p c =
     (case QueueDepths R configured p c of (p', c', d) \<Rightarrow>
      let depths = (case d of
            Inl e \<Rightarrow> [Invalid_metric depthDesc]
          | Inr m \<Rightarrow> map (\<lambda>(queue, depth). Gauge depthDesc (f64_of_int depth) [queue]) (rng m))
      in case ActiveWorkers R c' of
           None \<Rightarrow> (p', c', depths @ [Invalid_metric workersDesc])
         | Some (c'', Inl e) \<Rightarrow> (p', c'', depths @ [Invalid_metric workersDesc])
         | Some (c'', Inr n) \<Rightarrow> (p', c'', depths @ [Gauge workersDesc (f64_of_int n) []]))"

subsection \<open>A scrape reads the state\<close>

lemma mergeQueues_spec: "distinct (mergeQueues a b)" "set (mergeQueues a b) = set a \<union> set b - {[]}"
proof -
  obtain out where "merge_lists [a, b] ({}, []) = (set out, out)" "distinct out" "set out = set a \<union> set b - {[]}"
    using merge_lists_spec [of "[]" "[a, b]"] by auto
  then show "distinct (mergeQueues a b)" "set (mergeQueues a b) = set a \<union> set b - {[]}"
    by (simp_all add: mergeQueues_def del: merge_lists.simps)
qed

lemma mergeUnique_mergeQueues: "mergeUnique a b = sort (mergeQueues a b)"
  by (simp add: mergeUnique_def mergeQueues_def del: merge_lists.simps)

lemma AList_update_fresh: "k \<notin> fst ` set m \<Longrightarrow> AList.update k v m = m @ [(k, v)]"
  by (induction m) auto

context redis_server
begin

lemma depth_loop_healthy:
  "r_net c = [] \<Longrightarrow> distinct qs \<Longrightarrow> set qs \<inter> fst ` set ds = {} \<Longrightarrow>
   depth_loop R qs ds c = (c, Inr (ds @ map (\<lambda>q. (q, int (length (queued R c q)))) qs))"
  by (induction qs arbitrary: ds) (auto simp: Len_healthy AList_update_fresh)

lemma QueueDepths_healthy:
  assumes "r_net c = []" and "healthy p"
  shows "QueueDepths R configured p c = (p, c, Inr (map (\<lambda>q. (q, int (length (queued R c q))))
    (mergeQueues configured (sort (remdups (map job_QueueName (jobs (pg_db p))))))))"
  using assms by (simp add: QueueDepths_def AllQueueNames_healthy depth_loop_healthy mergeQueues_spec(1))

lemma Collect_healthy:
  assumes "r_net c = []" and "healthy p"
  shows "Collect R configured rng p c = (p, c,
    map (\<lambda>(q, n). Gauge depthDesc (f64_of_int n) [q]) (rng (map (\<lambda>q. (q, int (length (queued R c q))))
      (mergeQueues configured (sort (remdups (map job_QueueName (jobs (pg_db p)))))))) @
    [Gauge workersDesc (f64_of_int (int (card (live_keys R (r_srv c) workerKeyPrefix (r_now c))))) []])"
  using assms by (simp add: Collect_def QueueDepths_healthy ActiveWorkers_def CountActiveWorkers_live)

end

text \<open>A failed read is reported as such: no gauge of that kind is sent.\<close>

lemma Collect_error:
  assumes "Collect R configured rng p c = (p', c', samples)"
  shows "(\<exists>e. snd (snd (QueueDepths R configured p c)) = Inl e) \<Longrightarrow>
      Invalid_metric depthDesc \<in> set samples \<and> (\<forall>v ls. Gauge depthDesc v ls \<notin> set samples)"
    and "pg_db p' = pg_db p"
proof -
  show "Invalid_metric depthDesc \<in> set samples \<and> (\<forall>v ls. Gauge depthDesc v ls \<notin> set samples)"
    if "\<exists>e. snd (snd (QueueDepths R configured p c)) = Inl e"
    using assms that
    by (auto simp: Collect_def depthDesc_def workersDesc_def Let_def split: prod.splits option.splits sum.splits)
  show "pg_db p' = pg_db p"
    using assms
    by (auto simp: Collect_def QueueDepths_def Let_def split: prod.splits option.splits sum.splits dest: stats_calls(2))
qed

end
