(* ===== verification/Migrate.thy ===== *)
theory Migrate
  imports GoStd
begin

section \<open>The migration runner\<close>

text \<open>
  \<^verbatim>\<open>src/internal/store/migrate.go\<close>. The runner works on a database that has no schema yet, so its state is
  kept apart from the tables of the other theories: the rows of \<open>schema_migrations\<close> (\<open>None\<close>: no such table)
  and everything else, of any type \<open>'d\<close>. What a file's SQL text does to the rest is the argument
  \<open>run\<close> (\<open>None\<close>: the server refuses it). The file system is the list of the embedded files.
\<close>

record 'd mdb =
  m_versions :: "string list option"
  m_data :: 'd

record 'd mconn =
  m_db :: "'d mdb"
  m_net :: "fault list"

datatype migrate_err =
    Create_table_failed
  | Check_failed string
  | Read_failed string
  | Apply_failed string

text \<open>One statement in its own transaction; the server's refusal and a lost message look alike here.\<close>

definition mexec :: "('d mdb \<Rightarrow> ('d mdb \<times> 'a) option) \<Rightarrow> 'd mconn \<Rightarrow> 'd mconn \<times> 'a option" where
  "mexec s c =
     (let (f, fs) = next_fault (m_net c); c' = c\<lparr>m_net := fs\<rparr> in
      case s (m_db c) of
        None \<Rightarrow> (c', None)
      | Some (d, a) \<Rightarrow>
          (case f of
             Lost_request \<Rightarrow> (c', None)
           | Lost_reply \<Rightarrow> (c'\<lparr>m_db := d\<rparr>, None)
           | Delivered \<Rightarrow> (c'\<lparr>m_db := d\<rparr>, Some a)))"

text \<open>A statement inside a transaction works on the transaction's copy.\<close>

definition mtx_exec :: "('d mdb \<Rightarrow> 'd mdb option) \<Rightarrow> 'd mdb \<Rightarrow> 'd mconn \<Rightarrow> 'd mconn \<times> 'd mdb option" where
  "mtx_exec s w c =
     (let (f, fs) = next_fault (m_net c); c' = c\<lparr>m_net := fs\<rparr> in
      if f = Delivered then (c', s w) else (c', None))"

definition create_versions :: "'d mdb \<Rightarrow> ('d mdb \<times> unit) option" where
  "create_versions d =
     Some (case m_versions d of None \<Rightarrow> d\<lparr>m_versions := Some []\<rparr> | Some _ \<Rightarrow> d, ())"

definition select_applied :: "string \<Rightarrow> 'd mdb \<Rightarrow> ('d mdb \<times> bool) option" where
  "select_applied version d =
     (case m_versions d of None \<Rightarrow> None | Some vs \<Rightarrow> Some (d, version \<in> set vs))"

definition run_sql :: "(string \<Rightarrow> 'd \<Rightarrow> 'd option) \<Rightarrow> string \<Rightarrow> 'd mdb \<Rightarrow> 'd mdb option" where
  "run_sql run sqlText d = map_option (\<lambda>x. d\<lparr>m_data := x\<rparr>) (run sqlText (m_data d))"

text \<open>\<open>version\<close> is the primary key.\<close>

definition insert_version :: "string \<Rightarrow> 'd mdb \<Rightarrow> 'd mdb option" where
  "insert_version version d =
     (case m_versions d of
        None \<Rightarrow> None
      | Some vs \<Rightarrow> if version \<in> set vs then None else Some (d\<lparr>m_versions := Some (vs @ [version])\<rparr>))"

definition applyMigration ::
  "(string \<Rightarrow> 'd \<Rightarrow> 'd option) \<Rightarrow> 'd mconn \<Rightarrow> string \<Rightarrow> string \<Rightarrow> 'd mconn \<times> bool" where
  "applyMigration run c version sqlText =
     (case mexec (\<lambda>d. Some (d, d)) c of
        (c1, None) \<Rightarrow> (c1, False)
      | (c1, Some w) \<Rightarrow>
          (case mtx_exec (run_sql run sqlText) w c1 of
             (c2, None) \<Rightarrow> (c2, False)
           | (c2, Some w2) \<Rightarrow>
               (case mtx_exec (insert_version version) w2 c2 of
                  (c3, None) \<Rightarrow> (c3, False)
                | (c3, Some w3) \<Rightarrow>
                    (case mexec (\<lambda>_. Some (w3, ())) c3 of
                       (c4, None) \<Rightarrow> (c4, False)
                     | (c4, Some _) \<Rightarrow> (c4, True)))))"

text \<open>\<open>strings.HasSuffix\<close> and \<open>strings.TrimSuffix\<close>.\<close>

definition HasSuffix :: "string \<Rightarrow> string \<Rightarrow> bool" where
  "HasSuffix s suf = (length suf \<le> length s \<and> drop (length s - length suf) s = suf)"

definition TrimSuffix :: "string \<Rightarrow> string \<Rightarrow> string" where
  "TrimSuffix s suf = (if HasSuffix s suf then take (length s - length suf) s else s)"

definition up_suffix :: string where "up_suffix = ''.up.sql''"

text \<open>The loop of \<open>Migrate\<close>; \<open>read\<close> is \<open>fs.ReadFile\<close>.\<close>

fun migrate_files ::
  "(string \<Rightarrow> 'd \<Rightarrow> 'd option) \<Rightarrow> (string \<rightharpoonup> string) \<Rightarrow> string list \<Rightarrow> 'd mconn \<Rightarrow> 'd mconn \<times> (migrate_err + unit)" where
  "migrate_files run read [] c = (c, Inr ())"
| "migrate_files run read (name # names) c =
     (let version = TrimSuffix name up_suffix in
      case mexec (select_applied version) c of
        (c1, None) \<Rightarrow> (c1, Inl (Check_failed version))
      | (c1, Some True) \<Rightarrow> migrate_files run read names c1
      | (c1, Some False) \<Rightarrow>
          (case read name of
             None \<Rightarrow> (c1, Inl (Read_failed name))
           | Some sqlText \<Rightarrow>
               (case applyMigration run c1 version sqlText of
                  (c2, False) \<Rightarrow> (c2, Inl (Apply_failed version))
                | (c2, True) \<Rightarrow> migrate_files run read names c2)))"

text \<open>\<open>fs.Glob(fsys, "*.up.sql")\<close>: the files of the root directory with that ending.\<close>

definition Glob_up :: "(string \<times> string) list \<Rightarrow> string list" where
  "Glob_up files = filter (\<lambda>n. CHR ''/'' \<notin> set n \<and> HasSuffix n up_suffix) (map fst files)"

definition Migrate ::
  "(string \<Rightarrow> 'd \<Rightarrow> 'd option) \<Rightarrow> (string \<times> string) list \<Rightarrow> 'd mconn \<Rightarrow> 'd mconn \<times> (migrate_err + unit)" where
  "Migrate run files c =
     (case mexec create_versions c of
        (c1, None) \<Rightarrow> (c1, Inl Create_table_failed)
      | (c1, Some _) \<Rightarrow> migrate_files run (map_of files) (sort (Glob_up files)) c1)"

subsection \<open>The specification: apply what is missing, in order\<close>

abbreviation applied :: "'d mdb \<Rightarrow> string set" where
  "applied d \<equiv> (case m_versions d of None \<Rightarrow> {} | Some vs \<Rightarrow> set vs)"

abbreviation version_of :: "string \<Rightarrow> string" where
  "version_of name \<equiv> TrimSuffix name up_suffix"

definition apply_file :: "(string \<Rightarrow> 'd \<Rightarrow> 'd option) \<Rightarrow> (string \<rightharpoonup> string) \<Rightarrow> string \<Rightarrow> 'd mdb \<Rightarrow> 'd mdb option" where
  "apply_file run read name d =
     (case read name of
        None \<Rightarrow> None
      | Some sqlText \<Rightarrow>
          map_option (\<lambda>x. d\<lparr>m_versions := map_option (\<lambda>vs. vs @ [version_of name]) (m_versions d), m_data := x\<rparr>)
            (run sqlText (m_data d)))"

fun apply_missing :: "(string \<Rightarrow> 'd \<Rightarrow> 'd option) \<Rightarrow> (string \<rightharpoonup> string) \<Rightarrow> string list \<Rightarrow> 'd mdb \<Rightarrow> 'd mdb option" where
  "apply_missing run read [] d = Some d"
| "apply_missing run read (name # names) d =
     (if version_of name \<in> applied d then apply_missing run read names d
      else Option.bind (apply_file run read name d) (apply_missing run read names))"

lemma apply_file_versions:
  "apply_file run read n d = Some d' \<Longrightarrow> m_versions d' = map_option (\<lambda>vs. vs @ [version_of n]) (m_versions d)"
  by (auto simp: apply_file_def split: option.splits)

lemma apply_missing_append:
  "apply_missing run read (xs @ ys) d = Option.bind (apply_missing run read xs d) (apply_missing run read ys)"
  by (induction xs arbitrary: d) (auto split: Option.bind_split)

lemma apply_missing_done: "(\<And>n. n \<in> set ns \<Longrightarrow> version_of n \<in> applied d) \<Longrightarrow> apply_missing run read ns d = Some d"
  by (induction ns) auto

lemma apply_missing_records:
  "apply_missing run read ns d = Some d' \<Longrightarrow> m_versions d = Some vs \<Longrightarrow>
   \<exists>ws. m_versions d' = Some (vs @ ws) \<and> version_of ` set ns \<subseteq> set (vs @ ws) \<and> (distinct vs \<longrightarrow> distinct (vs @ ws))"
proof (induction ns arbitrary: d vs)
  case (Cons n ns)
  show ?case
  proof (cases "version_of n \<in> applied d")
    case True
    with Cons.IH [of d vs] Cons.prems show ?thesis by auto
  next
    case False
    with Cons.prems obtain d1 where d1: "apply_file run read n d = Some d1" "apply_missing run read ns d1 = Some d'"
      by (auto simp: Option.bind_eq_Some_conv)
    from apply_file_versions [OF d1(1)] Cons.prems(2) have "m_versions d1 = Some (vs @ [version_of n])" by simp
    from Cons.IH [OF d1(2) this] False Cons.prems(2) show ?thesis by auto
  qed
qed simp

subsection \<open>The runner against its specification\<close>

lemma mexec_cases:
  assumes "mexec s c = (c', res)"
  obtains (failed) "res = None" "m_db c' = m_db c"
  | (lost) d a where "s (m_db c) = Some (d, a)" "res = None" "m_db c' = d"
  | (ok) d a where "s (m_db c) = Some (d, a)" "res = Some a" "m_db c' = d"
  using assms by (auto simp: mexec_def Let_def split: prod.splits option.splits fault.splits)

lemma mexec_healthy:
  "m_net c = [] \<Longrightarrow> mexec s c = (case s (m_db c) of None \<Rightarrow> (c, None) | Some (d, a) \<Rightarrow> (c\<lparr>m_db := d\<rparr>, Some a))"
  by (cases c) (auto simp: mexec_def split: option.splits)

lemma mtx_exec_db [simp]: "m_db (fst (mtx_exec s w c)) = m_db c"
  by (simp add: mtx_exec_def Let_def split: prod.splits)

lemma mtx_exec_healthy: "m_net c = [] \<Longrightarrow> mtx_exec s w c = (c, s w)"
  by (cases c) (simp add: mtx_exec_def)

lemma mtx_exec_ok: "mtx_exec s w c = (c', Some w') \<Longrightarrow> s w = Some w'"
  by (auto simp: mtx_exec_def Let_def split: prod.splits if_splits)

lemma applied_insert:
  assumes "run_sql run t d = Some w" and "version \<notin> applied d" and "m_versions d \<noteq> None"
  shows "insert_version version w = Some (w\<lparr>m_versions := map_option (\<lambda>vs. vs @ [version]) (m_versions d)\<rparr>)"
  using assms by (auto simp: run_sql_def insert_version_def)

lemma select_applied_db: "mexec (select_applied v) c = (c', res) \<Longrightarrow> m_db c' = m_db c"
  by (erule mexec_cases) (auto simp: select_applied_def split: option.splits)

lemma select_result:
  "mexec (select_applied v) c = (c', Some b) \<Longrightarrow> m_versions (m_db c) \<noteq> None \<and> (b \<longleftrightarrow> v \<in> applied (m_db c))"
  by (erule mexec_cases) (auto simp: select_applied_def split: option.splits)

text \<open>One file: all of it or nothing; a success is all of it.\<close>

lemma applyMigration_atomic:
  assumes "applyMigration run c (version_of n) t = (c', ok)" and "read n = Some t"
    and "version_of n \<notin> applied (m_db c)" and "m_versions (m_db c) \<noteq> None"
  shows "(\<not> ok \<and> m_db c' = m_db c) \<or> apply_file run read n (m_db c) = Some (m_db c')"
proof -
  obtain c1 b where b: "mexec (\<lambda>d. Some (d, d)) c = (c1, b)" by force
  from b have c1: "m_db c1 = m_db c" "b = None \<or> b = Some (m_db c)" by (auto elim: mexec_cases)
  show ?thesis
  proof (cases b)
    case None
    with assms(1) b c1 show ?thesis by (auto simp: applyMigration_def)
  next
    case (Some w)
    with c1 have w: "w = m_db c" by simp
    obtain c2 x where x: "mtx_exec (run_sql run t) w c1 = (c2, x)" by force
    then have c2: "m_db c2 = m_db c" using mtx_exec_db [of "run_sql run t" w c1] c1 by simp
    show ?thesis
    proof (cases x)
      case None
      with assms(1) b Some x c2 show ?thesis by (auto simp: applyMigration_def)
    next
      case (Some w2)
      note r = mtx_exec_ok [OF x [unfolded Some]]
      obtain c3 y where y: "mtx_exec (insert_version (version_of n)) w2 c2 = (c3, y)" by force
      then have c3: "m_db c3 = m_db c" using mtx_exec_db [of "insert_version (version_of n)" w2 c2] c2 by simp
      show ?thesis
      proof (cases y)
        case None
        with assms(1) b \<open>b = Some w\<close> x Some y c3 show ?thesis by (auto simp: applyMigration_def)
      next
        case (Some w3)
        have "apply_file run read n (m_db c) = Some w3"
          using mtx_exec_ok [OF y [unfolded Some]] applied_insert [OF r [unfolded w] assms(3,4)] r w assms(2)
          by (auto simp: apply_file_def run_sql_def)
        moreover obtain c4 z where z: "mexec (\<lambda>_. Some (w3, ())) c3 = (c4, z)" by force
        moreover have "m_db c4 = m_db c \<and> z = None \<or> m_db c4 = w3" using z c3 by (auto elim: mexec_cases)
        moreover have "c' = c4 \<and> (ok \<longleftrightarrow> z \<noteq> None)"
          using assms(1) b \<open>b = Some w\<close> x \<open>x = Some w2\<close> y Some z by (auto simp: applyMigration_def split: option.splits)
        ultimately show ?thesis by auto
      qed
    qed
  qed
qed

lemma applyMigration_healthy:
  assumes "m_net c = []" and "apply_file run read n (m_db c) = Some d" and "read n = Some t"
    and "version_of n \<notin> applied (m_db c)" and "m_versions (m_db c) \<noteq> None"
  shows "applyMigration run c (version_of n) t = (c\<lparr>m_db := d\<rparr>, True)"
proof -
  from assms(2,3) obtain x where x: "run t (m_data (m_db c)) = Some x"
    "d = (m_db c)\<lparr>m_versions := map_option (\<lambda>vs. vs @ [version_of n]) (m_versions (m_db c)), m_data := x\<rparr>"
    by (auto simp: apply_file_def)
  then have r: "run_sql run t (m_db c) = Some ((m_db c)\<lparr>m_data := x\<rparr>)" by (simp add: run_sql_def)
  from applied_insert [OF r assms(4,5)] x(2) have "insert_version (version_of n) ((m_db c)\<lparr>m_data := x\<rparr>) = Some d" by simp
  with assms(1) r show ?thesis by (simp add: applyMigration_def mexec_healthy mtx_exec_healthy)
qed

text \<open>A pass over the files stops after a prefix of them, on any network; a success is a pass over all.\<close>

lemma migrate_files_prefix:
  assumes "migrate_files run read ns c = (c', res)" and "m_versions (m_db c) \<noteq> None"
  shows "\<exists>k \<le> length ns. apply_missing run read (take k ns) (m_db c) = Some (m_db c') \<and> (res = Inr () \<longrightarrow> k = length ns)"
  using assms
proof (induction ns arbitrary: c)
  case (Cons n ns)
  obtain c1 b where s: "mexec (select_applied (version_of n)) c = (c1, b)" by force
  note c1 = select_applied_db [OF s]
  have stop: ?case if "res \<noteq> Inr ()" "m_db c' = m_db c" using that by (intro exI [of _ 0]) simp
  have go: ?case if m: "migrate_files run read ns c2 = (c', res)" "m_versions (m_db c2) \<noteq> None"
    and a: "\<And>ns'. apply_missing run read (n # ns') (m_db c) = apply_missing run read ns' (m_db c2)" for c2
  proof -
    from Cons.IH [OF m] obtain k where "k \<le> length ns" "apply_missing run read (take k ns) (m_db c2) = Some (m_db c')"
      "res = Inr () \<longrightarrow> k = length ns" by blast
    then show ?thesis using a [of "take k ns"] by (intro exI [of _ "Suc k"]) (auto simp del: apply_missing.simps)
  qed
  show ?case
  proof (cases b)
    case None
    with Cons.prems(1) s c1 show ?thesis by (intro stop) (auto simp: Let_def)
  next
    case (Some skip)
    note r = select_result [OF s [unfolded Some]]
    show ?thesis
    proof (cases skip)
      case True
      with Cons.prems s Some c1 r show ?thesis by (intro go [of c1]) (auto simp: Let_def)
    next
      case False
      show ?thesis
      proof (cases "read n")
        case None
        with Cons.prems(1) s Some False c1 show ?thesis by (intro stop) (auto simp: Let_def)
      next
        case (Some t)
        obtain c2 ok where a: "applyMigration run c1 (version_of n) t = (c2, ok)" by force
        have c2: "(\<not> ok \<and> m_db c2 = m_db c) \<or> apply_file run read n (m_db c) = Some (m_db c2)"
          using applyMigration_atomic [of run c1 n t c2 ok read] a Some r False c1 by simp
        have one: ?thesis if "\<not> ok" "apply_file run read n (m_db c) = Some (m_db c2)"
          using Cons.prems(1) s \<open>b = Some skip\<close> False Some a that r by (intro exI [of _ 1]) (auto simp: Let_def)
        show ?thesis
        proof (cases ok)
          case True
          with c2 have f: "apply_file run read n (m_db c) = Some (m_db c2)" by simp
          with Cons.prems(1) s \<open>b = Some skip\<close> False Some a True r apply_file_versions [OF f] show ?thesis
            by (intro go [of c2]) (auto simp: Let_def)
        next
          case no: False
          with one c2 Cons.prems(1) s \<open>b = Some skip\<close> False Some a show ?thesis by (auto simp: Let_def intro: stop)
        qed
      qed
    qed
  qed
qed simp

lemma migrate_files_healthy:
  assumes "apply_missing run read xs (m_db c) = Some d" and "m_net c = []" and "m_versions (m_db c) \<noteq> None"
  shows "migrate_files run read (xs @ ys) c = migrate_files run read ys (c\<lparr>m_db := d\<rparr>)"
  using assms
proof (induction xs arbitrary: c)
  case (Cons n xs)
  have sel: "mexec (select_applied (version_of n)) c = (c, Some (version_of n \<in> applied (m_db c)))"
    using Cons.prems(2,3) by (auto simp: mexec_healthy select_applied_def)
  show ?case
  proof (cases "version_of n \<in> applied (m_db c)")
    case True
    with Cons sel show ?thesis by (simp add: Let_def)
  next
    case False
    with Cons.prems(1) obtain d1 where d1: "apply_file run read n (m_db c) = Some d1" "apply_missing run read xs d1 = Some d"
      by (auto simp: Option.bind_eq_Some_conv)
    then obtain t where t: "read n = Some t" by (auto simp: apply_file_def split: option.splits)
    note a = applyMigration_healthy [OF Cons.prems(2) d1(1) t False Cons.prems(3)]
    have "m_versions d1 \<noteq> None" using apply_file_versions [OF d1(1)] Cons.prems(3) by simp
    with Cons.IH [of "c\<lparr>m_db := d1\<rparr>"] d1(2) Cons.prems(2) sel False t a show ?thesis by (simp add: Let_def)
  qed
next
  case Nil
  then have "c\<lparr>m_db := d\<rparr> = c" by (cases c) auto
  then show ?case by simp
qed

subsection \<open>Whole runs\<close>

definition with_table :: "'d mdb \<Rightarrow> 'd mdb" where
  "with_table d = (case m_versions d of None \<Rightarrow> d\<lparr>m_versions := Some []\<rparr> | Some _ \<Rightarrow> d)"

lemma with_table_simps [simp]:
  "m_versions (with_table d) \<noteq> None" "with_table (with_table d) = with_table d" "m_data (with_table d) = m_data d"
  "m_versions d \<noteq> None \<Longrightarrow> with_table d = d" "create_versions d = Some (with_table d, ())"
  "\<exists>vs. m_versions (with_table d) = Some vs"
  by (auto simp: with_table_def create_versions_def split: option.split)

lemma Migrate_prefix:
  assumes "Migrate run files c = (c', res)"
  shows "\<exists>k \<le> length (Glob_up files). apply_missing run (map_of files) (take k (sort (Glob_up files))) (with_table (m_db c)) =
      Some (with_table (m_db c')) \<and> (res = Inr () \<longrightarrow> k = length (Glob_up files) \<and> m_versions (m_db c') \<noteq> None)"
proof -
  obtain c1 b where m: "mexec create_versions c = (c1, b)" by force
  have "m_db c1 = m_db c \<and> b = None \<or> m_db c1 = with_table (m_db c)" using m by (auto elim!: mexec_cases)
  then have c1: "with_table (m_db c1) = with_table (m_db c)" "b \<noteq> None \<Longrightarrow> m_db c1 = with_table (m_db c)"
    by (metis with_table_simps(2))+
  show ?thesis
  proof (cases b)
    case None
    with assms m c1 show ?thesis by (intro exI [of _ 0]) (auto simp: Migrate_def)
  next
    case (Some u)
    with assms m have f: "migrate_files run (map_of files) (sort (Glob_up files)) c1 = (c', res)" by (simp add: Migrate_def)
    have v: "m_versions (m_db c1) \<noteq> None" using c1(2) Some by simp
    from migrate_files_prefix [OF f v] obtain k where k: "k \<le> length (Glob_up files)"
      "apply_missing run (map_of files) (take k (sort (Glob_up files))) (m_db c1) = Some (m_db c')"
      "res = Inr () \<longrightarrow> k = length (Glob_up files)" by auto
    from v obtain vs where "m_versions (m_db c1) = Some vs" by blast
    from apply_missing_records [OF k(2) this] have "m_versions (m_db c') \<noteq> None" by auto
    with k c1 Some show ?thesis by (intro exI [of _ k]) simp
  qed
qed

lemma mexec_create: "mexec create_versions c = (c1, b) \<Longrightarrow> m_versions (m_db c) \<noteq> None \<Longrightarrow> m_db c1 = m_db c"
  by (erule mexec_cases) auto

lemma Migrate_keeps_table:
  assumes "Migrate run files c = (c', res)" and "m_versions (m_db c) \<noteq> None"
  shows "m_versions (m_db c') \<noteq> None"
proof -
  obtain c1 b where m: "mexec create_versions c = (c1, b)" by force
  note c1 = mexec_create [OF m assms(2)]
  show ?thesis
  proof (cases b)
    case None
    with assms m c1 show ?thesis by (auto simp: Migrate_def)
  next
    case (Some u)
    with assms m have "migrate_files run (map_of files) (sort (Glob_up files)) c1 = (c', res)" by (simp add: Migrate_def)
    from migrate_files_prefix [OF this] c1 assms(2) obtain k where
      k: "apply_missing run (map_of files) (take k (sort (Glob_up files))) (m_db c) = Some (m_db c')" by auto
    from assms(2) obtain vs where "m_versions (m_db c) = Some vs" by blast
    from apply_missing_records [OF k this] show ?thesis by auto
  qed
qed

lemma Migrate_healthy:
  "m_net c = [] \<Longrightarrow> Migrate run files c =
     migrate_files run (map_of files) (sort (Glob_up files)) (c\<lparr>m_db := with_table (m_db c)\<rparr>)"
  by (simp add: Migrate_def mexec_healthy)

text \<open>Runs that met any network, one after another.\<close>

fun attempts :: "(string \<Rightarrow> 'd \<Rightarrow> 'd option) \<Rightarrow> (string \<times> string) list \<Rightarrow> fault list list \<Rightarrow> 'd mdb \<Rightarrow> 'd mdb" where
  "attempts run files [] d = d"
| "attempts run files (fs # fss) d = attempts run files fss (m_db (fst (Migrate run files \<lparr>m_db = d, m_net = fs\<rparr>)))"

lemma resume_once:
  assumes "Migrate run files c = (c', res)" and "m_net h = []"
  shows "Migrate run files (h\<lparr>m_db := m_db c'\<rparr>) = Migrate run files (h\<lparr>m_db := m_db c\<rparr>)"
proof -
  let ?ns = "sort (Glob_up files)" and ?read = "map_of files"
  from Migrate_prefix [OF assms(1)] obtain k where
    k: "apply_missing run ?read (take k ?ns) (with_table (m_db c)) = Some (with_table (m_db c'))" by blast
  have "version_of ` set (take k ?ns) \<subseteq> applied (with_table (m_db c'))"
  proof -
    obtain vs where "m_versions (with_table (m_db c)) = Some vs" using with_table_simps(1) by blast
    from apply_missing_records [OF k this] show ?thesis by auto
  qed
  then have k': "apply_missing run ?read (take k ?ns) (with_table (m_db c')) = Some (with_table (m_db c'))"
    by (intro apply_missing_done) auto
  have "migrate_files run ?read (take k ?ns @ drop k ?ns) (h\<lparr>m_db := with_table (m_db c)\<rparr>) =
    migrate_files run ?read (take k ?ns @ drop k ?ns) (h\<lparr>m_db := with_table (m_db c')\<rparr>)"
    using migrate_files_healthy [of run ?read "take k ?ns" "h\<lparr>m_db := with_table (m_db c)\<rparr>" _ "drop k ?ns"] k
      migrate_files_healthy [of run ?read "take k ?ns" "h\<lparr>m_db := with_table (m_db c')\<rparr>" _ "drop k ?ns"] k' assms(2)
    by simp
  then show ?thesis using assms(2) by (simp add: Migrate_healthy)
qed

lemma resume_attempts:
  "Migrate run files \<lparr>m_db = attempts run files fss d, m_net = []\<rparr> = Migrate run files \<lparr>m_db = d, m_net = []\<rparr>"
proof (induction fss arbitrary: d)
  case (Cons fs fss)
  obtain c' res where m: "Migrate run files \<lparr>m_db = d, m_net = fs\<rparr> = (c', res)" by force
  from resume_once [OF m, of "\<lparr>m_db = d, m_net = []\<rparr>"] Cons.IH [of "m_db c'"] m show ?case by simp
qed simp

lemma Migrate_complete:
  assumes "Migrate run files c = (c', Inr ())"
  shows "\<forall>n \<in> set (Glob_up files). version_of n \<in> applied (m_db c')"
    and "m_net h = [] \<Longrightarrow> Migrate run files (h\<lparr>m_db := m_db c'\<rparr>) = (h\<lparr>m_db := m_db c'\<rparr>, Inr ())"
proof -
  let ?ns = "sort (Glob_up files)" and ?read = "map_of files"
  from Migrate_prefix [OF assms] have k: "apply_missing run ?read ?ns (with_table (m_db c)) = Some (m_db c')" "m_versions (m_db c') \<noteq> None"
    by auto
  obtain vs where "m_versions (with_table (m_db c)) = Some vs" using with_table_simps(1) by blast
  from apply_missing_records [OF k(1) this] show a: "\<forall>n \<in> set (Glob_up files). version_of n \<in> applied (m_db c')"
    by (auto simp del: set_append)
  then have "apply_missing run ?read ?ns (m_db c') = Some (m_db c')" by (intro apply_missing_done) auto
  then show "m_net h = [] \<Longrightarrow> Migrate run files (h\<lparr>m_db := m_db c'\<rparr>) = (h\<lparr>m_db := m_db c'\<rparr>, Inr ())"
    using migrate_files_healthy [of run ?read ?ns "h\<lparr>m_db := m_db c'\<rparr>" "m_db c'" "[]"] k(2) by (simp add: Migrate_healthy)
qed

end
