(* ===== verification/Server.thy ===== *)
theory Server
  imports AuthApi ApiMetrics Config Migrate Scheduler
begin

section \<open>The processes\<close>

text \<open>
  \<^verbatim>\<open>src/cmd/api/main.go\<close>, the start-up of \<^verbatim>\<open>src/cmd/worker/main.go\<close> and \<^verbatim>\<open>src/cmd/scheduler/main.go\<close>, and
  \<^verbatim>\<open>src/internal/handlers/middleware.go\<close>: how the parts are put together. The chi router's decision is the
  argument \<open>target\<close>; chi's own middleware (request ids, logging, recovery from panics) passes requests on.
\<close>

subsection \<open>middleware.go\<close>

type_synonym headers = "(string \<times> string) list"

definition header_Set :: "string \<Rightarrow> string \<Rightarrow> headers \<Rightarrow> headers" where
  "header_Set k v h = filter (\<lambda>(k', _). k' \<noteq> k) h @ [(k, v)]"

definition header_Add :: "string \<Rightarrow> string \<Rightarrow> headers \<Rightarrow> headers" where
  "header_Add k v h = h @ [(k, v)]"

definition CORS :: "string \<Rightarrow> 'r handler \<Rightarrow> pg \<Rightarrow> 'r rconn \<Rightarrow> request \<Rightarrow> pg \<times> 'r rconn \<times> headers \<times> response" where
  "CORS allowedOrigin next p c r =
     (let h = header_Set ''Access-Control-Allow-Origin'' allowedOrigin [];
          h = header_Add ''Vary'' ''Origin'' h;
          h = header_Set ''Access-Control-Allow-Methods'' ''GET, POST, DELETE, OPTIONS'' h;
          h = header_Set ''Access-Control-Allow-Headers'' ''Content-Type, Authorization'' h;
          h = header_Set ''Access-Control-Allow-Credentials'' ''true'' h
      in if rq_Method r = ''OPTIONS'' then (p, c, h, writeHeader 204)
         else (case next p c r of (p', c', rs) \<Rightarrow> (p', c', h, rs)))"

definition notFound :: "'r handler" where
  "notFound p c r = (p, c, writeError 404 ''resource not found'')"

definition methodNotAllowed :: "'r handler" where
  "methodNotAllowed p c r = (p, c, writeError 405 ''method not allowed'')"

subsection \<open>Starting up\<close>

datatype startup_err = Connect_postgres | Ping_postgres pgerr | Ping_redis redis_err

text \<open>\<open>store.New\<close>: \<open>url_ok\<close> says whether the driver accepts the URL.\<close>

definition Store_New :: "(string \<Rightarrow> bool) \<Rightarrow> string \<Rightarrow> pg \<Rightarrow> pg \<times> (startup_err + unit)" where
  "Store_New url_ok databaseURL p =
     (if \<not> url_ok databaseURL then (p, Inl Connect_postgres)
      else case Store_Ping p of
        (p', Inl e) \<Rightarrow> (p', Inl (Ping_postgres e))
      | (p', Inr _) \<Rightarrow> (p', Inr ()))"

definition start_services :: "(string \<Rightarrow> bool) \<Rightarrow> config \<Rightarrow> pg \<Rightarrow> 'r rconn \<Rightarrow> pg \<times> 'r rconn \<times> (startup_err + unit)" where
  "start_services url_ok cfg p c =
     (case Store_New url_ok (cfg_DatabaseURL cfg) p of
        (p', Inl e) \<Rightarrow> (p', c, Inl e)
      | (p', Inr _) \<Rightarrow>
          (case Queue_Ping c of
             (c', Inl e) \<Rightarrow> (p', c', Inl (Ping_redis e))
           | (c', Inr _) \<Rightarrow> (p', c', Inr ())))"

subsection \<open>The API process\<close>

text \<open>The handler \<open>runServer\<close> mounts: the configuration with the packages and the session defaults of \<open>New\<close>.\<close>

definition mounted ::
  "config \<Rightarrow> 'r redis \<Rightarrow> uuid_pkg \<Rightarrow> bcrypt_pkg \<Rightarrow> string \<Rightarrow> (string \<Rightarrow> string) \<Rightarrow> pg_aggregates \<Rightarrow> 'r api" where
  "mounted cfg R U B dummy lower G =
     New \<lparr>api_R = R, api_U = U, api_B = B, api_dummyHash = dummy, api_unicode_lower = lower,
       ses_Secret = cfg_SessionSecret cfg, ses_Secure = cfg_SessionCookieSecure cfg, ses_TTL = 0, ses_CookieName = [],
       api_queues = cfg_Queues cfg, api_G = G\<rparr>"

datatype target = Routed route | No_route | Wrong_method

fun chi_router :: "'r api \<Rightarrow> hinput \<Rightarrow> target \<Rightarrow> 'r handler" where
  "chi_router A i (Routed rt) = Routes A i rt"
| "chi_router A i No_route = notFound"
| "chi_router A i Wrong_method = methodNotAllowed"

text \<open>The outer mux: \<open>/metrics\<close> bypasses the middleware.\<close>

datatype mux_request = Scrape "(string \<times> int) list \<Rightarrow> (string \<times> int) list" | Request hinput target request
datatype mux_answer = Samples "sample list" | Answer headers response

fun serve_mux :: "config \<Rightarrow> 'r api \<Rightarrow> mux_request \<Rightarrow> pg \<Rightarrow> 'r rconn \<Rightarrow> pg \<times> 'r rconn \<times> mux_answer" where
  "serve_mux cfg A (Scrape rng) p c =
     (case Collect (api_R A) (cfg_Queues cfg) rng p c of (p', c', s) \<Rightarrow> (p', c', Samples s))"
| "serve_mux cfg A (Request i target r) p c =
     (case CORS (cfg_CORSAllowedOrigin cfg) (chi_router A i target) p c r of (p', c', h, rs) \<Rightarrow> (p', c', Answer h rs))"

text \<open>\<open>runMigrate\<close>: \<open>False\<close> is the exit through \<open>log.Fatalf\<close>.\<close>

definition runMigrate ::
  "(string \<Rightarrow> bool) \<Rightarrow> (string \<Rightarrow> 'd \<Rightarrow> 'd option) \<Rightarrow> (string \<times> string) list \<Rightarrow> config \<Rightarrow> 'd mconn \<Rightarrow> 'd mconn \<times> bool" where
  "runMigrate url_ok run files cfg c =
     (if \<not> url_ok (cfg_DatabaseURL cfg) then (c, False)
      else case mexec (\<lambda>d. Some (d, ())) c of
        (c', None) \<Rightarrow> (c', False)
      | (c', Some _) \<Rightarrow>
          (case Migrate run files c' of
             (c'', Inl e) \<Rightarrow> (c'', False)
           | (c'', Inr _) \<Rightarrow> (c'', True)))"

text \<open>
  \<open>runServer\<close>: reach both services or give up, then serve; the list is what arrives until the listener ends, in the
  order the requests are answered. The listener ends with an error of its own, or because a signal shut it down: then
  the error, if any, is that of the shutdown (\<open>Server_closed False\<close>: the deadline passed before it had drained).
\<close>

datatype listener_end = Listen_error | Server_closed bool
datatype serve_err = Listen_failed | Shutdown_failed

fun shutdown_err :: "listener_end \<Rightarrow> serve_err option" where
  "shutdown_err Listen_error = Some Listen_failed"
| "shutdown_err (Server_closed drained) = (if drained then None else Some Shutdown_failed)"

fun serve_requests :: "config \<Rightarrow> 'r api \<Rightarrow> mux_request list \<Rightarrow> pg \<Rightarrow> 'r rconn \<Rightarrow> pg \<times> 'r rconn \<times> mux_answer list" where
  "serve_requests cfg A [] p c = (p, c, [])"
| "serve_requests cfg A (m # ms) p c =
     (case serve_mux cfg A m p c of (p', c', ans) \<Rightarrow>
      case serve_requests cfg A ms p' c' of (p'', c'', rest) \<Rightarrow> (p'', c'', ans # rest))"

definition runServer ::
  "(string \<Rightarrow> bool) \<Rightarrow> config \<Rightarrow> 'r redis \<Rightarrow> uuid_pkg \<Rightarrow> bcrypt_pkg \<Rightarrow> string \<Rightarrow> (string \<Rightarrow> string) \<Rightarrow> pg_aggregates \<Rightarrow>
   mux_request list \<Rightarrow> listener_end \<Rightarrow> pg \<Rightarrow> 'r rconn \<Rightarrow> pg \<times> 'r rconn \<times> (startup_err + mux_answer list \<times> serve_err option)" where
  "runServer url_ok cfg R U B dummy lower G ms fin p c =
     (case start_services url_ok cfg p c of
        (p', c', Inl e) \<Rightarrow> (p', c', Inl e)
      | (p', c', Inr _) \<Rightarrow>
          (case serve_requests cfg (mounted cfg R U B dummy lower G) ms p' c' of
             (p'', c'', answers) \<Rightarrow> (p'', c'', Inr (answers, shutdown_err fin))))"

text \<open>\<open>main\<close>, after \<open>init\<close> of the \<open>auth\<close> package, which panics when the dummy hash cannot be made: load the configuration,
  then migrate or serve.\<close>

definition api_main ::
  "bcrypt_pkg \<Rightarrow> string \<Rightarrow> string list \<Rightarrow> environment \<Rightarrow> (config \<Rightarrow> 'm) \<Rightarrow> (config \<Rightarrow> string \<Rightarrow> 's) \<Rightarrow> ('m + 's) option" where
  "api_main B salt args env run_migrate run_server =
     (case auth_init B salt of
        None \<Rightarrow> None
      | Some dummy \<Rightarrow>
          (let cfg = Load env
           in Some (if length args > 1 \<and> args ! 1 = ''migrate'' then Inl (run_migrate cfg) else Inr (run_server cfg dummy))))"

subsection \<open>The scheduler process\<close>

text \<open>One pass at once, then one per tick; each pass reads its own clock and draws its own ids.\<close>

fun scheduler_ticks ::
  "'r redis \<Rightarrow> uuid_pkg \<Rightarrow> cron_pkg \<Rightarrow> ((nat \<Rightarrow> bool) \<times> (nat \<Rightarrow> uuid) \<times> time) list \<Rightarrow> pg \<Rightarrow> 'r rconn \<Rightarrow> pg \<times> 'r rconn" where
  "scheduler_ticks R U cron [] p c = (p, c)"
| "scheduler_ticks R U cron ((ended, fresh, now) # ticks) p c =
     (case handleSchedules R U cron ended fresh now p c of (p', c', _) \<Rightarrow> scheduler_ticks R U cron ticks p' c')"

definition scheduler_main ::
  "(string \<Rightarrow> bool) \<Rightarrow> config \<Rightarrow> 'r redis \<Rightarrow> uuid_pkg \<Rightarrow> cron_pkg \<Rightarrow> (nat \<Rightarrow> bool) \<times> (nat \<Rightarrow> uuid) \<times> time \<Rightarrow>
   ((nat \<Rightarrow> bool) \<times> (nat \<Rightarrow> uuid) \<times> time) list \<Rightarrow> pg \<Rightarrow> 'r rconn \<Rightarrow> pg \<times> 'r rconn \<times> (startup_err + unit)" where
  "scheduler_main url_ok cfg R U cron first ticks p c =
     (case start_services url_ok cfg p c of
        (p', c', Inl e) \<Rightarrow> (p', c', Inl e)
      | (p', c', Inr _) \<Rightarrow> (case scheduler_ticks R U cron (first # ticks) p' c' of (p'', c'') \<Rightarrow> (p'', c'', Inr ())))"

subsection \<open>Who gets past the router\<close>

text \<open>The public routes admit anyone, the job API the holder of a live key, the rest the holder of a live session.\<close>

fun admitted :: "'r api \<Rightarrow> pg \<Rightarrow> request \<Rightarrow> route \<Rightarrow> bool" where
  "admitted A p r POST_signup = True"
| "admitted A p r POST_login = True"
| "admitted A p r GET_healthz = True"
| "admitted A p r (Job_route jr) = (key_caller p r \<noteq> None)"
| "admitted A p r _ = (session_caller A p r \<noteq> None)"

lemma serve_requests_length: "serve_requests cfg A ms p c = (p', c', answers) \<Longrightarrow> length answers = length ms"
  by (induction ms arbitrary: p c answers) (auto split: prod.splits)

lemma session_refused:
  assumes "RequireSession A serve p c r = (p', c', rs)" and "accounts_ok (pg_lower p) (pg_db p)" and "session_caller A p r = None"
  shows "pg_db p' = pg_db p \<and> c' = c \<and> rs_Status rs \<in> {401, 500} \<and> rs_Body rs \<in> range Error_body"
  using assms(1,2) by (cases rule: RequireSession_cases) (use assms(3) in auto)

lemma key_refused:
  assumes "RequireAPIKey A serve p c r = (p', c', rs)" and "accounts_ok (pg_lower p) (pg_db p)" and "key_caller p r = None"
  shows "pg_db p' = pg_db p \<and> c' = c \<and> rs_Status rs \<in> {401, 500} \<and> rs_Body rs \<in> range Error_body"
  using assms(1,2) by (cases rule: RequireAPIKey_cases) (use assms(3) in auto)

lemma router_refuses:
  assumes "Routes A i rt p c r = (p', c', rs)" and "accounts_ok (pg_lower p) (pg_db p)" and "\<not> admitted A p r rt"
  shows "pg_db p' = pg_db p \<and> c' = c \<and> rs_Status rs \<in> {401, 500} \<and> rs_Body rs \<in> range Error_body"
proof (cases "\<exists>jr. rt = Job_route jr")
  case True
  then obtain jr where "rt = Job_route jr" by blast
  with assms show ?thesis by (intro key_refused [where A = A and r = r and p = p]) auto
next
  case False
  with assms obtain serve where "RequireSession A serve p c r = (p', c', rs)" "session_caller A p r = None"
    by (cases rt) auto
  then show ?thesis using session_refused assms(2) by blast
qed

subsection \<open>The cookies of every answer\<close>

definition good_cookie :: "'r api \<Rightarrow> cookie \<Rightarrow> bool" where
  "good_cookie A ck \<longleftrightarrow> ck_Name ck = ses_CookieName A \<and> ck_Path ck = ''/'' \<and> ck_HttpOnly ck \<and> ck_SameSiteLax ck \<and>
     ck_Secure ck = ses_Secure A"

lemma good_cookies [simp]: "good_cookie A (setSessionCookie A now token e)" "good_cookie A (clearSessionCookie A)"
  by (simp_all add: good_cookie_def setSessionCookie_def clearSessionCookie_def)

lemma startSession_cookie: "startSession A i p u = (p', Some ck) \<Longrightarrow> good_cookie A ck"
  by (auto simp: startSession_def Let_def split: option.splits prod.splits sum.splits)

lemma guard_cookies:
  assumes "\<And>q d x p2 c2 rs2. serve q d x = (p2, c2, rs2) \<Longrightarrow> list_all (good_cookie A) (rs_Cookies rs2)"
  shows "RequireSession A serve p c r = (p', c', rs) \<Longrightarrow> list_all (good_cookie A) (rs_Cookies rs)"
    and "RequireAPIKey A serve p c r = (p', c', rs) \<Longrightarrow> list_all (good_cookie A) (rs_Cookies rs)"
  by (auto simp: RequireSession_def RequireAPIKey_def split: option.splits prod.splits sum.splits account_err.splits if_splits
      intro: assms)

lemma no_cookies:
  "job_handler R U fresh jr p c r = (p', c', rs) \<Longrightarrow> rs_Cookies rs = []"
  "admin_handler R G queues ar p c r = (p', c', rs) \<Longrightarrow> rs_Cookies rs = []"
  "listKeys p c r = (p', c', rs) \<Longrightarrow> rs_Cookies rs = []" "createKey i p c r = (p', c', rs) \<Longrightarrow> rs_Cookies rs = []"
  "deleteKey A p c r = (p', c', rs) \<Longrightarrow> rs_Cookies rs = []" "me p c r = (p', c', rs) \<Longrightarrow> rs_Cookies rs = []"
  "health p c r = (p', c', rs) \<Longrightarrow> rs_Cookies rs = []"
proof goal_cases
  case 1
  then show ?case
    by (cases jr) (auto simp: listJobs_def enqueueJob_def getJob_def retryJob_def cancelJob_def tenantID_def
        split: option.splits prod.splits sum.splits store_err.splits submit_err.splits if_splits)
next
  case 2
  then show ?case
    by (cases ar) (auto simp: stats_def dashboard_def tenantID_def no_response_def split: option.splits prod.splits sum.splits)
qed (auto simp: listKeys_def createKey_def deleteKey_def me_def health_def tenantID_def context_user_def Let_def
    split: option.splits prod.splits sum.splits account_err.splits if_splits)

lemma decode_error: "decodeCredentials A r = Inl rs \<Longrightarrow> rs_Cookies rs = []"
  by (auto simp: decodeCredentials_def Let_def split: option.splits if_splits)

lemma auth_cookies:
  "signup A i p c r = (p', c', rs) \<Longrightarrow> list_all (good_cookie A) (rs_Cookies rs)"
  "login A i p c r = (p', c', rs) \<Longrightarrow> list_all (good_cookie A) (rs_Cookies rs)"
  "logout A p c r = (p', c', rs) \<Longrightarrow> list_all (good_cookie A) (rs_Cookies rs)"
  by (auto simp: signup_def login_eq logout_def Let_def dest: decode_error startSession_cookie
      split: option.splits prod.splits sum.splits account_err.splits if_splits)

lemma router_cookies:
  assumes "Routes A i rt p c r = (p', c', rs)"
  shows "list_all (good_cookie A) (rs_Cookies rs)"
  using assms by (cases rt) (auto dest!: guard_cookies [rotated] dest: no_cookies auth_cookies)

lemma mounted_session [simp]:
  "ses_CookieName (mounted cfg R U B dummy lower G) = defaultCookieName" "ses_TTL (mounted cfg R U B dummy lower G) = DefaultSessionTTL"
  "ses_Secure (mounted cfg R U B dummy lower G) = cfg_SessionCookieSecure cfg"
  "ses_Secret (mounted cfg R U B dummy lower G) = cfg_SessionSecret cfg" "api_queues (mounted cfg R U B dummy lower G) = cfg_Queues cfg"
  by (simp_all add: mounted_def New_def Let_def)

end
