(* ===== verification/ProcessPaths.thy ===== *)
theory ProcessPaths
  imports Paths Server
begin

section \<open>The calls of the processes as paths\<close>

text \<open>
  The job endpoints (\<^verbatim>\<open>src/internal/handlers/jobs.go\<close>), the passes of the scheduler, the ticks of the poller, the
  beats of the heartbeat and the start-up of a process, each as a path of the step relation of \<open>System\<close> run by
  one idle process.
\<close>

subsection \<open>Reads and idle processes\<close>

lemma put_services_simps [simp]:
  "sys_pg (put_services p c s) = p" "sys_conn (put_services p c s) = c" "sys_pc (put_services p c s) = sys_pc s"
  "put_services p' c' (put_services p c s) = put_services p' c' s" "put_services (sys_pg s) (sys_conn s) s = s"
  by (simp_all add: put_services_def)

lemma goto_put: "sys_pc s w = Idle \<Longrightarrow> goto w Idle (put_services p c s) = put_services p c s"
  by (intro goto_same) simp

definition pg_read :: "pg \<Rightarrow> pg \<Rightarrow> bool" where
  "pg_read p p' \<longleftrightarrow> p' = p\<lparr>pg_net := pg_net p'\<rparr>"

definition redis_read :: "'r rconn \<Rightarrow> 'r rconn \<Rightarrow> bool" where
  "redis_read c c' \<longleftrightarrow> c' = c\<lparr>r_net := r_net c'\<rparr>"

lemma read_refl [simp, intro]: "pg_read p p" "redis_read c c"
  by (simp_all add: pg_read_def redis_read_def)

lemma read_trans [trans]:
  "pg_read p p1 \<Longrightarrow> pg_read p1 p2 \<Longrightarrow> pg_read p p2" "redis_read c c1 \<Longrightarrow> redis_read c1 c2 \<Longrightarrow> redis_read c c2"
  unfolding pg_read_def redis_read_def by (metis pg.surjective pg.update_convs(6), metis rconn.surjective rconn.update_convs(3))

lemma quiet_call: "quiet st \<Longrightarrow> exec st p = (p', res) \<Longrightarrow> p' = p\<lparr>pg_net := pg_net p'\<rparr>"
proof -
  assume "quiet st" and e: "exec st p = (p', res)"
  then have "\<And>d a. st p = Inr (d, a) \<Longrightarrow> d = pg_db p" by (auto simp: quiet_def)
  with e show ?thesis by (cases p) (auto simp: exec_def Let_def split: prod.splits fault.splits sum.splits)
qed

lemma quiet_selects [simp]:
  "quiet (select_jobs w)" "quiet (due_stmt now)" "quiet (count_stmt t f)" "quiet (page_stmt t f)"
  by (auto simp: quiet_def select_jobs_def due_stmt_def count_stmt_def page_stmt_def split: if_splits)

lemma read_path:
  assumes "p' = (sys_pg s)\<lparr>pg_net := fs\<rparr>"
  shows "steps E cron s (put_services p' (sys_conn s) s)"
proof -
  have "put_services p' (sys_conn s) s = s\<lparr>sys_pg := (sys_pg s)\<lparr>pg_now := pg_now (sys_pg s), pg_net := fs\<rparr>,
    sys_conn := (sys_conn s)\<lparr>r_now := r_now (sys_conn s), r_net := r_net (sys_conn s)\<rparr>\<rparr>"
    using assms by (cases "sys_pg s", cases "sys_conn s") (simp add: put_services_def)
  then show ?thesis using step.weather [of E cron s] by (metis r_into_rtranclp)
qed

lemma read_calls:
  "ListJobs p t f = (p', x) \<Longrightarrow> p' = p\<lparr>pg_net := pg_net p'\<rparr>" "GetJob p t k = (p', y) \<Longrightarrow> p' = p\<lparr>pg_net := pg_net p'\<rparr>"
  "DueSchedules p now = (p', z) \<Longrightarrow> p' = p\<lparr>pg_net := pg_net p'\<rparr>"
proof goal_cases
  case 1
  obtain q a where a: "exec (count_stmt t f) p = (q, a)" by force
  note q = quiet_call [OF quiet_selects(3) a]
  show ?case
  proof (cases a)
    case (Inl e)
    with 1 a q show ?thesis by (simp add: ListJobs_def)
  next
    case (Inr n)
    obtain q' b where b: "exec (page_stmt t f) q = (q', b)" by force
    with 1 a Inr have "p' = q'" by (auto simp: ListJobs_def split: sum.splits)
    with q quiet_call [OF quiet_selects(4) b] show ?thesis by (metis pg.surjective pg.update_convs(6))
  qed
next
  case 2
  then show ?case using quiet_call [OF quiet_selects(1)] by (auto simp: GetJob_def split: prod.splits sum.splits option.splits)
next
  case 3
  then show ?case using quiet_call [OF quiet_selects(2)] by (auto simp: DueSchedules_def split: prod.splits sum.splits)
qed

subsection \<open>Each act is a path\<close>

lemma idle_trans:
  "steps E cron s (put_services p c s) \<Longrightarrow> steps E cron (put_services p c s) (put_services p' c' (put_services p c s)) \<Longrightarrow>
   steps E cron s (put_services p' c' s)"
  by (metis put_services_simps(4) rtranclp_trans)

text \<open>A process that reached some point may also be left there: it is idle again.\<close>

lemma die_path: "sys_pc s w = Idle \<Longrightarrow> steps E cron s (goto w l (put_services p c s)) \<Longrightarrow> steps E cron s (put_services p c s)"
proof -
  assume i: "sys_pc s w = Idle" and a: "steps E cron s (goto w l (put_services p c s))"
  have "step E cron (goto w l (put_services p c s)) (goto w Idle (goto w l (put_services p c s)))" by (rule step.die)
  with a goto_put [OF i] show ?thesis by simp
qed

lemma pushed_path:
  assumes "sys_pc s w = Idle" and "steps E cron s (goto w (Persisted job) (put_services p c s))"
    and "Enqueue (we_R E) c (job_QueueName job) (uuid_String (we_U E) (job_ID job)) = (c', r)"
  shows "steps E cron s (put_services p c' s)"
proof -
  have "steps E cron (goto w (Persisted job) (put_services p c s)) (goto w Idle ((goto w (Persisted job) (put_services p c s))\<lparr>sys_conn := c'\<rparr>))"
    using assms(3) by (intro Persisted_path) simp_all
  moreover have "goto w Idle ((goto w (Persisted job) (put_services p c s))\<lparr>sys_conn := c'\<rparr>) = put_services p c' s"
    using goto_put [OF assms(1), of p c'] by (simp add: put_services_def)
  ultimately show ?thesis using assms(2) by simp
qed

lemma retry_path:
  assumes "sys_pc s w = Idle" and "retryJob (we_R E) (we_U E) (sys_pg s) (sys_conn s) r = (p', c', rs)"
  shows "steps E cron s (put_services p' c' s)"
proof (cases "(\<exists>t. tenantID r = Inr t) \<and> uuid_Parse (we_U E) (rq_Param_id r) \<noteq> None")
  case False
  with assms(2) show ?thesis by (auto simp: retryJob_def split: sum.splits)
next
  case True
  then obtain t k where tk: "tenantID r = Inr t" "uuid_Parse (we_U E) (rq_Param_id r) = Some k" by auto
  obtain p1 x where x: "RetryJob (sys_pg s) t k = (p1, x)" by force
  have one: "steps E cron s (goto w (after x Persisted) (put_services p1 (sys_conn s) s))"
    using step.database [OF pg_step.retry [OF assms(1) x], of E cron] by (simp add: put_services_def)
  show ?thesis
  proof (cases x)
    case (Inl e)
    with assms(2) tk x have "p' = p1" "c' = sys_conn s" by (cases e; simp add: retryJob_def)+
    with die_path [OF assms(1) one] show ?thesis by simp
  next
    case (Inr job)
    obtain c1 u where e: "Enqueue (we_R E) (sys_conn s) (job_QueueName job) (uuid_String (we_U E) (job_ID job)) = (c1, u)" by force
    with assms(2) tk x Inr have "p' = p1" "c' = c1" by (auto simp: retryJob_def split: sum.splits)
    with pushed_path [OF assms(1) _ e, of cron p1] one Inr show ?thesis by (simp add: after_def)
  qed
qed

lemma Remove_path:
  assumes "sys_pc s w = Idle" and "steps E cron s (goto w (Withdrawn job) (put_services p c s))"
    and "Remove (we_R E) c (job_QueueName job) (uuid_String (we_U E) (job_ID job)) = (c', r)"
  shows "steps E cron s (put_services p c' s)"
proof -
  let ?s1 = "goto w (Withdrawn job) (put_services p c s)"
  obtain c1 x where x: "redis_do (lrem (we_R E) (keyPrefix @ job_QueueName job) 0 (uuid_String (we_U E) (job_ID job))) c = (c1, x)"
    by force
  have one: "step E cron ?s1 (goto w (after x (\<lambda>_. Unlisted job)) (?s1\<lparr>sys_conn := c1\<rparr>))"
    using x by (intro step.queue redis_step.unlist [where job = job]) simp_all
  then have one': "steps E cron s (goto w (after x (\<lambda>_. Unlisted job)) (put_services p c1 s))"
    using assms(2) by (simp add: put_services_def)
  show ?thesis
  proof (cases x)
    case (Inl e)
    with assms(3) x have "c' = c1" by (simp add: Remove_def)
    with die_path [OF assms(1) one'] show ?thesis by simp
  next
    case (Inr n)
    obtain c2 y where y: "redis_do (zrem (we_R E) (delayedKeyPrefix @ job_QueueName job) (uuid_String (we_U E) (job_ID job))) c1 = (c2, y)"
      by force
    let ?s2 = "goto w (Unlisted job) (put_services p c1 s)"
    have "step E cron ?s2 (goto w Idle (?s2\<lparr>sys_conn := c2\<rparr>))"
      using y by (intro step.queue redis_step.undelay [where job = job and r = y]) simp_all
    moreover have "goto w Idle (?s2\<lparr>sys_conn := c2\<rparr>) = put_services p c2 s"
      using goto_put [OF assms(1), of p c2] by (simp add: put_services_def)
    moreover have "c' = c2" using assms(3) x Inr y by (auto simp: Remove_def split: sum.splits)
    ultimately show ?thesis using one' Inr by (simp add: after_def)
  qed
qed

lemma cancel_path:
  assumes "sys_pc s w = Idle" and "cancelJob (we_R E) (we_U E) (sys_pg s) (sys_conn s) r = (p', c', rs)"
  shows "steps E cron s (put_services p' c' s)"
proof (cases "(\<exists>t. tenantID r = Inr t) \<and> uuid_Parse (we_U E) (rq_Param_id r) \<noteq> None")
  case False
  with assms(2) show ?thesis by (auto simp: cancelJob_def split: sum.splits)
next
  case True
  then obtain t k where tk: "tenantID r = Inr t" "uuid_Parse (we_U E) (rq_Param_id r) = Some k" by auto
  obtain p1 x where x: "CancelJob (sys_pg s) t k = (p1, x)" by force
  have one: "steps E cron s (goto w (after x Withdrawn) (put_services p1 (sys_conn s) s))"
    using step.database [OF pg_step.cancel [OF assms(1) x], of E cron] by (simp add: put_services_def)
  show ?thesis
  proof (cases x)
    case (Inl e)
    with assms(2) tk x have "p' = p1" "c' = sys_conn s" by (cases e; simp add: cancelJob_def)+
    with die_path [OF assms(1) one] show ?thesis by simp
  next
    case (Inr job)
    obtain c1 u where e: "Remove (we_R E) (sys_conn s) (job_QueueName job) (uuid_String (we_U E) (job_ID job)) = (c1, u)" by force
    with assms(2) tk x Inr have "p' = p1" "c' = c1" by (auto simp: cancelJob_def)
    with Remove_path [OF assms(1) _ e, of cron p1] one Inr show ?thesis by (simp add: after_def)
  qed
qed

lemma request_path:
  assumes "sys_pc s w = Idle" and "job_handler (we_R E) (we_U E) fresh jr (sys_pg s) (sys_conn s) r = (p', c', rs)"
  shows "steps E cron s (put_services p' c' s)"
proof (cases jr)
  case GET_jobs
  with assms(2) have "c' = sys_conn s" "p' = (sys_pg s)\<lparr>pg_net := pg_net p'\<rparr>"
    by (auto simp: listJobs_def split: sum.splits prod.splits dest: read_calls(1))
  with read_path show ?thesis by metis
next
  case GET_job
  with assms(2) have "c' = sys_conn s" "p' = (sys_pg s)\<lparr>pg_net := pg_net p'\<rparr>"
    by (auto simp: getJob_def split: sum.splits prod.splits option.splits store_err.splits dest: read_calls(2))
  with read_path show ?thesis by metis
next
  case POST_enqueue
  show ?thesis
  proof (cases "\<exists>t req. tenantID r = Inr t \<and> decode_struct enqueueRequest_fields zero_enqueueRequest (rq_Body r) = Some req \<and> er_JobType req \<noteq> []")
    case True
    then obtain t req where tr: "tenantID r = Inr t" "decode_struct enqueueRequest_fields zero_enqueueRequest (rq_Body r) = Some req"
      "er_JobType req \<noteq> []" by blast
    obtain p1 c1 job u where s: "Submit (we_R E) (we_U E) fresh (sys_pg s) (sys_conn s) (requested_job t req) = (p1, c1, job, u)"
      by (metis prod.collapse)
    with POST_enqueue assms(2) tr have "p' = p1" "c' = c1"
      by (auto simp: enqueueJob_def split: sum.splits submit_err.splits)
    moreover have "job_Status (requested_job t req) = []" by (simp add: requested_job_def Let_def zero_job_def)
    ultimately show ?thesis using Submit_path [OF assms(1) _ s] by simp
  next
    case False
    with POST_enqueue assms(2) show ?thesis by (auto simp: enqueueJob_def split: sum.splits option.splits if_splits)
  qed
next
  case POST_retry
  with assms retry_path show ?thesis by simp
next
  case POST_cancel
  with assms cancel_path show ?thesis by simp
qed

lemma fire_path:
  assumes "sys_pc s w = Idle" and "fireSchedule (we_R E) (we_U E) cron fresh now sc (sys_pg s) (sys_conn s) = (p', c', out)"
  shows "steps E cron s (put_services p' c' s)"
proof (cases "cron (sched_CronExpression sc)")
  case None
  with assms(2) show ?thesis by (auto simp: fireSchedule_def)
next
  case (Some nxt)
  obtain p1 x where x: "ClaimScheduleRun (sys_pg s) (sched_ID sc) (sched_NextRunAt sc) now (nxt now) = (p1, x)" by force
  have "step E cron s (goto w (after x (\<lambda>won. if won then Won sc else Idle)) (s\<lparr>sys_pg := p1\<rparr>))"
    by (rule step.database, rule pg_step.win [where now = now and nxt = nxt]) (use assms(1) Some x in simp_all)
  moreover have "s\<lparr>sys_pg := p1\<rparr> = put_services p1 (sys_conn s) s" by (simp add: put_services_def)
  ultimately have one: "steps E cron s (put_services p1 (sys_conn s) s)"
    using die_path [OF assms(1)] by (metis r_into_rtranclp)
  show ?thesis
  proof (cases "x = Inr True")
    case False
    with assms(2) Some x have "p' = p1" "c' = sys_conn s" by (auto simp: fireSchedule_def Let_def split: sum.splits)
    with one show ?thesis by simp
  next
    case True
    obtain p2 c2 job u where s: "Submit (we_R E) (we_U E) fresh p1 (sys_conn s) (scheduled_job sc) = (p2, c2, job, u)"
      by (metis prod.collapse)
    with assms(2) Some x True have "p' = p2" "c' = c2" by (auto simp: fireSchedule_def Let_def split: sum.splits)
    moreover have "steps E cron (put_services p1 (sys_conn s) s) (put_services p2 c2 (put_services p1 (sys_conn s) s))"
      using s assms(1) by (intro Submit_path [where w = w]) (simp_all add: scheduled_job_def zero_job_def)
    ultimately show ?thesis using idle_trans [OF one] by simp
  qed
qed

lemma fire_all_path:
  "sys_pc s w = Idle \<Longrightarrow> fire_all (we_R E) (we_U E) cron ended fresh now i due (sys_pg s) (sys_conn s) = (p', c', outs) \<Longrightarrow>
   steps E cron s (put_services p' c' s)"
proof (induction due arbitrary: i s outs)
  case (Cons sc due)
  show ?case
  proof (cases "ended i")
    case True
    with Cons.prems(2) show ?thesis by auto
  next
    case False
    obtain p1 c1 out where f: "fireSchedule (we_R E) (we_U E) cron (fresh i) now sc (sys_pg s) (sys_conn s) = (p1, c1, out)"
      by (metis prod.collapse)
    obtain p2 c2 rest where a: "fire_all (we_R E) (we_U E) cron ended fresh now (Suc i) due p1 c1 = (p2, c2, rest)"
      by (metis prod.collapse)
    with f False Cons.prems(2) have "p' = p2" "c' = c2" by auto
    moreover have "steps E cron (put_services p1 c1 s) (put_services p2 c2 (put_services p1 c1 s))"
      using Cons.IH [of "put_services p1 c1 s" "Suc i" rest] Cons.prems(1) a \<open>p' = p2\<close> \<open>c' = c2\<close> by simp
    ultimately show ?thesis using idle_trans [OF fire_path [OF Cons.prems(1) f]] by simp
  qed
qed auto

lemma schedule_path:
  assumes "sys_pc s w = Idle" and "handleSchedules (we_R E) (we_U E) cron ended fresh now (sys_pg s) (sys_conn s) = (p', c', outs)"
  shows "steps E cron s (put_services p' c' s)"
proof -
  obtain p1 x where d: "DueSchedules (sys_pg s) now = (p1, x)" by force
  have one: "steps E cron s (put_services p1 (sys_conn s) s)" using read_path [OF read_calls(3) [OF d]] .
  show ?thesis
  proof (cases x)
    case (Inl e)
    with assms(2) d one show ?thesis by (simp add: handleSchedules_def)
  next
    case (Inr due)
    with assms(2) d have "fire_all (we_R E) (we_U E) cron ended fresh now 0 due p1 (sys_conn s) = (p', c', outs)"
      by (simp add: handleSchedules_def)
    with fire_all_path [of "put_services p1 (sys_conn s) s" w] assms(1) show ?thesis by (intro idle_trans [OF one]) simp
  qed
qed

lemma poll_queues_path:
  "poll_queues (we_R E) ended now queues (sys_conn s) = (c', go) \<Longrightarrow> steps E cron s (put_services (sys_pg s) c' s)"
proof (induction queues arbitrary: s)
  case (Cons q queues)
  obtain c1 x where x: "PromoteDue (we_R E) (sys_conn s) q now promoteBatch = (c1, x)" by force
  have one: "steps E cron s (put_services (sys_pg s) c1 s)"
    using step.queue [OF redis_step.promote [OF x]] by (simp add: put_services_def r_into_rtranclp)
  show ?case
  proof (cases "\<exists>e. x = Inl e \<and> ended")
    case True
    with Cons.prems x one show ?thesis by auto
  next
    case False
    with Cons.prems x have "poll_queues (we_R E) ended now queues c1 = (c', go)" by (auto split: sum.splits)
    with Cons.IH [of "put_services (sys_pg s) c1 s"] show ?thesis by (intro idle_trans [OF one]) simp
  qed
qed auto

lemma conn_path: "steps E cron s (put_services (sys_pg s) ((sys_conn s)\<lparr>r_now := t, r_net := fs\<rparr>) s)"
proof -
  have "put_services (sys_pg s) ((sys_conn s)\<lparr>r_now := t, r_net := fs\<rparr>) s =
    s\<lparr>sys_pg := (sys_pg s)\<lparr>pg_now := pg_now (sys_pg s), pg_net := pg_net (sys_pg s)\<rparr>, sys_conn := (sys_conn s)\<lparr>r_now := t, r_net := fs\<rparr>\<rparr>"
    by (simp add: put_services_def)
  then show ?thesis using step.weather [of E cron s] by (metis r_into_rtranclp)
qed

lemma beat_path:
  "steps E cron s (put_services (sys_pg s) (beat (we_R E) w b (sys_conn s)) s)"
  "steps E cron s (put_services (sys_pg s) (fst (RemoveWorker (we_R E) ((sys_conn s)\<lparr>r_now := fst b, r_net := snd b\<rparr>) w)) s)"
proof -
  let ?s = "put_services (sys_pg s) ((sys_conn s)\<lparr>r_now := fst b, r_net := snd b\<rparr>) s"
  have put: "?s\<lparr>sys_conn := c\<rparr> = put_services (sys_pg ?s) c ?s" for c by (simp add: put_services_def)
  have "steps E cron ?s (put_services (sys_pg ?s) (fst (Heartbeat (we_R E) (sys_conn ?s) (fst b) w)) ?s)"
    "steps E cron ?s (put_services (sys_pg ?s) (fst (RemoveWorker (we_R E) (sys_conn ?s) w)) ?s)"
    unfolding put [symmetric]
    by (rule r_into_rtranclp, rule step.queue, rule redis_step.beat redis_step.bye, rule prod.collapse [symmetric])+
  then show
    "steps E cron s (put_services (sys_pg s) (beat (we_R E) w b (sys_conn s)) s)"
    "steps E cron s (put_services (sys_pg s) (fst (RemoveWorker (we_R E) ((sys_conn s)\<lparr>r_now := fst b, r_net := snd b\<rparr>) w)) s)"
    using idle_trans [OF conn_path] by (simp_all add: beat_def)
qed

text \<open>Starting a process only reads.\<close>

lemma quiet_redis: "fst (cmd (r_srv c)) = r_srv c \<Longrightarrow> redis_do cmd c = (c', res) \<Longrightarrow> c' = c\<lparr>r_net := r_net c'\<rparr>"
  by (cases c) (auto simp: redis_do_def Let_def split: prod.splits fault.splits)

lemma start_path:
  assumes "start_services url_ok cfg (sys_pg s) (sys_conn s) = (p', c', res)"
  shows "steps E cron s (put_services p' c' s)"
proof -
  obtain p1 x where x: "Store_Ping (sys_pg s) = (p1, x)" by force
  obtain c1 y where y: "Queue_Ping (sys_conn s) = (c1, y)" by force
  have "p1 = (sys_pg s)\<lparr>pg_net := pg_net p1\<rparr>" using quiet_call [OF quiet_stmts(4) x [unfolded Store_Ping_def]] .
  then have p: "p' = (sys_pg s)\<lparr>pg_net := pg_net p'\<rparr>"
    using assms x by (auto simp: start_services_def Store_New_def split: if_splits sum.splits prod.splits)
  have "c1 = (sys_conn s)\<lparr>r_net := r_net c1\<rparr>" using y quiet_redis [of "\<lambda>r. (r, ())"] unfolding Queue_Ping_def by simp
  then have c: "c' = (sys_conn s)\<lparr>r_now := r_now (sys_conn s), r_net := r_net c'\<rparr>"
    using assms y by (auto simp: start_services_def split: sum.splits prod.splits)
  show ?thesis
    using idle_trans [OF read_path [OF p], where p' = p' and c' = c']
      conn_path [where s = "put_services p' (sys_conn s) s" and t = "r_now (sys_conn s)" and fs = "r_net c'"] c by simp
qed

end
