(* ===== verification/ApiPaths.thy ===== *)
theory ApiPaths
  imports ProcessPaths
begin

section \<open>The API process as a path\<close>

text \<open>
  Every request the outer mux of \<^verbatim>\<open>src/cmd/api/main.go\<close> serves (a scrape, a preflight, any route behind its
  middleware, a miss) is a path of the step relation of \<open>System\<close>, run by one idle process. A request that only
  reads moves nothing but the network; the writes to the account tables are \<open>account\<close> steps.
\<close>

subsection \<open>Reads\<close>

lemma exec_read: "quiet st \<Longrightarrow> exec st p = (p', res) \<Longrightarrow> pg_read p p'"
  unfolding pg_read_def by (rule quiet_call)

lemma redis_do_read: "fst (cmd (r_srv c)) = r_srv c \<Longrightarrow> redis_do cmd c = (c', res) \<Longrightarrow> redis_read c c'"
  unfolding redis_read_def by (rule quiet_redis)

lemma quiet_accounts [simp]:
  "quiet (select_email email)" "quiet (select_user k)" "quiet (session_join h)" "quiet (select_keys t)"
  "quiet (select_key_hash h)" "quiet (select_tenant k)"
  by (auto simp: quiet_def select_email_def select_user_def session_join_def select_keys_def select_key_hash_def select_tenant_def
      split: if_splits)

lemma account_reads:
  "GetUserByEmail p email = (p', u) \<Longrightarrow> pg_read p p'" "SessionUser p h = (p', u) \<Longrightarrow> pg_read p p'"
  "ListAPIKeys p t = (p', ks) \<Longrightarrow> pg_read p p'" "AuthenticateAPIKey p h = (p', tk) \<Longrightarrow> pg_read p p'"
  "GetTenant p k = (p', tn) \<Longrightarrow> pg_read p p'"
  by (auto simp: GetUserByEmail_def scanUser_def SessionUser_def ListAPIKeys_def AuthenticateAPIKey_def GetTenant_def
      split: prod.splits sum.splits option.splits dest: exec_read [rotated])

lemma stats_reads:
  "QueueNames p t = (p', q) \<Longrightarrow> pg_read p p'" "AllQueueNames p = (p', q') \<Longrightarrow> pg_read p p'"
  "JobMetrics G p t = (p', m) \<Longrightarrow> pg_read p p'" "StatusCounts G p t = (p', n) \<Longrightarrow> pg_read p p'"
  "Store_Ping p = (p', u) \<Longrightarrow> pg_read p p'" "ListJobs p t f = (p', js) \<Longrightarrow> pg_read p p'"
  by (auto simp: QueueNames_def AllQueueNames_def scanQueueNames_def JobMetrics_def StatusCounts_def Store_Ping_def
      split: prod.splits sum.splits dest: exec_read [rotated])
    (simp add: pg_read_def read_calls(1))

lemma length_reads:
  "Len R c q = (c', n) \<Longrightarrow> redis_read c c'" "DelayedLen R c q = (c', n) \<Longrightarrow> redis_read c c'" "Queue_Ping c = (c', u) \<Longrightarrow> redis_read c c'"
  unfolding Len_def DelayedLen_def Queue_Ping_def by (rule redis_do_read; simp)+

lemma queue_depths_reads: "queue_depths R names depths c = (c', res) \<Longrightarrow> redis_read c c'"
  by (induction R names depths c rule: queue_depths.induct)
    (fastforce split: prod.splits sum.splits dest: length_reads intro: read_trans)+

lemma depth_loop_reads: "depth_loop R names depths c = (c', res) \<Longrightarrow> redis_read c c'"
  by (induction R names depths c rule: depth_loop.induct)
    (fastforce split: prod.splits sum.splits dest: length_reads intro: read_trans)+

lemma scan_loop_reads: "scan_loop R cursor seen c = Some y \<Longrightarrow> redis_read c (fst y)"
  by (rule scan_loop.raw_induct [where P = "\<lambda>R cursor seen c y. redis_read c (fst y)"])
    (auto simp: Let_def split: prod.splits sum.splits if_splits dest!: redis_do_read [rotated] intro: read_trans)

text \<open>The statistics, the health check and a scrape read both services and change neither.\<close>

lemma admin_only_reads: "admin_handler R G queues route p c r = (p', c', rs) \<Longrightarrow> pg_read p p' \<and> redis_read c c'"
  by (cases route)
    (auto simp: stats_def dashboard_def CountActiveWorkers_def split: sum.splits prod.splits option.splits
      dest!: stats_reads queue_depths_reads scan_loop_reads intro: read_trans)

lemma health_only_reads: "health p c r = (p', c', rs) \<Longrightarrow> pg_read p p' \<and> redis_read c c'"
  by (auto simp: health_def Let_def split: sum.splits prod.splits dest!: stats_reads length_reads)

lemma scrape_only_reads: "Collect R configured rng p c = (p', c', samples) \<Longrightarrow> pg_read p p' \<and> redis_read c c'"
  by (auto simp: Collect_def QueueDepths_def ActiveWorkers_def CountActiveWorkers_def Let_def split: sum.splits prod.splits option.splits
      dest!: stats_reads depth_loop_reads scan_loop_reads intro: read_trans)

lemma reads_path:
  assumes "pg_read (sys_pg s) p'" and "redis_read (sys_conn s) c'"
  shows "steps E cron s (put_services p' c' s)"
proof -
  have "put_services p' c' s = s\<lparr>sys_pg := (sys_pg s)\<lparr>pg_now := pg_now (sys_pg s), pg_net := pg_net p'\<rparr>,
    sys_conn := (sys_conn s)\<lparr>r_now := r_now (sys_conn s), r_net := r_net c'\<rparr>\<rparr>"
    using assms unfolding pg_read_def redis_read_def put_services_def by (metis pg.surjective pg.update_convs(2) rconn.surjective rconn.update_convs(2))
  then show ?thesis using step.weather [of E cron s] by (metis r_into_rtranclp)
qed

subsection \<open>Handlers made of steps\<close>

text \<open>A handler any idle process can run by steps of the system.\<close>

definition by_steps :: "'r wenv \<Rightarrow> cron_pkg \<Rightarrow> 'r handler \<Rightarrow> bool" where
  "by_steps E cron serve \<longleftrightarrow> (\<forall>s w r p' c' rs. sys_pc s w = Idle \<longrightarrow> serve (sys_pg s) (sys_conn s) r = (p', c', rs) \<longrightarrow>
     steps E cron s (put_services p' c' s))"

lemma by_stepsI:
  "(\<And>s w r p' c' rs. sys_pc s w = Idle \<Longrightarrow> serve (sys_pg s) (sys_conn s) r = (p', c', rs) \<Longrightarrow> steps E cron s (put_services p' c' s)) \<Longrightarrow>
   by_steps E cron serve"
  by (auto simp: by_steps_def)

lemma by_stepsD:
  "by_steps E cron serve \<Longrightarrow> sys_pc s w = Idle \<Longrightarrow> serve (sys_pg s) (sys_conn s) r = (p', c', rs) \<Longrightarrow> steps E cron s (put_services p' c' s)"
  unfolding by_steps_def by blast

text \<open>Running a handler after a path that kept the process idle.\<close>

lemma then_steps:
  assumes "by_steps E cron serve" and "sys_pc s w = Idle" and "steps E cron s (put_services p c s)" and "serve p c r = (p', c', rs)"
  shows "steps E cron s (put_services p' c' s)"
  using by_stepsD [OF assms(1), of "put_services p c s" w r p' c' rs] assms by (intro idle_trans [OF assms(3)]) simp

lemma account_path:
  assumes "sys_pc s w = Idle"
  shows "steps E cron s (put_services (account_write a (sys_pg s)) (sys_conn s) s)"
proof -
  have "step E cron s (goto w Idle (s\<lparr>sys_pg := account_write a (sys_pg s)\<rparr>))"
    using assms by (intro step.database pg_step.account) simp_all
  moreover have "goto w Idle (s\<lparr>sys_pg := account_write a (sys_pg s)\<rparr>) = put_services (account_write a (sys_pg s)) (sys_conn s) s"
    using goto_put [OF assms, of "account_write a (sys_pg s)" "sys_conn s"] by (simp add: put_services_def)
  ultimately show ?thesis by (metis r_into_rtranclp)
qed

subsection \<open>Account handlers\<close>

text \<open>The account handlers read, write account tables, and leave Redis alone.\<close>

inductive account_run :: "pg \<Rightarrow> pg \<Rightarrow> bool" for p where
  nothing: "account_run p p"
| looked: "account_run p p1 \<Longrightarrow> pg_read p1 p2 \<Longrightarrow> account_run p p2"
| wrote: "account_run p p1 \<Longrightarrow> account_run p (account_write a p1)"

lemma account_run_path:
  assumes "account_run (sys_pg s) p'" and "sys_pc s w = Idle"
  shows "steps E cron s (put_services p' (sys_conn s) s)"
  using assms(1)
proof induction
  case nothing
  then show ?case by simp
next
  case (looked p1 p2)
  then show ?case using reads_path [of "put_services p1 (sys_conn s) s" p2 "sys_conn s"] by (intro idle_trans [OF looked.IH]) simp
next
  case (wrote p1 a)
  then show ?case
    using account_path [of "put_services p1 (sys_conn s) s" w E cron a] assms(2) by (intro idle_trans [OF wrote.IH]) simp
qed

lemma account_run_by_steps:
  "(\<And>p c r p' c' rs. serve p c r = (p', c', rs) \<Longrightarrow> account_run p p' \<and> c' = c) \<Longrightarrow> by_steps E cron serve"
  by (intro by_stepsI) (use account_run_path in blast)

lemma account_run_trans:
  assumes "account_run p p1" and "account_run p1 p2"
  shows "account_run p p2"
  using assms(2,1) by induction (auto intro: account_run.looked account_run.wrote)

lemma account_wrote: "account_write a p = p' \<Longrightarrow> account_run p p'"
  by (metis account_run.nothing account_run.wrote)

lemma account_calls:
  "CreateAccount p gt gu email h = (p', ta) \<Longrightarrow> account_run p p'" "CreateSession p g u h e = (p', x) \<Longrightarrow> account_run p p'"
  "DeleteSession p h = (p', x) \<Longrightarrow> account_run p p'" "CreateAPIKey p g t n h pre = (p', k) \<Longrightarrow> account_run p p'"
  "DeleteAPIKey p t y = (p', x) \<Longrightarrow> account_run p p'" "TouchAPIKey p y = (p', x) \<Longrightarrow> account_run p p'"
  using account_wrote [of "Create_account gt gu email h" p p'] account_wrote [of "Create_session g u h e" p p']
    account_wrote [of "Delete_session h" p p'] account_wrote [of "Create_key g t n h pre" p p']
    account_wrote [of "Delete_key t y" p p'] account_wrote [of "Touch_key y" p p'] by simp_all

lemma startSession_run: "startSession A i p u = (p', ck) \<Longrightarrow> account_run p p'"
  by (auto simp: startSession_def Let_def split: option.splits prod.splits sum.splits intro: account_run.nothing account_calls(2))

lemma account_looked: "pg_read p p' \<Longrightarrow> account_run p p'"
  by (metis account_run.nothing account_run.looked)

lemmas account_run_calls = account_calls startSession_run account_reads [THEN account_looked]

lemma auth_by_steps:
  "by_steps E cron (signup A i)" "by_steps E cron (login A i)" "by_steps E cron (logout A)" "by_steps E cron me"
  "by_steps E cron listKeys" "by_steps E cron (createKey i)" "by_steps E cron (deleteKey A)"
  by (rule account_run_by_steps;
      auto simp: signup_def login_eq logout_def me_def listKeys_def createKey_def deleteKey_def Let_def
      split: option.splits prod.splits sum.splits account_err.splits if_splits
      dest!: account_run_calls intro: account_run.nothing account_run_trans)+

subsection \<open>The router and the mux\<close>

lemma guards_by_steps:
  assumes "by_steps E cron serve"
  shows "by_steps E cron (RequireSession A serve)" and "by_steps E cron (RequireAPIKey A serve)"
proof -
  have go: "steps E cron s (put_services p' c' s)"
    if "sys_pc s w = Idle" "account_run (sys_pg s) p1" "serve p1 (sys_conn s) x = (p', c', rs)" for s w p1 x p' c' rs
    by (rule then_steps [OF assms that(1) account_run_path [OF that(2,1)] that(3)])
  note stop = account_run_path
  show "by_steps E cron (RequireSession A serve)"
    by (rule by_stepsI)
      (auto simp: RequireSession_def split: option.splits prod.splits sum.splits account_err.splits
        dest!: account_run_calls intro: go stop)
  show "by_steps E cron (RequireAPIKey A serve)"
    by (rule by_stepsI)
      (auto simp: RequireAPIKey_def split: option.splits prod.splits sum.splits account_err.splits if_splits
        dest!: account_run_calls intro: go stop account_run_trans)
qed

lemma router_by_steps:
  assumes "api_R A = we_R E" and "api_U A = we_U E"
  shows "by_steps E cron (Routes A i rt)"
proof (cases rt)
  case (Job_route jr)
  have "by_steps E cron (job_handler (we_R E) (we_U E) (hi_New i) jr)" by (rule by_stepsI) (rule request_path)
  with Job_route assms show ?thesis by (simp add: guards_by_steps)
next
  case (Admin_route ar)
  have "by_steps E cron (admin_handler (we_R E) (api_G A) (api_queues A) ar)"
    by (rule by_stepsI) (use admin_only_reads reads_path in blast)
  with Admin_route assms show ?thesis by (simp add: guards_by_steps)
next
  case GET_healthz
  have "by_steps E cron health" by (rule by_stepsI) (use health_only_reads reads_path in blast)
  with GET_healthz show ?thesis by simp
qed (simp_all add: auth_by_steps guards_by_steps)

lemma target_by_steps:
  assumes "api_R A = we_R E" and "api_U A = we_U E"
  shows "by_steps E cron (chi_router A i target)"
  using router_by_steps [OF assms] by (cases target) (auto simp: by_steps_def notFound_def methodNotAllowed_def)

lemma mux_path:
  assumes "api_R A = we_R E" and "api_U A = we_U E" and "sys_pc s w = Idle"
    and "serve_mux cfg A m (sys_pg s) (sys_conn s) = (p', c', ans)"
  shows "steps E cron s (put_services p' c' s)"
proof (cases m)
  case (Scrape rng)
  with assms(4) show ?thesis
    by (auto split: prod.splits dest!: scrape_only_reads intro: reads_path)
next
  case (Request i target r)
  with assms(4) show ?thesis
    by (auto simp: CORS_def Let_def split: prod.splits if_splits intro: by_stepsD [OF target_by_steps [OF assms(1,2)] assms(3)])
qed

end
