(* ===== verification/Tally.thy ===== *)
theory Tally
  imports Worker
begin

section \<open>The counters and the table\<close>

text \<open>
  \<open>jobs_processed_total\<close> of \<^verbatim>\<open>src/internal/metrics/worker.go\<close> against the \<open>jobs\<close> table: the worker counts a job only
  once its terminal status is stored, so its counters never run ahead of the rows, and on a working database they
  keep exactly in step with them.
\<close>

definition rows_with :: "db \<Rightarrow> Status \<Rightarrow> int" where
  "rows_with d st = int (length (filter (\<lambda>j. job_Status j = st) (jobs d)))"

definition counted :: "wmetrics \<Rightarrow> Status \<Rightarrow> int" where
  "counted m st = (case processed m st of None \<Rightarrow> 0 | Some n \<Rightarrow> int n)"

text \<open>What the table holds beyond the counter: what other workers and earlier processes brought about.\<close>

definition uncounted :: "'r wstate \<Rightarrow> Status \<Rightarrow> int" where
  "uncounted s st = rows_with (pg_db (ws_pg s)) st - counted (ws_metrics s) st"

definition terminal :: "Status \<Rightarrow> bool" where
  "terminal st \<longleftrightarrow> st = StatusCompleted \<or> st = StatusFailed"

lemma filter_update_length:
  assumes "distinct (map key rows)" and "x \<in> set rows" and "key x' = key x"
  shows "int (length (filter P (sql_update (\<lambda>y. key y = key x') (\<lambda>_. x') rows))) =
    int (length (filter P rows)) + of_bool (P x') - of_bool (P x)"
  using assms
proof (induction rows)
  case (Cons y rows)
  show ?case
  proof (cases "y = x")
    case True
    have "sql_update (\<lambda>y. key y = key x') (\<lambda>_. x') rows = rows"
      using Cons.prems True by (auto simp: sql_update_def image_iff intro!: map_idI)
    with True Cons.prems(3) show ?thesis by (simp add: sql_update_def)
  next
    case False
    with Cons.prems have "key y \<noteq> key x'" by (auto simp: image_iff)
    with False Cons show ?thesis by (simp add: sql_update_def)
  qed
qed simp

lemma rows_put_job:
  assumes "schema_ok d" and "job_of d (job_ID j') = Some j"
  shows "rows_with (put_job j' d) st = rows_with d st + of_bool (job_Status j' = st) - of_bool (job_Status j = st)"
proof -
  have j: "j \<in> set (jobs d)" and i: "job_ID j' = job_ID j" using row_by_SomeD [OF assms(2)] by simp_all
  show ?thesis
    using filter_update_length [of job_ID "jobs d", OF _ j i, of "\<lambda>j. job_Status j = st"] schema_distinct(1) [OF assms(1)]
    by (simp add: rows_with_def put_job_def)
qed

lemma rows_set_job:
  assumes "schema_ok (pg_db p)" and "\<And>j. job_ID (f j) = job_ID j"
  shows "rows_with (set_job p k w f) st = rows_with (pg_db p) st +
    (case job_of (pg_db p) k of Some j \<Rightarrow> if w j then of_bool (job_Status (f j) = st) - of_bool (job_Status j = st) else 0 | None \<Rightarrow> 0)"
proof (cases "job_of (pg_db p) k")
  case (Some j)
  have "job_of (pg_db p) (job_ID (set_updated_at (pg_now p) (f j))) = Some j"
    using Some assms(2) job_of_ID [OF Some] by (simp add: set_updated_at_def)
  from rows_put_job [OF assms(1) this, of st] Some show ?thesis
    by (simp add: set_job_def set_updated_at_def)
qed (simp add: set_job_def)

subsection \<open>The calls of one pass\<close>

lemma claim_rows:
  assumes "schema_ok (pg_db p)" and "ClaimJob p k = (p', r)" and "terminal st"
  shows "rows_with (pg_db p') st = rows_with (pg_db p) st"
  using ClaimJob_db [OF assms(1), of k] assms(2,3) rows_set_job [OF assms(1), of "claimed (pg_now p)" k "\<lambda>j. job_Status j = StatusPending" st]
  by (auto simp: terminal_def split: option.splits)

lemma complete_rows:
  assumes "schema_ok (pg_db p)" and "job_of (pg_db p) k = Some j" and "job_Status j = StatusProcessing" and "terminal st"
    and "MarkCompleted p k res = (p', r)"
  shows "r = Inr u \<Longrightarrow> rows_with (pg_db p') st = rows_with (pg_db p) st + of_bool (st = StatusCompleted)"
    and "rows_with (pg_db p) st \<le> rows_with (pg_db p') st"
    and "healthy p \<Longrightarrow> r = Inl e \<Longrightarrow> pg_db p' = pg_db p"
proof -
  have c: "rows_with (set_job p k (\<lambda>_. True) (completed x (pg_now p))) st = rows_with (pg_db p) st + of_bool (st = StatusCompleted)" for x
    using rows_set_job [OF assms(1), of "completed x (pg_now p)" k "\<lambda>_. True" st] assms(2-4) by (auto simp: terminal_def)
  show "r = Inr u \<Longrightarrow> rows_with (pg_db p') st = rows_with (pg_db p) st + of_bool (st = StatusCompleted)"
    using MarkCompleted_ok [OF assms(1), of k res p' u] assms(5) c by auto
  show "rows_with (pg_db p) st \<le> rows_with (pg_db p') st"
    using MarkCompleted_db [OF assms(1), of k res] assms(5) c by auto
  show "healthy p \<Longrightarrow> r = Inl e \<Longrightarrow> pg_db p' = pg_db p"
    using assms(1,5) by (auto simp: MarkCompleted_def exec_healthy complete_stmt_eq split: option.splits)
qed

lemma dead_rows:
  assumes "schema_ok (pg_db p)" and "job_of (pg_db p) k = Some j" and "job_Status j = StatusProcessing" and "terminal st"
    and "DeadLetter p k n m = (p', r)"
  shows "r = Inr u \<Longrightarrow> rows_with (pg_db p') st = rows_with (pg_db p) st + of_bool (st = StatusFailed)"
    and "rows_with (pg_db p) st \<le> rows_with (pg_db p') st"
    and "healthy p \<Longrightarrow> r = Inl e \<Longrightarrow> pg_db p' = pg_db p"
proof -
  let ?j = "set_updated_at (pg_now p) (failed n m (pg_now p) j)"
  have "job_of (pg_db p) (job_ID ?j) = Some j" using assms(2) job_of_ID [OF assms(2)] by simp
  from rows_put_job [OF assms(1) this, of st] assms(2-4)
  have c: "rows_with (dead_db p k n m) st = rows_with (pg_db p) st + of_bool (st = StatusFailed)"
    by (auto simp: dead_db_def rows_with_def terminal_def set_updated_at_def)
  show "r = Inr u \<Longrightarrow> rows_with (pg_db p') st = rows_with (pg_db p) st + of_bool (st = StatusFailed)"
    using DeadLetter_ok [OF assms(1), of k n m p' u] assms(5) c by auto
  show "rows_with (pg_db p) st \<le> rows_with (pg_db p') st"
    using DeadLetter_db [OF assms(1), of k n m] assms(5) c by auto
  show "healthy p \<Longrightarrow> r = Inl e \<Longrightarrow> pg_db p' = pg_db p"
    using DeadLetter_db [OF assms(1), of k n m] DeadLetter_healthy [OF assms(1), of n m k] assms(5)
    by (auto simp: DeadLetter_def healthy_simps split: prod.splits sum.splits)
qed

lemma retry_rows:
  assumes "schema_ok (pg_db p)" and "job_of (pg_db p) k = Some j" and "job_Status j = StatusProcessing" and "terminal st"
    and "MarkForRetry p k n m = (p', r)"
  shows "rows_with (pg_db p') st = rows_with (pg_db p) st"
  using MarkForRetry_db [OF assms(1), of k n m] assms rows_set_job [OF assms(1), of "retried n m" k "\<lambda>_. True" st]
  by (auto simp: terminal_def)

subsection \<open>Passes\<close>

lemma counted_simps [simp]:
  "counted (ObserveLatency jt d m) st = counted m st"
  "counted (IncProcessed st' m) st = counted m st + of_bool (st = st')"
  by (auto simp: counted_def ObserveLatency_def IncProcessed_def split: option.split)

lemma calls_healthy:
  assumes "healthy p"
  shows "ClaimJob p k = (p', a) \<Longrightarrow> healthy p'" "MarkCompleted p k res = (p', u) \<Longrightarrow> healthy p'"
    "MarkForRetry p k n m = (p', u) \<Longrightarrow> healthy p'" "DeadLetter p k n m = (p', u) \<Longrightarrow> healthy p'"
  using assms
  by (auto simp: ClaimJob_def MarkCompleted_def MarkForRetry_def DeadLetter_def healthy_simps
      split: prod.splits sum.splits option.splits)

text \<open>What a stretch of work does to the books.\<close>

definition tallies :: "'r wstate \<Rightarrow> 'r wstate \<Rightarrow> bool" where
  "tallies s s' \<longleftrightarrow> schema_ok (pg_db (ws_pg s')) \<and> (\<forall>st. terminal st \<longrightarrow> uncounted s st \<le> uncounted s' st) \<and>
     (healthy (ws_pg s) \<longrightarrow> healthy (ws_pg s') \<and> (\<forall>st. terminal st \<longrightarrow> uncounted s' st = uncounted s st))"

lemma tallies_trans: "tallies s s1 \<Longrightarrow> tallies s1 s2 \<Longrightarrow> tallies s s2"
  by (force simp: tallies_def)

lemma tallies_conn [simp]:
  "tallies s (s'\<lparr>ws_conn := c\<rparr>) = tallies s s'" "tallies (s\<lparr>ws_conn := c\<rparr>) s' = tallies s s'"
  by (simp_all add: tallies_def uncounted_def)

lemma handleFailure_tallies:
  assumes "schema_ok (pg_db (ws_pg s))" and "job_of (pg_db (ws_pg s)) (job_ID job) = Some job" and "job_Status job = StatusProcessing"
    and "handleFailure E i s job e = (s', r)"
  shows "tallies s s'"
proof (cases "wrap64 (job_RetryCount job + 1) \<ge> job_MaxRetries job")
  case True
  let ?n = "wrap64 (job_RetryCount job + 1)"
  obtain p x where d: "DeadLetter (ws_pg s) (job_ID job) ?n (we_Error E e) = (p, x)" by force
  note rows = dead_rows [OF assms(1-3) _ d] and sch = DeadLetter_schema [OF assms(1), of "job_ID job" ?n "we_Error E e", unfolded d]
  from True assms(4) d rows sch calls_healthy(4) [OF _ d] show ?thesis
    by (cases x) (auto simp: handleFailure_def tallies_def uncounted_def Let_def)
next
  case False
  let ?n = "wrap64 (job_RetryCount job + 1)"
  obtain p x where d: "MarkForRetry (ws_pg s) (job_ID job) ?n (we_Error E e) = (p, x)" by force
  note rows = retry_rows [OF assms(1-3) _ d] and sch = MarkForRetry_schema [OF assms(1), of "job_ID job" ?n "we_Error E e", unfolded d]
  from False assms(1,4) d rows sch calls_healthy(3) [OF _ d] show ?thesis
    by (auto simp: handleFailure_def tallies_def uncounted_def Let_def split: option.splits sum.splits prod.splits)
qed

lemma process_tallies:
  assumes "schema_ok (pg_db (ws_pg s))" and "process E i s jobID = (s', r)"
  shows "tallies s s'"
proof (cases "uuid_Parse (we_U E) jobID")
  case None
  with assms show ?thesis by (simp add: process_def tallies_def)
next
  case (Some k)
  obtain p a where c: "ClaimJob (ws_pg s) k = (p, a)" by force
  have sch: "schema_ok (pg_db p)" using ClaimJob_schema [OF assms(1), of k] c by simp
  note rows = claim_rows [OF assms(1) c] and net = calls_healthy(1) [OF _ c]
  show ?thesis
  proof (cases a)
    case (Inl e)
    with assms(2) Some c sch rows net show ?thesis
      by (auto simp: process_def tallies_def uncounted_def split: if_splits)
  next
    case (Inr job)
    let ?s1 = "s\<lparr>ws_pg := p, ws_metrics := ObserveLatency (job_JobType job) (wi_elapsed i) (ws_metrics s)\<rparr>"
    have one: "tallies s ?s1" using sch rows net by (auto simp: tallies_def uncounted_def)
    from ClaimJob_ok [OF assms(1), of k p job] c Inr have
      "set_row (ws_pg s) k (\<lambda>j. job_Status j = StatusPending) (claimed (pg_now (ws_pg s))) = Some job"
      "pg_db p = set_job (ws_pg s) k (\<lambda>j. job_Status j = StatusPending) (claimed (pg_now (ws_pg s)))" by auto
    then have job: "job_of (pg_db p) k = Some job" "job_Status job = StatusProcessing" "job_ID job = k"
      by (auto simp: set_row_def job_of_set_job dest: job_of_ID split: option.splits if_splits)
    show ?thesis
    proof (cases "Dispatch (we_f64 E) (wi_henv i) (we_registry E) (job_JobType job) (job_Payload job)")
      case (Inl e)
      with assms(2) Some c Inr have "handleFailure E i ?s1 job e = (s', r)" by (simp add: process_def)
      from handleFailure_tallies [OF _ _ job(2) this] sch job one show ?thesis by (auto intro: tallies_trans)
    next
      case D: (Inr result)
      obtain q x where m: "MarkCompleted p k result = (q, x)" by force
      note rows2 = complete_rows [OF sch job(1,2) _ m] and ok = MarkCompleted_schema [OF sch, of k result, unfolded m]
      have "tallies ?s1 s'"
        using assms(2) Some c Inr D m rows2 ok calls_healthy(2) [OF _ m]
        by (cases x) (auto simp: process_def tallies_def uncounted_def)
      with one show ?thesis by (rule tallies_trans)
    qed
  qed
qed

lemma consume_tallies:
  "schema_ok (pg_db (ws_pg s)) \<Longrightarrow> tallies s (consume E queues is s)"
proof (induction E queues "is" s rule: consume.induct)
  case (1 E queues s)
  then show ?case by (simp add: tallies_def)
next
  case (2 E queues i "is" s)
  obtain c d where d: "Dequeue (we_R E) (ws_conn s) queues = (c, d)" by force
  let ?s = "s\<lparr>ws_conn := c\<rparr>"
  have start: "tallies s ?s" using "2.prems" by (simp add: tallies_def uncounted_def)
  show ?case
  proof (cases d)
    case (Inl e)
    with "2.IH"(1) [of c d] d "2.prems" start show ?thesis by (auto intro: tallies_trans)
  next
    case (Inr x)
    obtain jobID q where x: "x = (jobID, q)" by force
    obtain s1 r where p: "process E i ?s jobID = (s1, r)" by force
    have one: "tallies s s1" using process_tallies [OF _ p] "2.prems" start by (auto intro: tallies_trans)
    then have "schema_ok (pg_db (ws_pg s1))" by (simp add: tallies_def)
    with "2.IH"(2-) d Inr x p one show ?thesis by (cases r) (auto split: process_err.splits intro: tallies_trans)
  qed
qed

end
