(* ===== verification/Deployment.thy ===== *)
theory Deployment
  imports ApiPaths Tally
begin

section \<open>A deployment is a run of the system\<close>

text \<open>
  The processes of a deployment as the code drives them: passes of the worker's loops, beats of its heartbeat,
  passes of the scheduler, and whatever the API process is asked (requests to any route, preflights, misses and
  scrapes), in any order and on any network. Each is the definition of its component, not a step of \<open>System\<close>;
  this theory shows that together they never leave the paths of the step relation, so that every invariant
  proved of the steps holds of them, and that the account tables stay consistent under all of them.
\<close>

subsection \<open>The worker process\<close>

text \<open>One turn of one of the worker's goroutines; between turns clocks and networks change.\<close>

datatype turn =
    Consume_turn winput
  | Poll_turn time bool
  | Beat_turn "time \<times> fault list"
  | Stop_turn "time \<times> fault list"                     \<comment> \<open>\<open>heartbeat\<close> after the end of the context\<close>
  | Between time "fault list" time "fault list"

fun worker_turn :: "'r wenv \<Rightarrow> string list \<Rightarrow> string \<Rightarrow> turn \<Rightarrow> 'r wstate \<Rightarrow> 'r wstate" where
  "worker_turn E queues workerID (Consume_turn i) t = consume E queues [i] t"
| "worker_turn E queues workerID (Poll_turn now ended) t = t\<lparr>ws_conn := poll (we_R E) queues [(now, ended)] (ws_conn t)\<rparr>"
| "worker_turn E queues workerID (Beat_turn b) t = t\<lparr>ws_conn := beat (we_R E) workerID b (ws_conn t)\<rparr>"
| "worker_turn E queues workerID (Stop_turn b) t =
     t\<lparr>ws_conn := fst (RemoveWorker (we_R E) ((ws_conn t)\<lparr>r_now := fst b, r_net := snd b\<rparr>) workerID)\<rparr>"
| "worker_turn E queues workerID (Between now fs rnow rfs) t =
     t\<lparr>ws_pg := (ws_pg t)\<lparr>pg_now := now, pg_net := fs\<rparr>, ws_conn := (ws_conn t)\<lparr>r_now := rnow, r_net := rfs\<rparr>\<rparr>"

fun worker_turns :: "'r wenv \<Rightarrow> string list \<Rightarrow> string \<Rightarrow> turn list \<Rightarrow> 'r wstate \<Rightarrow> 'r wstate" where
  "worker_turns E queues workerID [] t = t"
| "worker_turns E queues workerID (u # us) t = worker_turns E queues workerID us (worker_turn E queues workerID u t)"

text \<open>
  \<open>main\<close>: connect or give up, wire the registry (a duplicate name would panic), draw a worker id and fresh
  metrics, then run the goroutines; \<open>turns\<close> is one way they interleave, each making its turns in its own order.
\<close>

datatype worker_exit = Worker_failed startup_err | Worker_panicked

definition worker_main ::
  "(string \<Rightarrow> bool) \<Rightarrow> config \<Rightarrow> 'r wenv \<Rightarrow> uuid \<Rightarrow> turn list \<Rightarrow> pg \<Rightarrow> 'r rconn \<Rightarrow> pg \<times> 'r rconn \<times> (worker_exit + wmetrics)" where
  "worker_main url_ok cfg E fresh turns p c =
     (case start_services url_ok cfg p c of
        (p', c', Inl e) \<Rightarrow> (p', c', Inl (Worker_failed e))
      | (p', c', Inr _) \<Rightarrow>
          (case DefaultRegistry of
             None \<Rightarrow> (p', c', Inl Worker_panicked)
           | Some registry \<Rightarrow>
               (let workerID = uuid_String (we_U E) fresh;
                    t = worker_turns (E\<lparr>we_registry := registry\<rparr>) (cfg_Queues cfg) workerID turns
                          \<lparr>ws_pg = p', ws_conn = c', ws_metrics = NewWorker\<rparr>
                in (ws_pg t, ws_conn t, Inr (ws_metrics t)))))"

subsection \<open>Everything at once\<close>

datatype act =
    Worker_act string turn
  | Scheduler_act "nat \<Rightarrow> bool" "nat \<Rightarrow> uuid" time
  | Api_act mux_request
  | Conditions time "fault list" time "fault list"   \<comment> \<open>clocks and networks before the next act\<close>

fun perform :: "'r wenv \<Rightarrow> cron_pkg \<Rightarrow> config \<Rightarrow> 'r api \<Rightarrow> act \<Rightarrow> 'r wstate \<Rightarrow> 'r wstate" where
  "perform E cron cfg A (Worker_act workerID u) t = worker_turn E (cfg_Queues cfg) workerID u t"
| "perform E cron cfg A (Scheduler_act ended fresh now) t =
     (case handleSchedules (we_R E) (we_U E) cron ended fresh now (ws_pg t) (ws_conn t) of
        (p, c, _) \<Rightarrow> t\<lparr>ws_pg := p, ws_conn := c\<rparr>)"
| "perform E cron cfg A (Api_act m) t =
     (case serve_mux cfg A m (ws_pg t) (ws_conn t) of (p, c, _) \<Rightarrow> t\<lparr>ws_pg := p, ws_conn := c\<rparr>)"
| "perform E cron cfg A (Conditions now fs rnow rfs) t =
     t\<lparr>ws_pg := (ws_pg t)\<lparr>pg_now := now, pg_net := fs\<rparr>, ws_conn := (ws_conn t)\<lparr>r_now := rnow, r_net := rfs\<rparr>\<rparr>"

fun perform_all :: "'r wenv \<Rightarrow> cron_pkg \<Rightarrow> config \<Rightarrow> 'r api \<Rightarrow> act list \<Rightarrow> 'r wstate \<Rightarrow> 'r wstate" where
  "perform_all E cron cfg A [] t = t"
| "perform_all E cron cfg A (a # as) t = perform_all E cron cfg A as (perform E cron cfg A a t)"

subsection \<open>Each act is a path\<close>

text \<open>The system with the services a process left behind.\<close>

abbreviation seen_by :: "'r wstate \<Rightarrow> 'r sys \<Rightarrow> 'r sys" where
  "seen_by t s \<equiv> put_services (ws_pg t) (ws_conn t) s"

abbreviation agrees :: "'r wstate \<Rightarrow> 'r sys \<Rightarrow> bool" where
  "agrees t s \<equiv> ws_pg t = sys_pg s \<and> ws_conn t = sys_conn s"

lemma conditions_path:
  "agrees t s \<Longrightarrow> steps E cron s (seen_by (t\<lparr>ws_pg := (ws_pg t)\<lparr>pg_now := now, pg_net := fs\<rparr>, ws_conn := (ws_conn t)\<lparr>r_now := rnow, r_net := rfs\<rparr>\<rparr>) s)"
  using step.weather [of E cron s rfs rnow fs now] by (simp add: put_services_def r_into_rtranclp)

lemma worker_turn_path:
  assumes "redis_server (we_R E)" and "queues \<noteq> []" and "inv E s" and "sys_pc s w = Idle" and "agrees t s"
  shows "steps E cron s (seen_by (worker_turn E queues workerID u t) s)"
proof (cases u)
  case (Consume_turn i)
  with consume_path [OF assms(1-4), of t _ "[i]"] assms(5) show ?thesis by simp
next
  case (Poll_turn now ended)
  obtain c' go where "poll_queues (we_R E) ended now queues (sys_conn s) = (c', go)" by force
  with poll_queues_path [OF this] Poll_turn assms(5) show ?thesis by (auto split: bool.splits)
next
  case (Beat_turn b)
  with beat_path(1) [of E cron s workerID b] assms(5) show ?thesis by simp
next
  case (Stop_turn b)
  with beat_path(2) [of E cron s b workerID] assms(5) show ?thesis by simp
next
  case (Between now fs rnow rfs)
  with conditions_path [OF assms(5), of E cron rfs rnow fs now] show ?thesis by simp
qed

lemma perform_path:
  assumes "redis_server (we_R E)" and "cfg_Queues cfg \<noteq> []" and "inv E s" and "sys_pc s w = Idle" and "agrees t s"
    and "api_R A = we_R E" and "api_U A = we_U E"
  shows "steps E cron s (seen_by (perform E cron cfg A a t) s)"
proof (cases a)
  case (Worker_act workerID u)
  with worker_turn_path [OF assms(1-5)] show ?thesis by simp
next
  case (Scheduler_act ended fresh now)
  obtain p' c' outs where h: "handleSchedules (we_R E) (we_U E) cron ended fresh now (sys_pg s) (sys_conn s) = (p', c', outs)"
    by (metis prod.collapse)
  with schedule_path [OF assms(4) h] Scheduler_act assms(5) show ?thesis by simp
next
  case (Api_act m)
  obtain p' c' ans where h: "serve_mux cfg A m (sys_pg s) (sys_conn s) = (p', c', ans)"
    by (metis prod.collapse)
  with mux_path [OF assms(6,7,4) h] Api_act assms(5) show ?thesis by simp
next
  case (Conditions now fs rnow rfs)
  with conditions_path [OF assms(5), of E cron rfs rnow fs now] show ?thesis by simp
qed

text \<open>A sequence of acts, each a path from any state that satisfies the invariant, is a path.\<close>

lemma path_fold:
  assumes "redis_server (we_R E)"
    and one: "\<And>a s t. inv E s \<Longrightarrow> sys_pc s w = Idle \<Longrightarrow> agrees t s \<Longrightarrow> steps E cron s (seen_by (f a t) s)"
  shows "inv E s \<Longrightarrow> sys_pc s w = Idle \<Longrightarrow> agrees t s \<Longrightarrow> steps E cron s (seen_by (fold f as t) s)"
proof (induction as arbitrary: s t)
  case (Cons a as)
  let ?s = "seen_by (f a t) s"
  note a = one [OF Cons.prems]
  have "inv E ?s" by (rule steps_inv [OF assms(1) a Cons.prems(1)])
  from Cons.IH [OF this, of "f a t"] Cons.prems(2) show ?case by (intro idle_trans [OF a]) simp
qed simp

lemma worker_turns_fold: "worker_turns E queues workerID us t = fold (worker_turn E queues workerID) us t"
  by (induction us arbitrary: t) simp_all

lemma perform_all_fold: "perform_all E cron cfg A as t = fold (perform E cron cfg A) as t"
  by (induction as arbitrary: t) simp_all

lemma Load_queues: "cfg_Queues (Load env) \<noteq> []"
  by (simp add: Load_def getenvList_nonempty)

subsection \<open>Each process is a path\<close>

lemma worker_main_path:
  assumes "redis_server (we_R E)" and "inv E s" and "sys_pc s w = Idle" and "DefaultRegistry = Some (we_registry E)"
    and "worker_main url_ok (Load env) E fresh turns (sys_pg s) (sys_conn s) = (p', c', res)"
  shows "steps E cron s (put_services p' c' s)"
proof -
  obtain p1 c1 x where x: "start_services url_ok (Load env) (sys_pg s) (sys_conn s) = (p1, c1, x)" by (metis prod.collapse)
  note one = start_path [OF x, of E cron]
  show ?thesis
  proof (cases x)
    case (Inl e)
    with assms(5) x one show ?thesis by (simp add: worker_main_def)
  next
    case (Inr u)
    let ?s = "put_services p1 c1 s" and ?t = "\<lparr>ws_pg = p1, ws_conn = c1, ws_metrics = NewWorker\<rparr>"
    let ?t' = "worker_turns E (cfg_Queues (Load env)) (uuid_String (we_U E) fresh) turns ?t"
    have "inv E ?s" by (rule steps_inv [OF assms(1) one assms(2)])
    then have "steps E cron ?s (seen_by ?t' ?s)"
      unfolding worker_turns_fold using assms(3)
      by (intro path_fold [OF assms(1), where w = w] worker_turn_path [OF assms(1) Load_queues]) simp_all
    moreover have "E\<lparr>we_registry := we_registry E\<rparr> = E" by simp
    then have "p' = ws_pg ?t'" "c' = ws_conn ?t'"
      using assms(5) unfolding worker_main_def x Inr assms(4) by (simp_all add: Let_def)
    ultimately show ?thesis by (intro idle_trans [OF one]) simp
  qed
qed

lemma scheduler_ticks_path:
  "sys_pc s w = Idle \<Longrightarrow> scheduler_ticks (we_R E) (we_U E) cron ticks (sys_pg s) (sys_conn s) = (p', c') \<Longrightarrow>
   steps E cron s (put_services p' c' s)"
proof (induction ticks arbitrary: s)
  case (Cons tick ticks)
  obtain ended fresh now where tick: "tick = (ended, fresh, now)" by (metis prod.collapse)
  obtain p1 c1 outs where h: "handleSchedules (we_R E) (we_U E) cron ended fresh now (sys_pg s) (sys_conn s) = (p1, c1, outs)"
    by (metis prod.collapse)
  from Cons.IH [of "put_services p1 c1 s"] Cons.prems tick h show ?case
    by (intro idle_trans [OF schedule_path [OF Cons.prems(1) h]]) simp
qed auto

lemma scheduler_main_path:
  assumes "sys_pc s w = Idle"
    and "scheduler_main url_ok cfg (we_R E) (we_U E) cron first ticks (sys_pg s) (sys_conn s) = (p', c', res)"
  shows "steps E cron s (put_services p' c' s)"
proof -
  obtain p1 c1 x where x: "start_services url_ok cfg (sys_pg s) (sys_conn s) = (p1, c1, x)" by (metis prod.collapse)
  note one = start_path [OF x, of E cron]
  show ?thesis
  proof (cases x)
    case (Inr u)
    with assms(2) x have "scheduler_ticks (we_R E) (we_U E) cron (first # ticks) p1 c1 = (p', c')"
      by (simp add: scheduler_main_def split: prod.splits)
    with scheduler_ticks_path [of "put_services p1 c1 s" w E cron "first # ticks"] assms(1) show ?thesis
      by (intro idle_trans [OF one]) simp
  qed (use assms(2) x one in \<open>simp add: scheduler_main_def\<close>)
qed

lemma serve_requests_path:
  assumes "api_R A = we_R E" and "api_U A = we_U E"
  shows "sys_pc s w = Idle \<Longrightarrow> serve_requests cfg A ms (sys_pg s) (sys_conn s) = (p', c', answers) \<Longrightarrow>
    steps E cron s (put_services p' c' s)"
proof (induction ms arbitrary: s answers)
  case (Cons m ms)
  obtain p1 c1 ans where m: "serve_mux cfg A m (sys_pg s) (sys_conn s) = (p1, c1, ans)" by (metis prod.collapse)
  from Cons.IH [of "put_services p1 c1 s"] Cons.prems m show ?case
    by (intro idle_trans [OF mux_path [OF assms Cons.prems(1) m]]) (auto split: prod.splits)
qed auto

lemma mounted_packages [simp]: "api_R (mounted cfg R U B dummy lower G) = R" "api_U (mounted cfg R U B dummy lower G) = U"
  by (simp_all add: mounted_def New_def Let_def)

lemma runServer_path:
  assumes "sys_pc s w = Idle"
    and "runServer url_ok cfg (we_R E) (we_U E) B dummy lower G ms fin (sys_pg s) (sys_conn s) = (p', c', res)"
  shows "steps E cron s (put_services p' c' s)"
proof -
  let ?A = "mounted cfg (we_R E) (we_U E) B dummy lower G"
  obtain p1 c1 x where x: "start_services url_ok cfg (sys_pg s) (sys_conn s) = (p1, c1, x)" by (metis prod.collapse)
  note one = start_path [OF x, of E cron]
  show ?thesis
  proof (cases x)
    case (Inr u)
    with assms(2) x obtain answers where "serve_requests cfg ?A ms p1 c1 = (p', c', answers)"
      by (auto simp: runServer_def split: prod.splits)
    with serve_requests_path [of ?A E "put_services p1 c1 s" w cfg ms] assms(1) show ?thesis
      by (intro idle_trans [OF one]) simp
  qed (use assms(2) x one in \<open>simp add: runServer_def\<close>)
qed

text \<open>A process that cannot reach a service when it starts touches neither.\<close>

lemma read_same: "pg_read p p' \<Longrightarrow> pg_db p' = pg_db p" "redis_read c c' \<Longrightarrow> r_srv c' = r_srv c"
  unfolding pg_read_def redis_read_def by (drule arg_cong [of _ _ pg_db], simp, drule arg_cong [of _ _ r_srv], simp)

lemma start_services_read:
  "start_services url_ok cfg p c = (p', c', res) \<Longrightarrow> pg_read p p' \<and> redis_read c c'"
  by (auto simp: start_services_def Store_New_def split: prod.splits sum.splits if_splits
      dest!: stats_reads(5) length_reads(3))

subsection \<open>The counters of a worker process\<close>

text \<open>A turn during which the database can be reached.\<close>

fun calm :: "turn \<Rightarrow> bool" where
  "calm (Between now fs rnow rfs) = (fs = [])"
| "calm _ = True"

lemma counters_turn:
  assumes "schema_ok (pg_db (ws_pg t))" and "t' = worker_turn E queues workerID u t" and "terminal st"
  shows "schema_ok (pg_db (ws_pg t')) \<and> uncounted t st \<le> uncounted t' st \<and>
    (calm u \<longrightarrow> healthy (ws_pg t) \<longrightarrow> healthy (ws_pg t') \<and> uncounted t' st = uncounted t st)"
proof (cases u)
  case (Consume_turn i)
  with consume_tallies [OF assms(1), of E queues "[i]"] assms(2,3) show ?thesis
    by (simp add: tallies_def del: consume.simps)
qed (use assms in \<open>simp_all add: uncounted_def\<close>)

lemma counters_turns:
  "schema_ok (pg_db (ws_pg t)) \<Longrightarrow> terminal st \<Longrightarrow> t' = worker_turns E queues workerID us t \<Longrightarrow>
   uncounted t st \<le> uncounted t' st \<and> (list_all calm us \<longrightarrow> healthy (ws_pg t) \<longrightarrow> uncounted t' st = uncounted t st)"
proof (induction us arbitrary: t)
  case (Cons u us)
  from counters_turn [OF Cons.prems(1) refl Cons.prems(2), of E queues workerID u]
    Cons.IH [of "worker_turn E queues workerID u t"] Cons.prems show ?case by auto
qed simp

lemma Ping_healthy: "healthy p \<Longrightarrow> Store_Ping p = (p, Inr ())" "r_net c = [] \<Longrightarrow> Queue_Ping c = (c, Inr ())"
  by (simp_all add: Store_Ping_def exec_healthy Queue_Ping_def redis_do_healthy)

subsection \<open>The accounts stay consistent\<close>

lemma job_calls_accounts:
  assumes "schema_ok (pg_db p)"
  shows "accounts (pg_db (fst (ClaimJob p k))) = accounts (pg_db p)"
    and "accounts (pg_db (fst (MarkCompleted p k res))) = accounts (pg_db p)"
    and "accounts (pg_db (fst (MarkForRetry p k n m))) = accounts (pg_db p)"
    and "accounts (pg_db (fst (DeadLetter p k n m))) = accounts (pg_db p)"
    and "accounts (pg_db (fst (CreateJob p job))) = accounts (pg_db p)"
    and "accounts (pg_db (fst (RetryJob p t k))) = accounts (pg_db p)"
    and "accounts (pg_db (fst (CancelJob p t k))) = accounts (pg_db p)"
    and "accounts (pg_db (fst (ClaimScheduleRun p k e now nxt))) = accounts (pg_db p)"
proof -
  have dead: "accounts (dead_db p k n m) = accounts (pg_db p)"
    by (simp add: dead_db_def split: option.split)
  show "accounts (pg_db (fst (ClaimJob p k))) = accounts (pg_db p)" using ClaimJob_db [OF assms, of k] by auto
  show "accounts (pg_db (fst (MarkCompleted p k res))) = accounts (pg_db p)" using MarkCompleted_db [OF assms, of k res] by auto
  show "accounts (pg_db (fst (MarkForRetry p k n m))) = accounts (pg_db p)" using MarkForRetry_db [OF assms, of k n m] by auto
  show "accounts (pg_db (fst (DeadLetter p k n m))) = accounts (pg_db p)" using DeadLetter_db [OF assms, of k n m] dead by auto
  show "accounts (pg_db (fst (CreateJob p job))) = accounts (pg_db p)" using CreateJob_db [of p job] by auto
  show "accounts (pg_db (fst (RetryJob p t k))) = accounts (pg_db p)" using RetryJob_db [OF assms, of t k] by auto
  show "accounts (pg_db (fst (CancelJob p t k))) = accounts (pg_db p)" using CancelJob_db [OF assms, of t k] by auto
  show "accounts (pg_db (fst (ClaimScheduleRun p k e now nxt))) = accounts (pg_db p)"
    by (simp add: ClaimScheduleRun_result [OF assms] accounts_def advance_def split: prod.split)
qed

lemma job_calls_texts:
  "ClaimJob p k = (p', a) \<Longrightarrow> same_texts p' p" "MarkCompleted p k res = (p', u) \<Longrightarrow> same_texts p' p"
  "MarkForRetry p k n m = (p', u) \<Longrightarrow> same_texts p' p" "DeadLetter p k n m = (p', u) \<Longrightarrow> same_texts p' p"
  "CreateJob p job = (p', row) \<Longrightarrow> same_texts p' p" "ClaimScheduleRun p k e now nxt = (p', won) \<Longrightarrow> same_texts p' p"
  by (auto simp: ClaimJob_def MarkCompleted_def MarkForRetry_def DeadLetter_def CreateJob_def ClaimScheduleRun_def
      split: prod.splits sum.splits option.splits dest!: same_texts_calls intro: same_texts_trans)

lemma account_write_texts: "same_texts (account_write a p) p"
proof (cases a)
  case (Create_account gt gu email h)
  then show ?thesis
    by (auto simp: CreateAccount_def split: prod.splits sum.splits dest!: same_texts_calls intro: same_texts_trans)
qed (auto simp: fst_account_calls intro: same_texts_exec [OF prod.collapse [symmetric]])

text \<open>The account tables, under the collation the server has.\<close>

abbreviation accounts_good :: "'r sys \<Rightarrow> bool" where
  "accounts_good s \<equiv> accounts_ok (pg_lower (sys_pg s)) (pg_db (sys_pg s))"

lemma accounts_good_job:
  assumes "accounts_good s" and "accounts (pg_db p) = accounts (pg_db (sys_pg s))" and "same_texts p (sys_pg s)"
  shows "accounts_ok (pg_lower p) (pg_db p)"
  using assms by (simp add: accounts_ok_def accounts_def same_texts_def)

lemma pg_step_accounts:
  assumes "schema_ok (pg_db (sys_pg s))" and "pg_step E cron s s'" and "accounts_good s"
  shows "accounts_good s'"
proof -
  note frame = job_calls_accounts [OF assms(1)] and texts = job_calls_texts same_texts_store(1) [of Op_cancel] same_texts_store(1) [of Op_retry]
  note good = accounts_good_job [OF assms(3)]
  from assms(2) show ?thesis
  proof cases
    case (claim w x k p r)
    with good [of p] frame(1) [of k] texts(1) show ?thesis by simp
  next
    case (complete w job henv result p r)
    with good [of p] frame(2) [of "job_ID job" result] texts(2) show ?thesis by simp
  next
    case (give_up w job henv e n p r)
    with good [of p] frame(4) [of "job_ID job" n "we_Error E e"] texts(4) show ?thesis by simp
  next
    case (try_again w job henv e n b p r now)
    with good [of p] frame(3) [of "job_ID job" n "we_Error E e"] texts(3) show ?thesis by simp
  next
    case (persist w job fresh p r)
    with good [of p] frame(5) [of "applyDefaults fresh job"] texts(5) show ?thesis by simp
  next
    case (retry w t k p r)
    with good [of p] frame(6) [of t k] texts(8) [of "sys_pg s" t k p] show ?thesis by simp
  next
    case (cancel w t k p r)
    with good [of p] frame(7) [of t k] texts(7) [of "sys_pg s" t k p] show ?thesis by simp
  next
    case (win w sc nxt now p r)
    with good [of p] frame(8) [of "sched_ID sc" "sched_NextRunAt sc" now "nxt now"] texts(6) show ?thesis by simp
  next
    case (account w a p)
    with account_write_keeps(2) [OF assms(3), of a] account_write_texts [of a "sys_pg s"] show ?thesis by (simp add: same_texts_def)
  next
    case (fire w sc fresh p r)
    with good [of p] frame(5) [of "applyDefaults fresh (scheduled_job sc)"] texts(5) show ?thesis by simp
  qed
qed

lemma step_accounts:
  assumes "inv E s" and "step E cron s s'" and "accounts_good s"
  shows "accounts_good s'"
  using assms(2)
proof cases
  case database
  with pg_step_accounts [OF rows_okD(1) [OF invD(1) [OF assms(1)]]] assms(3) show ?thesis by blast
next
  case queue
  with redis_step_db assms(3) show ?thesis by metis
qed (use assms(3) in simp_all)

lemma steps_accounts:
  assumes "redis_server (we_R E)" and "steps E cron s s'" and "inv E s" and "accounts_good s"
  shows "accounts_good s'"
  using assms(2)
proof (induction rule: rtranclp_induct)
  case (step t u)
  from step_accounts [OF steps_inv [OF assms(1) step(1) assms(3)] step(2,3)] show ?case .
qed (rule assms(4))

end
