(* ===== verification/Wire.thy ===== *)
theory Wire
  imports Server
begin

section \<open>What a client sees\<close>

text \<open>
  The JSON documents of the answers: the \<open>json\<close> tags of \<^verbatim>\<open>src/internal/models\<close> and of the response types of
  \<^verbatim>\<open>src/internal/handlers\<close>, as \<open>encoding/json\<close> applies them. A field tagged \<open>-\<close> is left out, one tagged
  \<open>omitempty\<close> is left out when it is nil or empty, the keys of a Go map come in increasing order. How a time, a
  \<open>float64\<close> and the \<open>%q\<close> of \<open>fmt\<close> print are parameters: the first depends on the zone of the process.
\<close>

record printers =
  pr_time :: "time \<Rightarrow> string"
  pr_float :: "rat \<Rightarrow> string"
  pr_quote :: "string \<Rightarrow> string"

definition enc_uuid :: "uuid_pkg \<Rightarrow> uuid \<Rightarrow> json" where
  "enc_uuid U k = JStr (uuid_String U k)"

definition enc_time :: "printers \<Rightarrow> time \<Rightarrow> json" where
  "enc_time F t = JStr (pr_time F t)"

definition enc_int :: "int \<Rightarrow> json" where
  "enc_int n = JNum (Itoa n)"

text \<open>\<open>json.RawMessage\<close> and pointers; \<open>omit\<close> is \<open>omitempty\<close>.\<close>

definition enc_raw :: "raw_message \<Rightarrow> json" where
  "enc_raw m = (case m of None \<Rightarrow> JNull | Some j \<Rightarrow> j)"

definition omit :: "string \<Rightarrow> ('a \<Rightarrow> json) \<Rightarrow> 'a option \<Rightarrow> (string \<times> json) list" where
  "omit k enc x = (case x of None \<Rightarrow> [] | Some v \<Rightarrow> [(k, enc v)])"

subsection \<open>models\<close>

definition job_members :: "printers \<Rightarrow> uuid_pkg \<Rightarrow> job \<Rightarrow> (string \<times> json) list" where
  "job_members F U j =
     [(''id'', enc_uuid U (job_ID j)), (''tenant_id'', enc_uuid U (job_TenantID j)), (''queue_name'', JStr (job_QueueName j)),
      (''job_type'', JStr (job_JobType j)), (''payload'', enc_raw (job_Payload j)), (''status'', JStr (job_Status j))] @
     omit ''result'' id (job_Result j) @ omit ''error_message'' JStr (job_ErrorMessage j) @
     [(''retry_count'', enc_int (job_RetryCount j)), (''max_retries'', enc_int (job_MaxRetries j))] @
     omit ''scheduled_at'' (enc_time F) (job_ScheduledAt j) @ omit ''started_at'' (enc_time F) (job_StartedAt j) @
     omit ''completed_at'' (enc_time F) (job_CompletedAt j) @
     [(''created_at'', enc_time F (job_CreatedAt j)), (''updated_at'', enc_time F (job_UpdatedAt j))]"

definition enc_Job :: "printers \<Rightarrow> uuid_pkg \<Rightarrow> job \<Rightarrow> json" where
  "enc_Job F U j = JObj (job_members F U j)"

definition enc_User :: "printers \<Rightarrow> uuid_pkg \<Rightarrow> user \<Rightarrow> json" where
  "enc_User F U u = JObj [(''id'', enc_uuid U (user_ID u)), (''tenant_id'', enc_uuid U (user_TenantID u)),
     (''email'', JStr (user_Email u)), (''created_at'', enc_time F (user_CreatedAt u))]"

definition enc_Tenant :: "printers \<Rightarrow> uuid_pkg \<Rightarrow> tenant \<Rightarrow> json" where
  "enc_Tenant F U t = JObj [(''id'', enc_uuid U (tenant_ID t)), (''name'', JStr (tenant_Name t)),
     (''created_at'', enc_time F (tenant_CreatedAt t))]"

definition enc_APIKey :: "printers \<Rightarrow> uuid_pkg \<Rightarrow> api_key \<Rightarrow> json" where
  "enc_APIKey F U k = JObj (
     [(''id'', enc_uuid U (key_ID k)), (''tenant_id'', enc_uuid U (key_TenantID k)), (''name'', JStr (key_Name k)),
      (''key_prefix'', JStr (key_KeyPrefix k))] @
     omit ''last_used_at'' (enc_time F) (key_LastUsedAt k) @ [(''created_at'', enc_time F (key_CreatedAt k))])"

subsection \<open>Response types\<close>

definition enc_jobList :: "printers \<Rightarrow> uuid_pkg \<Rightarrow> jobListResponse \<Rightarrow> json" where
  "enc_jobList F U l = JObj [(''jobs'', JArr (map (enc_Job F U) (jl_Jobs l))), (''total'', enc_int (jl_Total l)),
     (''limit'', enc_int (jl_Limit l)), (''offset'', enc_int (jl_Offset l))]"

definition enc_createKey :: "printers \<Rightarrow> uuid_pkg \<Rightarrow> createKeyResponse \<Rightarrow> json" where
  "enc_createKey F U k = JObj [(''id'', enc_uuid U (ckr_ID k)), (''name'', JStr (ckr_Name k)), (''key'', JStr (ckr_Key k)),
     (''key_prefix'', JStr (ckr_KeyPrefix k)), (''created_at'', enc_time F (ckr_CreatedAt k))]"

definition enc_queueDepth :: "queueDepth \<Rightarrow> json" where
  "enc_queueDepth q = JObj [(''queue'', JStr (qd_Queue q)), (''depth'', enc_int (qd_Depth q)), (''delayed'', enc_int (qd_Delayed q))]"

definition enc_stats :: "printers \<Rightarrow> statsResponse \<Rightarrow> json" where
  "enc_stats F s = JObj [(''queues'', JArr (map enc_queueDepth (sr_Queues s))),
     (''processing_rate_per_min'', enc_int (sr_ProcessingRatePerMin s)), (''avg_latency_ms'', JNum (pr_float F (sr_AvgLatencyMs s))),
     (''failure_rate'', JNum (pr_float F (sr_FailureRate s))), (''active_workers'', enc_int (sr_ActiveWorkers s))]"

definition enc_dashboard :: "printers \<Rightarrow> uuid_pkg \<Rightarrow> dashboardResponse \<Rightarrow> json" where
  "enc_dashboard F U d = JObj [
     (''totals_by_status'', JObj (map_of_entries (map (\<lambda>(k, n). (k, enc_int n)) (dr_TotalsByStatus d)) [])),
     (''jobs_today'', enc_int (dr_JobsToday d)), (''recent_jobs'', JArr (map (enc_Job F U) (dr_RecentJobs d)))]"

definition errorResponse :: "string \<Rightarrow> json" where
  "errorResponse msg = JObj [(''error'', JStr msg)]"

text \<open>The texts of \<open>parseListParams\<close>.\<close>

fun strings_Join :: "string list \<Rightarrow> string \<Rightarrow> string" where
  "strings_Join [] sep = []"
| "strings_Join [x] sep = x"
| "strings_Join (x # xs) sep = x @ sep @ strings_Join xs sep"

fun param_message :: "printers \<Rightarrow> param_err \<Rightarrow> string" where
  "param_message F Queue_too_long = ''queue must be at most '' @ Itoa maxQueueNameLen @ '' characters''"
| "param_message F (Invalid_status v allowed) =
     ''invalid status '' @ pr_quote F v @ '' (allowed: '' @ strings_Join allowed '', '' @ '')''"
| "param_message F Limit_not_integer = ''limit must be an integer''"
| "param_message F Limit_out_of_range = ''limit must be between 1 and '' @ Itoa maxListLimit"
| "param_message F Offset_not_integer = ''offset must be an integer''"
| "param_message F Offset_negative = ''offset must be >= 0''"

text \<open>\<open>json.NewEncoder(w).Encode(v)\<close>; \<open>None\<close> is an answer without a body.\<close>

fun encode :: "printers \<Rightarrow> uuid_pkg \<Rightarrow> body \<Rightarrow> json option" where
  "encode F U No_body = None"
| "encode F U (Error_body msg) = Some (errorResponse msg)"
| "encode F U (Param_error_body e) = Some (errorResponse (param_message F e))"
| "encode F U (Job_body j) = Some (enc_Job F U j)"
| "encode F U (Job_list_body l) = Some (enc_jobList F U l)"
| "encode F U (User_body u) = Some (enc_User F U u)"
| "encode F U (Me_body u t) = Some (JObj [(''user'', enc_User F U u), (''tenant'', enc_Tenant F U t)])"
| "encode F U (Key_body k) = Some (enc_createKey F U k)"
| "encode F U (Key_list_body ks) = Some (JObj [(''keys'', JArr (map (enc_APIKey F U) ks))])"
| "encode F U (Stats_body s) = Some (enc_stats F s)"
| "encode F U (Dashboard_body d) = Some (enc_dashboard F U d)"
| "encode F U (Health_body h) = Some (JObj (map_of_entries (map (\<lambda>(k, v). (k, JStr v)) h) []))"

subsection \<open>The documents tell everything but the secrets\<close>

lemma map_of_omit:
  "k \<noteq> k' \<Longrightarrow> map_of (omit k enc x @ l) k' = map_of l k'"
  "map_of l k = None \<Longrightarrow> map_of (omit k enc x @ l) k = map_option enc x"
  by (cases x; simp add: omit_def)+

lemma enc_simps [simp]:
  "enc_int m = enc_int n \<longleftrightarrow> m = n" "inj (pr_time F) \<Longrightarrow> enc_time F s = enc_time F t \<longleftrightarrow> s = t"
  "uuid_codec U \<Longrightarrow> enc_uuid U a = enc_uuid U b \<longleftrightarrow> a = b"
  by (simp_all add: enc_int_def enc_time_def enc_uuid_def Itoa_inject inj_eq uuid_codec.String_inject)

lemma map_option_enc:
  "inj (pr_time F) \<Longrightarrow> map_option (enc_time F) x = map_option (enc_time F) y \<longleftrightarrow> x = y"
  "map_option JStr u = map_option JStr v \<longleftrightarrow> u = v"
  by (auto intro!: option.inj_map_strong [of _ _ "enc_time F" "enc_time F"] option.inj_map_strong [of _ _ JStr JStr])

lemma enc_raw_inject: "a \<noteq> None \<Longrightarrow> b \<noteq> None \<Longrightarrow> enc_raw a = enc_raw b \<longleftrightarrow> a = b"
  by (auto simp: enc_raw_def)

text \<open>Each member of a job's document, by its name.\<close>

lemma job_member:
  "map_of (job_members F U j) ''id'' = Some (enc_uuid U (job_ID j))"
  "map_of (job_members F U j) ''tenant_id'' = Some (enc_uuid U (job_TenantID j))"
  "map_of (job_members F U j) ''queue_name'' = Some (JStr (job_QueueName j))"
  "map_of (job_members F U j) ''job_type'' = Some (JStr (job_JobType j))"
  "map_of (job_members F U j) ''payload'' = Some (enc_raw (job_Payload j))"
  "map_of (job_members F U j) ''status'' = Some (JStr (job_Status j))"
  "map_of (job_members F U j) ''result'' = job_Result j"
  "map_of (job_members F U j) ''error_message'' = map_option JStr (job_ErrorMessage j)"
  "map_of (job_members F U j) ''retry_count'' = Some (enc_int (job_RetryCount j))"
  "map_of (job_members F U j) ''max_retries'' = Some (enc_int (job_MaxRetries j))"
  "map_of (job_members F U j) ''scheduled_at'' = map_option (enc_time F) (job_ScheduledAt j)"
  "map_of (job_members F U j) ''started_at'' = map_option (enc_time F) (job_StartedAt j)"
  "map_of (job_members F U j) ''completed_at'' = map_option (enc_time F) (job_CompletedAt j)"
  "map_of (job_members F U j) ''created_at'' = Some (enc_time F (job_CreatedAt j))"
  "map_of (job_members F U j) ''updated_at'' = Some (enc_time F (job_UpdatedAt j))"
  by (simp_all add: job_members_def map_of_omit option.map_id del: map_of_append)

lemma enc_Job_inject:
  assumes "uuid_codec U" and "inj (pr_time F)" and "job_Payload i \<noteq> None" and "job_Payload j \<noteq> None"
  shows "enc_Job F U i = enc_Job F U j \<longleftrightarrow> i = j"
proof
  assume "enc_Job F U i = enc_Job F U j"
  then have same: "map_of (job_members F U i) k = map_of (job_members F U j) k" for k by (simp add: enc_Job_def)
  note member = same [of "''id''"] same [of "''tenant_id''"] same [of "''queue_name''"] same [of "''job_type''"] same [of "''payload''"]
    same [of "''status''"] same [of "''result''"] same [of "''error_message''"] same [of "''retry_count''"] same [of "''max_retries''"]
    same [of "''scheduled_at''"] same [of "''started_at''"] same [of "''completed_at''"] same [of "''created_at''"] same [of "''updated_at''"]
  from member [unfolded job_member] show "i = j"
    using assms map_option_enc(1) [OF assms(2)] map_option_enc(2) enc_raw_inject
    by (intro job.equality) simp_all
qed simp

lemma enc_User_iff:
  assumes "uuid_codec U" and "inj (pr_time F)"
  shows "enc_User F U u = enc_User F U v \<longleftrightarrow> u\<lparr>user_PasswordHash := h\<rparr> = v\<lparr>user_PasswordHash := h\<rparr>"
  using assms by (cases u; cases v) (auto simp: enc_User_def)

lemma enc_APIKey_iff:
  assumes "uuid_codec U" and "inj (pr_time F)"
  shows "enc_APIKey F U k = enc_APIKey F U l \<longleftrightarrow> k\<lparr>key_KeyHash := h\<rparr> = l\<lparr>key_KeyHash := h\<rparr>"
  using assms by (cases k; cases l) (auto simp: enc_APIKey_def omit_def split: option.splits)

lemma enc_Tenant_inject:
  assumes "uuid_codec U" and "inj (pr_time F)"
  shows "enc_Tenant F U s = enc_Tenant F U t \<longleftrightarrow> s = t"
  using assms by (cases s; cases t) (auto simp: enc_Tenant_def)

subsection \<open>The answers of each endpoint\<close>

text \<open>The health check reports in a shape of its own.\<close>

definition health_document :: "bool \<Rightarrow> bool \<Rightarrow> json" where
  "health_document postgres redis = JObj [(''postgres'', JStr (if postgres then ''ok'' else ''down'')),
     (''redis'', JStr (if redis then ''ok'' else ''down'')), (''status'', JStr (if postgres \<and> redis then ''ok'' else ''degraded''))]"

text \<open>
  The table of the API: for each endpoint the one status and the kind of document of its success (\<open>None\<close> is an empty
  body), and the statuses of its errors, those of the guard in front of it included.
\<close>

fun endpoint_document :: "printers \<Rightarrow> uuid_pkg \<Rightarrow> route \<Rightarrow> int \<Rightarrow> json option \<Rightarrow> bool" where
  "endpoint_document F U POST_signup n doc \<longleftrightarrow> n = 201 \<and> (\<exists>u. doc = Some (enc_User F U u))"
| "endpoint_document F U POST_login n doc \<longleftrightarrow> n = 200 \<and> (\<exists>u. doc = Some (enc_User F U u))"
| "endpoint_document F U POST_logout n doc \<longleftrightarrow> n = 204 \<and> doc = None"
| "endpoint_document F U GET_me n doc \<longleftrightarrow>
     n = 200 \<and> (\<exists>u t. doc = Some (JObj [(''user'', enc_User F U u), (''tenant'', enc_Tenant F U t)]))"
| "endpoint_document F U (Job_route GET_jobs) n doc \<longleftrightarrow> n = 200 \<and> (\<exists>l. doc = Some (enc_jobList F U l))"
| "endpoint_document F U (Job_route POST_enqueue) n doc \<longleftrightarrow> n = 202 \<and> (\<exists>j. doc = Some (enc_Job F U j))"
| "endpoint_document F U (Job_route GET_job) n doc \<longleftrightarrow> n = 200 \<and> (\<exists>j. doc = Some (enc_Job F U j))"
| "endpoint_document F U (Job_route POST_retry) n doc \<longleftrightarrow> n = 200 \<and> (\<exists>j. doc = Some (enc_Job F U j))"
| "endpoint_document F U (Job_route POST_cancel) n doc \<longleftrightarrow> n = 200 \<and> (\<exists>j. doc = Some (enc_Job F U j))"
| "endpoint_document F U GET_keys n doc \<longleftrightarrow> n = 200 \<and> (\<exists>ks. doc = Some (JObj [(''keys'', JArr (map (enc_APIKey F U) ks))]))"
| "endpoint_document F U POST_keys n doc \<longleftrightarrow> n = 201 \<and> (\<exists>k. doc = Some (enc_createKey F U k))"
| "endpoint_document F U DELETE_key n doc \<longleftrightarrow> n = 204 \<and> doc = None"
| "endpoint_document F U (Admin_route GET_stats) n doc \<longleftrightarrow> n = 200 \<and> (\<exists>st. doc = Some (enc_stats F st))"
| "endpoint_document F U (Admin_route GET_dashboard) n doc \<longleftrightarrow> n = 200 \<and> (\<exists>d. doc = Some (enc_dashboard F U d))"
| "endpoint_document F U GET_healthz n doc \<longleftrightarrow>
     (\<exists>postgres redis. n = (if postgres \<and> redis then 200 else 503) \<and> doc = Some (health_document postgres redis))"

fun endpoint_errors :: "route \<Rightarrow> int set" where
  "endpoint_errors POST_signup = {400, 409, 500}"
| "endpoint_errors POST_login = {400, 401, 500}"
| "endpoint_errors POST_logout = {401, 500}"
| "endpoint_errors GET_me = {401, 500}"
| "endpoint_errors (Job_route GET_jobs) = {400, 401, 500}"
| "endpoint_errors (Job_route POST_enqueue) = {400, 401, 500}"
| "endpoint_errors (Job_route GET_job) = {400, 401, 404, 500}"
| "endpoint_errors (Job_route POST_retry) = {400, 401, 404, 409, 500}"
| "endpoint_errors (Job_route POST_cancel) = {400, 401, 404, 409, 500}"
| "endpoint_errors GET_keys = {401, 500}"
| "endpoint_errors POST_keys = {400, 401, 500}"
| "endpoint_errors DELETE_key = {400, 401, 404, 500}"
| "endpoint_errors (Admin_route ar) = {401, 500}"
| "endpoint_errors GET_healthz = {}"

text \<open>An answer by this table. (\<open>no_response\<close> is the request to the statistics that a server scan never lets finish.)\<close>

definition regular :: "printers \<Rightarrow> uuid_pkg \<Rightarrow> route \<Rightarrow> response \<Rightarrow> bool" where
  "regular F U rt rs \<longleftrightarrow>
     endpoint_document F U rt (rs_Status rs) (encode F U (rs_Body rs)) \<or>
     rs_Status rs \<in> endpoint_errors rt \<and> (\<exists>msg. encode F U (rs_Body rs) = Some (errorResponse msg)) \<or>
     rt = Admin_route GET_stats \<and> rs = no_response"

lemma not_errors [simp]:
  "enc_Job F U j \<noteq> errorResponse msg" "enc_User F U u \<noteq> errorResponse msg" "enc_jobList F U l \<noteq> errorResponse msg"
  "enc_createKey F U k \<noteq> errorResponse msg" "enc_stats F st \<noteq> errorResponse msg" "enc_dashboard F U d \<noteq> errorResponse msg"
  "JObj ((''keys'', x) # xs) \<noteq> errorResponse msg" "JObj ((''user'', x) # xs) \<noteq> errorResponse msg"
  "health_document postgres redis \<noteq> errorResponse msg"
  by (simp_all add: enc_Job_def job_members_def enc_User_def enc_jobList_def enc_createKey_def enc_stats_def enc_dashboard_def
      health_document_def errorResponse_def)

text \<open>Every error status is 400 or more, no document of a success looks like an error, and none of its statuses is an error
  but the 503 of the health report.\<close>

lemma endpoint_document_no_error:
  assumes "endpoint_document F U rt n doc"
  shows "doc \<noteq> Some (errorResponse msg)" and "400 \<le> n \<longleftrightarrow> n = 503 \<and> rt = GET_healthz"
  using assms by (induction F U rt n doc rule: endpoint_document.induct; auto simp: not_errors [symmetric] split: if_splits)+

lemma endpoint_errors_400: "n \<in> endpoint_errors rt \<Longrightarrow> 400 \<le> n"
  by (cases rt rule: endpoint_errors.cases) auto

lemma regular_error:
  assumes "regular F U rt rs" and "rt \<noteq> GET_healthz"
  shows "400 \<le> rs_Status rs \<longleftrightarrow> (\<exists>msg. encode F U (rs_Body rs) = Some (errorResponse msg))"
  using assms endpoint_document_no_error [of F U rt "rs_Status rs" "encode F U (rs_Body rs)"]
    endpoint_errors_400 [of "rs_Status rs" rt] unfolding regular_def by (auto simp: no_response_def)

lemma regular_writes [simp]:
  "n \<in> endpoint_errors rt \<Longrightarrow> regular F U rt (writeError n msg)"
  "400 \<in> endpoint_errors rt \<Longrightarrow> regular F U rt (writeJSON 400 (Param_error_body e))"
  "endpoint_document F U rt 204 None \<Longrightarrow> regular F U rt (writeHeader 204)"
  "endpoint_document F U rt 204 None \<Longrightarrow> regular F U rt ((writeHeader 204)\<lparr>rs_Cookies := cks\<rparr>)"
  "regular F U (Admin_route GET_stats) no_response"
  by (auto simp: regular_def no_response_def)

lemma regular_documents:
  "endpoint_document F U rt n (encode F U v) \<Longrightarrow> regular F U rt (writeJSON n v)"
  "endpoint_document F U rt n (encode F U v) \<Longrightarrow> regular F U rt ((writeJSON n v)\<lparr>rs_Cookies := cks\<rparr>)"
  by (simp_all add: regular_def)

lemma tenantID_regular:
  "tenantID r = Inl rs \<Longrightarrow> 500 \<in> endpoint_errors rt \<Longrightarrow> regular F U rt rs"
  "context_user r = Inl rs \<Longrightarrow> 500 \<in> endpoint_errors rt \<Longrightarrow> regular F U rt rs"
  by (auto simp: tenantID_def context_user_def split: option.splits)

lemma decode_regular: "decodeCredentials A r = Inl rs \<Longrightarrow> 400 \<in> endpoint_errors rt \<Longrightarrow> regular F U rt rs"
  by (auto simp: decodeCredentials_def Let_def split: option.splits if_splits)

lemma job_regular: "job_handler R V fresh jr p c r = (p', c', rs) \<Longrightarrow> regular F U (Job_route jr) rs"
  by (cases jr) (auto simp: listJobs_def enqueueJob_def getJob_def retryJob_def cancelJob_def intro: tenantID_regular
      intro!: regular_documents(1) [where v = "Job_body j" for j] regular_documents(1) [where v = "Job_list_body l" for l]
      split: option.splits prod.splits sum.splits store_err.splits submit_err.splits if_splits)

lemma admin_regular: "admin_handler R G queues ar p c r = (p', c', rs) \<Longrightarrow> regular F U (Admin_route ar) rs"
  by (cases ar) (auto simp: stats_def dashboard_def intro: tenantID_regular intro!: regular_documents split: option.splits prod.splits sum.splits)

lemma key_regular:
  "listKeys p c r = (p', c', rs) \<Longrightarrow> regular F U GET_keys rs" "createKey i p c r = (p', c', rs) \<Longrightarrow> regular F U POST_keys rs"
  "deleteKey A p c r = (p', c', rs) \<Longrightarrow> regular F U DELETE_key rs" "me p c r = (p', c', rs) \<Longrightarrow> regular F U GET_me rs"
  by (auto simp: listKeys_def createKey_def deleteKey_def me_def Let_def intro: tenantID_regular intro!: regular_documents
      split: option.splits prod.splits sum.splits account_err.splits if_splits)

lemma auth_regular:
  "signup A i p c r = (p', c', rs) \<Longrightarrow> regular F U POST_signup rs" "login A i p c r = (p', c', rs) \<Longrightarrow> regular F U POST_login rs"
  "logout A p c r = (p', c', rs) \<Longrightarrow> regular F U POST_logout rs"
  by (auto simp: signup_def login_eq logout_def Let_def intro: decode_regular intro!: regular_documents
      split: option.splits prod.splits sum.splits account_err.splits if_splits)

lemma guard_regular:
  assumes "\<And>q d x q' d' rs'. serve q d x = (q', d', rs') \<Longrightarrow> regular F U rt rs'" and "{401, 500} \<subseteq> endpoint_errors rt"
  shows "RequireSession A serve p c r = (p', c', rs) \<Longrightarrow> regular F U rt rs"
    and "RequireAPIKey A serve p c r = (p', c', rs) \<Longrightarrow> regular F U rt rs"
  using assms(2)
  by (auto simp: RequireSession_def RequireAPIKey_def split: option.splits prod.splits sum.splits account_err.splits if_splits intro: assms(1))

lemma health_shape:
  assumes "health p c r = (p', c', rs)"
  shows "regular F U GET_healthz rs"
proof -
  obtain p1 a where a: "Store_Ping p = (p1, a)" by force
  obtain c1 b where b: "Queue_Ping c = (c1, b)" by force
  have l: "CHR ''p'' < CHR ''r''" "CHR ''r'' < CHR ''s''" "CHR ''p'' < CHR ''s''" by (simp_all add: less_char_def)
  from assms a b have "rs_Status rs = (if \<not> isl a \<and> \<not> isl b then 200 else 503) \<and>
      encode F U (rs_Body rs) = Some (health_document (\<not> isl a) (\<not> isl b))"
    by (auto simp: health_def health_document_def Let_def l split: sum.splits)
  then show ?thesis unfolding regular_def endpoint_document.simps by blast
qed

lemma router_regular:
  assumes "Routes A i rt p c r = (p', c', rs)"
  shows "regular F U rt rs"
proof (cases rt)
  case (Job_route jr)
  with assms show ?thesis by (cases jr) (auto intro: guard_regular(2) [OF job_regular])
next
  case (Admin_route ar)
  with assms show ?thesis by (auto intro: guard_regular(1) [OF admin_regular])
qed (use assms in \<open>auto intro: auth_regular(1,2) health_shape guard_regular(1) [OF auth_regular(3)] guard_regular(1) [OF key_regular(1)]
    guard_regular(1) [OF key_regular(2)] guard_regular(1) [OF key_regular(3)] guard_regular(1) [OF key_regular(4)]\<close>)

end
