(* ===== verification/Columns.thy ===== *)
theory Columns
  imports Credentials StoreSchedules Admin "HOL-Library.Monad_Syntax"
begin

section \<open>Columns and scans\<close>

text \<open>
  Between a table and a Go struct lie two lists that must agree: the columns a statement names and the fields its
  \<open>Scan\<close> (or its arguments) name, matched by position only. The statements of \<open>Store\<close>, \<open>StoreSchedules\<close>,
  \<open>AuthStore\<close> and \<open>Admin\<close> return structs; this theory writes both lists out as \<^verbatim>\<open>src/internal/store\<close> has them, for
  every \<open>INSERT\<close> and every scan of more than one column, and shows that every scan gives back the row. A row is its columns
  by name, with the names, defaults and nullability of \<^verbatim>\<open>src/migrations\<close>; scanning \<open>NULL\<close> into a field that cannot hold it
  is an error, as in the driver. The placeholders of every \<open>VALUES\<close> list are \<open>$1, $2, ...\<close> in order. (The \<open>UPDATE\<close>s name
  each column beside its value and are modelled as field updates where they stand.)
\<close>

datatype cell =
    Null | Uuid uuid | Text string | Jsonb json | Integer int | Boolean bool | Timestamptz time | Double rat

type_synonym table_row = "(string \<times> cell) list"

definition nullable :: "('a \<Rightarrow> cell) \<Rightarrow> 'a option \<Rightarrow> cell" where
  "nullable f x = (case x of None \<Rightarrow> Null | Some v \<Rightarrow> f v)"

text \<open>A statement that names a column the table does not have is an error, and an \<open>INSERT\<close> leaves the columns it does
  not name at their defaults.\<close>

definition select_columns :: "string list \<Rightarrow> table_row \<Rightarrow> cell list option" where
  "select_columns cols row = those (map (map_of row) cols)"

definition insert_row :: "table_row \<Rightarrow> string list \<Rightarrow> cell list \<Rightarrow> table_row option" where
  "insert_row defaults cols args =
     (if length cols = length args \<and> set cols \<subseteq> fst ` set defaults
      then Some (map (\<lambda>(c, v). (c, case map_of (zip cols args) c of None \<Rightarrow> v | Some w \<Rightarrow> w)) defaults)
      else None)"

subsection \<open>What the driver scans into a field\<close>

fun scan_uuid :: "cell \<Rightarrow> uuid option" where
  "scan_uuid (Uuid u) = Some u"
| "scan_uuid _ = None"

fun scan_string :: "cell \<Rightarrow> string option" where
  "scan_string (Text s) = Some s"
| "scan_string _ = None"

fun scan_int :: "cell \<Rightarrow> int option" where
  "scan_int (Integer n) = Some n"
| "scan_int _ = None"

fun scan_bool :: "cell \<Rightarrow> bool option" where
  "scan_bool (Boolean b) = Some b"
| "scan_bool _ = None"

fun scan_time :: "cell \<Rightarrow> time option" where
  "scan_time (Timestamptz t) = Some t"
| "scan_time _ = None"

fun scan_float :: "cell \<Rightarrow> rat option" where
  "scan_float (Double x) = Some x"
| "scan_float _ = None"

text \<open>Pointers and \<open>json.RawMessage\<close> take \<open>NULL\<close>.\<close>

fun scan_string_ptr :: "cell \<Rightarrow> string option option" where
  "scan_string_ptr Null = Some None"
| "scan_string_ptr c = map_option Some (scan_string c)"

fun scan_time_ptr :: "cell \<Rightarrow> time option option" where
  "scan_time_ptr Null = Some None"
| "scan_time_ptr c = map_option Some (scan_time c)"

fun scan_raw :: "cell \<Rightarrow> raw_message option" where
  "scan_raw Null = Some None"
| "scan_raw (Jsonb j) = Some (Some j)"
| "scan_raw _ = None"

subsection \<open>jobs\<close>

definition jobs_row :: "job \<Rightarrow> table_row" where
  "jobs_row j =
     [(''id'', Uuid (job_ID j)), (''queue_name'', Text (job_QueueName j)), (''job_type'', Text (job_JobType j)),
      (''payload'', nullable Jsonb (job_Payload j)), (''status'', Text (job_Status j)), (''result'', nullable Jsonb (job_Result j)),
      (''error_message'', nullable Text (job_ErrorMessage j)), (''retry_count'', Integer (job_RetryCount j)),
      (''max_retries'', Integer (job_MaxRetries j)), (''scheduled_at'', nullable Timestamptz (job_ScheduledAt j)),
      (''started_at'', nullable Timestamptz (job_StartedAt j)), (''completed_at'', nullable Timestamptz (job_CompletedAt j)),
      (''created_at'', Timestamptz (job_CreatedAt j)), (''updated_at'', Timestamptz (job_UpdatedAt j)),
      (''tenant_id'', Uuid (job_TenantID j))]"

text \<open>The defaults of \<^verbatim>\<open>0001_create_jobs_table\<close> and \<^verbatim>\<open>0011\<close>, whose \<open>tenant_id\<close> has none.\<close>

definition jobs_defaults :: "uuid \<Rightarrow> time \<Rightarrow> table_row" where
  "jobs_defaults gen now =
     [(''id'', Uuid gen), (''queue_name'', Text ''default''), (''job_type'', Null), (''payload'', Jsonb (JObj [])),
      (''status'', Text ''pending''), (''result'', Null), (''error_message'', Null), (''retry_count'', Integer 0),
      (''max_retries'', Integer 0), (''scheduled_at'', Null), (''started_at'', Null), (''completed_at'', Null),
      (''created_at'', Timestamptz now), (''updated_at'', Timestamptz now), (''tenant_id'', Null)]"

definition jobColumns :: "string list" where
  "jobColumns = [''id'', ''tenant_id'', ''queue_name'', ''job_type'', ''payload'', ''status'', ''result'', ''error_message'',
     ''retry_count'', ''max_retries'', ''scheduled_at'', ''started_at'', ''completed_at'', ''created_at'', ''updated_at'']"

definition scanJob :: "cell list \<Rightarrow> job option" where
  "scanJob row =
     (if length row \<noteq> 15 then None
      else do {
        ID \<leftarrow> scan_uuid (row ! 0);
        TenantID \<leftarrow> scan_uuid (row ! 1);
        QueueName \<leftarrow> scan_string (row ! 2);
        JobType \<leftarrow> scan_string (row ! 3);
        Payload \<leftarrow> scan_raw (row ! 4);
        Status \<leftarrow> scan_string (row ! 5);
        Result \<leftarrow> scan_raw (row ! 6);
        ErrorMessage \<leftarrow> scan_string_ptr (row ! 7);
        RetryCount \<leftarrow> scan_int (row ! 8);
        MaxRetries \<leftarrow> scan_int (row ! 9);
        ScheduledAt \<leftarrow> scan_time_ptr (row ! 10);
        StartedAt \<leftarrow> scan_time_ptr (row ! 11);
        CompletedAt \<leftarrow> scan_time_ptr (row ! 12);
        CreatedAt \<leftarrow> scan_time (row ! 13);
        UpdatedAt \<leftarrow> scan_time (row ! 14);
        Some \<lparr>job_ID = ID, job_TenantID = TenantID, job_QueueName = QueueName, job_JobType = JobType, job_Payload = Payload,
          job_Status = Status, job_Result = Result, job_ErrorMessage = ErrorMessage, job_RetryCount = RetryCount,
          job_MaxRetries = MaxRetries, job_ScheduledAt = ScheduledAt, job_StartedAt = StartedAt, job_CompletedAt = CompletedAt,
          job_CreatedAt = CreatedAt, job_UpdatedAt = UpdatedAt\<rparr>
      })"

text \<open>The columns and the arguments of the \<open>INSERT\<close> of \<open>CreateJob\<close>.\<close>

definition insertJob_columns :: "string list" where
  "insertJob_columns = [''id'', ''tenant_id'', ''queue_name'', ''job_type'', ''payload'', ''status'', ''max_retries'', ''scheduled_at'']"

definition insertJob_args :: "job \<Rightarrow> cell list" where
  "insertJob_args j = [Uuid (job_ID j), Uuid (job_TenantID j), Text (job_QueueName j), Text (job_JobType j),
     nullable Jsonb (job_Payload j), Text (job_Status j), Integer (job_MaxRetries j), nullable Timestamptz (job_ScheduledAt j)]"

subsection \<open>dead_letter_queue\<close>

definition dead_letter_queue_row :: "dlq_row \<Rightarrow> table_row" where
  "dead_letter_queue_row d =
     [(''job_id'', Uuid (dlq_job_id d)), (''reason'', Text (dlq_reason d)), (''attempts'', Integer (dlq_attempts d)),
      (''created_at'', Timestamptz (dlq_created_at d)), (''tenant_id'', Uuid (dlq_tenant_id d))]"

definition dead_letter_queue_defaults :: "time \<Rightarrow> table_row" where
  "dead_letter_queue_defaults now =
     [(''job_id'', Null), (''reason'', Null), (''attempts'', Null), (''created_at'', Timestamptz now), (''tenant_id'', Null)]"

text \<open>The \<open>INSERT ... SELECT\<close> of \<open>DeadLetter\<close>: its arguments \<open>$1, $2, $3\<close>, its columns, the select list on a row of \<open>jobs\<close>, and the
  columns \<open>ON CONFLICT\<close> takes over from the excluded row.\<close>

definition deadLetter_args :: "uuid \<Rightarrow> int \<Rightarrow> string \<Rightarrow> cell list" where
  "deadLetter_args k attempts reason = [Uuid k, Text reason, Integer attempts]"

definition deadLetter_columns :: "string list" where
  "deadLetter_columns = [''job_id'', ''tenant_id'', ''reason'', ''attempts'']"

definition deadLetter_select :: "cell list \<Rightarrow> table_row \<Rightarrow> cell list option" where
  "deadLetter_select args job =
     do {
       source \<leftarrow> select_columns [''id'', ''tenant_id''] job;
       Some (source @ [args ! 1, args ! 2])
     }"

definition deadLetter_excluded :: "string list" where
  "deadLetter_excluded = [''reason'', ''attempts'']"

definition take_excluded :: "string list \<Rightarrow> table_row \<Rightarrow> table_row \<Rightarrow> table_row" where
  "take_excluded cols excluded row =
     map (\<lambda>(c, v). (c, if c \<in> set cols then (case map_of excluded c of None \<Rightarrow> v | Some w \<Rightarrow> w) else v)) row"

subsection \<open>job_schedules\<close>

definition job_schedules_row :: "job_schedule \<Rightarrow> table_row" where
  "job_schedules_row sc =
     [(''id'', Uuid (sched_ID sc)), (''job_type'', Text (sched_JobType sc)), (''payload'', nullable Jsonb (sched_Payload sc)),
      (''cron_expression'', Text (sched_CronExpression sc)), (''enabled'', Boolean (sched_Enabled sc)),
      (''last_run_at'', nullable Timestamptz (sched_LastRunAt sc)), (''next_run_at'', Timestamptz (sched_NextRunAt sc)),
      (''created_at'', Timestamptz (sched_CreatedAt sc)), (''tenant_id'', Uuid (sched_TenantID sc))]"

definition scheduleColumns :: "string list" where
  "scheduleColumns = [''id'', ''tenant_id'', ''job_type'', ''payload'', ''cron_expression'', ''enabled'',
     ''last_run_at'', ''next_run_at'', ''created_at'']"

definition scan_schedule :: "cell list \<Rightarrow> job_schedule option" where
  "scan_schedule row =
     (if length row \<noteq> 9 then None
      else do {
        ID \<leftarrow> scan_uuid (row ! 0);
        TenantID \<leftarrow> scan_uuid (row ! 1);
        JobType \<leftarrow> scan_string (row ! 2);
        Payload \<leftarrow> scan_raw (row ! 3);
        CronExpression \<leftarrow> scan_string (row ! 4);
        Enabled \<leftarrow> scan_bool (row ! 5);
        LastRunAt \<leftarrow> scan_time_ptr (row ! 6);
        NextRunAt \<leftarrow> scan_time (row ! 7);
        CreatedAt \<leftarrow> scan_time (row ! 8);
        Some \<lparr>sched_ID = ID, sched_TenantID = TenantID, sched_JobType = JobType, sched_Payload = Payload,
          sched_CronExpression = CronExpression, sched_Enabled = Enabled, sched_LastRunAt = LastRunAt,
          sched_NextRunAt = NextRunAt, sched_CreatedAt = CreatedAt\<rparr>
      })"

subsection \<open>tenants, users, sessions and api_keys\<close>

definition tenants_row :: "tenant \<Rightarrow> table_row" where
  "tenants_row t = [(''id'', Uuid (tenant_ID t)), (''name'', Text (tenant_Name t)), (''created_at'', Timestamptz (tenant_CreatedAt t))]"

definition tenant_columns :: "string list" where
  "tenant_columns = [''id'', ''name'', ''created_at'']"

definition scan_tenant :: "cell list \<Rightarrow> tenant option" where
  "scan_tenant row =
     (if length row \<noteq> 3 then None
      else do {
        ID \<leftarrow> scan_uuid (row ! 0);
        Name \<leftarrow> scan_string (row ! 1);
        CreatedAt \<leftarrow> scan_time (row ! 2);
        Some \<lparr>tenant_ID = ID, tenant_Name = Name, tenant_CreatedAt = CreatedAt\<rparr>
      })"

definition tenants_defaults :: "uuid \<Rightarrow> time \<Rightarrow> table_row" where
  "tenants_defaults gen now = [(''id'', Uuid gen), (''name'', Null), (''created_at'', Timestamptz now)]"

text \<open>The \<open>INSERT\<close>s of \<open>CreateAccount\<close>; their \<open>RETURNING\<close> lists and scans are those of the queries.\<close>

definition insertTenant_columns :: "string list" where
  "insertTenant_columns = [''name'']"

definition insertTenant_args :: "string \<Rightarrow> cell list" where
  "insertTenant_args email = [Text email]"

definition users_row :: "user \<Rightarrow> table_row" where
  "users_row u = [(''id'', Uuid (user_ID u)), (''tenant_id'', Uuid (user_TenantID u)), (''email'', Text (user_Email u)),
     (''password_hash'', Text (user_PasswordHash u)), (''created_at'', Timestamptz (user_CreatedAt u))]"

definition user_columns :: "string list" where
  "user_columns = [''id'', ''tenant_id'', ''email'', ''password_hash'', ''created_at'']"

definition scan_user :: "cell list \<Rightarrow> user option" where
  "scan_user row =
     (if length row \<noteq> 5 then None
      else do {
        ID \<leftarrow> scan_uuid (row ! 0);
        TenantID \<leftarrow> scan_uuid (row ! 1);
        Email \<leftarrow> scan_string (row ! 2);
        PasswordHash \<leftarrow> scan_string (row ! 3);
        CreatedAt \<leftarrow> scan_time (row ! 4);
        Some \<lparr>user_ID = ID, user_TenantID = TenantID, user_Email = Email, user_PasswordHash = PasswordHash, user_CreatedAt = CreatedAt\<rparr>
      })"

definition users_defaults :: "uuid \<Rightarrow> time \<Rightarrow> table_row" where
  "users_defaults gen now =
     [(''id'', Uuid gen), (''tenant_id'', Null), (''email'', Null), (''password_hash'', Null), (''created_at'', Timestamptz now)]"

definition insertUser_columns :: "string list" where
  "insertUser_columns = [''tenant_id'', ''email'', ''password_hash'']"

definition insertUser_args :: "uuid \<Rightarrow> string \<Rightarrow> string \<Rightarrow> cell list" where
  "insertUser_args t email passwordHash = [Uuid t, Text email, Text passwordHash]"

text \<open>\<open>SessionUser\<close> selects the columns of the joined user and scans them in the same order as \<open>scanUser\<close>.\<close>

definition session_user_columns :: "string list" where
  "session_user_columns = [''id'', ''tenant_id'', ''email'', ''password_hash'', ''created_at'']"

definition sessions_row :: "session_row \<Rightarrow> table_row" where
  "sessions_row s = [(''id'', Uuid (sess_id s)), (''user_id'', Uuid (sess_user_id s)), (''token_hash'', Text (sess_token_hash s)),
     (''created_at'', Timestamptz (sess_created_at s)), (''expires_at'', Timestamptz (sess_expires_at s))]"

definition sessions_defaults :: "uuid \<Rightarrow> time \<Rightarrow> table_row" where
  "sessions_defaults gen now =
     [(''id'', Uuid gen), (''user_id'', Null), (''token_hash'', Null), (''created_at'', Timestamptz now), (''expires_at'', Null)]"

definition insertSession_columns :: "string list" where
  "insertSession_columns = [''user_id'', ''token_hash'', ''expires_at'']"

definition insertSession_args :: "uuid \<Rightarrow> string \<Rightarrow> time \<Rightarrow> cell list" where
  "insertSession_args userID tokenHash expiresAt = [Uuid userID, Text tokenHash, Timestamptz expiresAt]"

definition api_keys_row :: "api_key \<Rightarrow> table_row" where
  "api_keys_row k = [(''id'', Uuid (key_ID k)), (''tenant_id'', Uuid (key_TenantID k)), (''name'', Text (key_Name k)),
     (''key_hash'', Text (key_KeyHash k)), (''key_prefix'', Text (key_KeyPrefix k)),
     (''last_used_at'', nullable Timestamptz (key_LastUsedAt k)), (''created_at'', Timestamptz (key_CreatedAt k))]"

definition api_keys_defaults :: "uuid \<Rightarrow> time \<Rightarrow> table_row" where
  "api_keys_defaults gen now =
     [(''id'', Uuid gen), (''tenant_id'', Null), (''name'', Null), (''key_hash'', Null), (''key_prefix'', Null),
      (''last_used_at'', Null), (''created_at'', Timestamptz now)]"

definition insertKey_columns :: "string list" where
  "insertKey_columns = [''tenant_id'', ''name'', ''key_hash'', ''key_prefix'']"

definition insertKey_args :: "uuid \<Rightarrow> string \<Rightarrow> string \<Rightarrow> string \<Rightarrow> cell list" where
  "insertKey_args t name keyHash prefix = [Uuid t, Text name, Text keyHash, Text prefix]"

definition created_key_columns :: "string list" where
  "created_key_columns = [''id'', ''tenant_id'', ''name'', ''key_hash'', ''key_prefix'', ''last_used_at'', ''created_at'']"

definition scan_created_key :: "cell list \<Rightarrow> api_key option" where
  "scan_created_key row =
     (if length row \<noteq> 7 then None
      else do {
        ID \<leftarrow> scan_uuid (row ! 0);
        TenantID \<leftarrow> scan_uuid (row ! 1);
        Name \<leftarrow> scan_string (row ! 2);
        KeyHash \<leftarrow> scan_string (row ! 3);
        KeyPrefix \<leftarrow> scan_string (row ! 4);
        LastUsedAt \<leftarrow> scan_time_ptr (row ! 5);
        CreatedAt \<leftarrow> scan_time (row ! 6);
        Some \<lparr>key_ID = ID, key_TenantID = TenantID, key_Name = Name, key_KeyHash = KeyHash, key_KeyPrefix = KeyPrefix,
          key_LastUsedAt = LastUsedAt, key_CreatedAt = CreatedAt\<rparr>
      })"

text \<open>The listing leaves the hash in the database: the field keeps its zero value.\<close>

definition listed_key_columns :: "string list" where
  "listed_key_columns = [''id'', ''tenant_id'', ''name'', ''key_prefix'', ''last_used_at'', ''created_at'']"

definition scan_listed_key :: "cell list \<Rightarrow> api_key option" where
  "scan_listed_key row =
     (if length row \<noteq> 6 then None
      else do {
        ID \<leftarrow> scan_uuid (row ! 0);
        TenantID \<leftarrow> scan_uuid (row ! 1);
        Name \<leftarrow> scan_string (row ! 2);
        KeyPrefix \<leftarrow> scan_string (row ! 3);
        LastUsedAt \<leftarrow> scan_time_ptr (row ! 4);
        CreatedAt \<leftarrow> scan_time (row ! 5);
        Some \<lparr>key_ID = ID, key_TenantID = TenantID, key_Name = Name, key_KeyHash = [], key_KeyPrefix = KeyPrefix,
          key_LastUsedAt = LastUsedAt, key_CreatedAt = CreatedAt\<rparr>
      })"

definition key_owner_columns :: "string list" where
  "key_owner_columns = [''tenant_id'', ''id'']"

definition scan_key_owner :: "cell list \<Rightarrow> (uuid \<times> uuid) option" where
  "scan_key_owner row =
     (if length row \<noteq> 2 then None
      else do {
        tenantID \<leftarrow> scan_uuid (row ! 0);
        keyID \<leftarrow> scan_uuid (row ! 1);
        Some (tenantID, keyID)
      })"

subsection \<open>The aggregates of the dashboard\<close>

text \<open>The select list of \<open>JobMetrics\<close>, and that of \<open>StatusCounts\<close> for each group.\<close>

definition metrics_select :: "pg_aggregates \<Rightarrow> uuid \<Rightarrow> pg \<Rightarrow> cell list" where
  "metrics_select G t p =
     (let rows = filter (\<lambda>j. job_TenantID j = t) (jobs (pg_db p));
          count = (\<lambda>w. Integer (int (length (filter w rows))));
          latencies = List.map_filter run_time (filter (ended_since ''completed'' (pg_now p - hour)) rows)
      in [count (ended_since ''completed'' (pg_now p - minute)),
          count (ended_since ''completed'' (pg_now p - hour)),
          count (ended_since ''failed'' (pg_now p - hour)),
          Double (if latencies = [] then 0 else avg_epoch G latencies)])"

definition scan_metrics :: "cell list \<Rightarrow> Metrics option" where
  "scan_metrics row =
     (if length row \<noteq> 4 then None
      else do {
        CompletedLastMinute \<leftarrow> scan_int (row ! 0);
        CompletedLastHour \<leftarrow> scan_int (row ! 1);
        FailedLastHour \<leftarrow> scan_int (row ! 2);
        AvgLatencySeconds \<leftarrow> scan_float (row ! 3);
        Some \<lparr>mt_CompletedLastMinute = CompletedLastMinute, mt_CompletedLastHour = CompletedLastHour,
          mt_FailedLastHour = FailedLastHour, mt_AvgLatencySeconds = AvgLatencySeconds\<rparr>
      })"

definition status_select :: "pg_aggregates \<Rightarrow> uuid \<Rightarrow> pg \<Rightarrow> cell list list" where
  "status_select G t p =
     (let rows = filter (\<lambda>j. job_TenantID j = t) (jobs (pg_db p))
      in map (\<lambda>st. let grouped = filter (\<lambda>j. job_Status j = st) rows
           in [Text st, Integer (int (length grouped)),
               Integer (int (length (filter (\<lambda>j. date_trunc_day G (pg_now p) \<le> job_CreatedAt j) grouped)))])
         (remdups (map job_Status rows)))"

definition scan_status_count :: "cell list \<Rightarrow> (Status \<times> int \<times> int) option" where
  "scan_status_count row =
     (if length row \<noteq> 3 then None
      else do {
        st \<leftarrow> scan_string (row ! 0);
        total \<leftarrow> scan_int (row ! 1);
        t \<leftarrow> scan_int (row ! 2);
        Some (st, total, t)
      })"

subsection \<open>Scanning gives the row back\<close>

lemma scan_nullable [simp]:
  "scan_raw (nullable Jsonb m) = Some m" "scan_string_ptr (nullable Text s) = Some s" "scan_time_ptr (nullable Timestamptz t) = Some t"
  by (simp_all add: nullable_def split: option.split)

lemmas select_defs = select_columns_def jobColumns_def jobs_row_def scheduleColumns_def job_schedules_row_def tenant_columns_def tenants_row_def
  user_columns_def users_row_def created_key_columns_def api_keys_row_def listed_key_columns_def key_owner_columns_def
  session_user_columns_def

lemma scan_job_row: "select_columns jobColumns (jobs_row j) \<bind> scanJob = Some j"
  by (simp add: scanJob_def select_defs)

lemma scan_schedule_row: "select_columns scheduleColumns (job_schedules_row sc) \<bind> scan_schedule = Some sc"
  by (simp add: scan_schedule_def select_defs)

lemma scan_account_rows:
  "select_columns tenant_columns (tenants_row t) \<bind> scan_tenant = Some t"
  "select_columns user_columns (users_row u) \<bind> scan_user = Some u"
  "select_columns session_user_columns (users_row u) \<bind> scan_user = Some u"
  "select_columns created_key_columns (api_keys_row k) \<bind> scan_created_key = Some k"
  "select_columns listed_key_columns (api_keys_row k) \<bind> scan_listed_key = Some (k\<lparr>key_KeyHash := []\<rparr>)"
  "select_columns key_owner_columns (api_keys_row k) \<bind> scan_key_owner = Some (key_TenantID k, key_ID k)"
  by (simp_all add: scan_tenant_def scan_user_def scan_created_key_def scan_listed_key_def scan_key_owner_def select_defs)

text \<open>The row the \<open>INSERT\<close> writes, columns it does not name included, is the row \<open>insert_job\<close> appends.\<close>

lemma insert_row_inserted:
  "insert_row (jobs_defaults gen (pg_now p)) insertJob_columns (insertJob_args (job\<lparr>job_Payload := Some payload\<rparr>)) =
     Some (jobs_row (inserted p job payload))"
  by (simp add: insert_row_def jobs_defaults_def insertJob_columns_def insertJob_args_def jobs_row_def inserted_def nullable_def)

lemma insert_row_account:
  "insert_row (tenants_defaults gen now) insertTenant_columns (insertTenant_args email) =
     Some (tenants_row \<lparr>tenant_ID = gen, tenant_Name = email, tenant_CreatedAt = now\<rparr>)"
  "insert_row (users_defaults gen now) insertUser_columns (insertUser_args t email hash) =
     Some (users_row \<lparr>user_ID = gen, user_TenantID = t, user_Email = email, user_PasswordHash = hash, user_CreatedAt = now\<rparr>)"
  "insert_row (sessions_defaults gen now) insertSession_columns (insertSession_args u h e) =
     Some (sessions_row \<lparr>sess_id = gen, sess_user_id = u, sess_token_hash = h, sess_created_at = now, sess_expires_at = e\<rparr>)"
  "insert_row (api_keys_defaults gen now) insertKey_columns (insertKey_args t name h pre) =
     Some (api_keys_row \<lparr>key_ID = gen, key_TenantID = t, key_Name = name, key_KeyHash = h, key_KeyPrefix = pre,
       key_LastUsedAt = None, key_CreatedAt = now\<rparr>)"
  by (simp_all add: insert_row_def tenants_defaults_def insertTenant_columns_def insertTenant_args_def tenants_row_def
      users_defaults_def insertUser_columns_def insertUser_args_def users_row_def
      sessions_defaults_def insertSession_columns_def insertSession_args_def sessions_row_def
      api_keys_defaults_def insertKey_columns_def insertKey_args_def api_keys_row_def nullable_def)

text \<open>The row the \<open>INSERT ... SELECT\<close> proposes for a job, and what a conflict makes of the row that is there.\<close>

lemma insert_row_dead_letter:
  "(deadLetter_select (deadLetter_args k n m) (jobs_row j) \<bind> insert_row (dead_letter_queue_defaults now) deadLetter_columns) =
     Some (dead_letter_queue_row \<lparr>dlq_job_id = job_ID j, dlq_tenant_id = job_TenantID j, dlq_reason = m, dlq_attempts = n, dlq_created_at = now\<rparr>)"
  by (simp add: insert_row_def deadLetter_select_def deadLetter_args_def deadLetter_columns_def dead_letter_queue_defaults_def
      dead_letter_queue_row_def select_columns_def jobs_row_def)

lemma excluded_dead_letter:
  "take_excluded deadLetter_excluded (dead_letter_queue_row d) (dead_letter_queue_row x) =
     dead_letter_queue_row (x\<lparr>dlq_reason := dlq_reason d, dlq_attempts := dlq_attempts d\<rparr>)"
  by (simp add: take_excluded_def deadLetter_excluded_def dead_letter_queue_row_def)

text \<open>On the rows of the table, the upsert appends the proposed row or overwrites the excluded columns of the one there.\<close>

lemma rows_upsert:
  "map dead_letter_queue_row (dlq_upsert d rows) =
     (if row_by dlq_job_id (dlq_job_id d) rows = None then map dead_letter_queue_row rows @ [dead_letter_queue_row d]
      else map (\<lambda>x. if dlq_job_id x = dlq_job_id d
             then take_excluded deadLetter_excluded (dead_letter_queue_row d) (dead_letter_queue_row x) else dead_letter_queue_row x) rows)"
  by (simp add: dlq_upsert_def sql_update_def excluded_dead_letter)

lemma scan_aggregates:
  "JobMetrics G p t = (p', Inr m) \<Longrightarrow> scan_metrics (metrics_select G t p) = Some m"
  "StatusCounts G p t = (q', Inr c) \<Longrightarrow>
     map_option (\<lambda>rows. count_rows rows Map.empty 0) (those (map scan_status_count (status_select G t p))) = Some c"
proof -
  assume "JobMetrics G p t = (p', Inr m)"
  then have "exec (metrics_stmt G t) p = (p', Inr m)" by (auto simp: JobMetrics_def split: prod.splits sum.splits)
  from exec_ok [OF this] show "scan_metrics (metrics_select G t p) = Some m"
    by (auto simp: metrics_stmt_def metrics_select_def scan_metrics_def Let_def Status_defs)
next
  assume "StatusCounts G p t = (q', Inr c)"
  then obtain rows where e: "exec (status_stmt G t) p = (q', Inr rows)" and c: "c = count_rows rows Map.empty 0"
    by (auto simp: StatusCounts_def split: prod.splits sum.splits)
  have those_Some: "those (map (\<lambda>x. Some (f x)) xs) = Some (map f xs)" for f :: "Status \<Rightarrow> Status \<times> int \<times> int" and xs
    by (induction xs) simp_all
  from exec_ok [OF e] have "those (map scan_status_count (status_select G t p)) = Some rows"
    by (auto simp: status_stmt_def status_select_def scan_status_count_def Let_def comp_def those_Some conj_commute)
  with c show "map_option (\<lambda>rows. count_rows rows Map.empty 0) (those (map scan_status_count (status_select G t p))) = Some c"
    by simp
qed

subsection \<open>Each operation stores and returns what its columns say\<close>

lemma CreateJob_columns:
  assumes "CreateJob p job = (p', Inr row)"
  shows "(insert_row (jobs_defaults gen (pg_now p)) insertJob_columns (insertJob_args (job\<lparr>job_Payload := job_Payload row\<rparr>)) \<bind>
      select_columns jobColumns) \<bind> scanJob = Some row \<and> jobs (pg_db p') = jobs (pg_db p) @ [row]"
proof -
  from CreateJob_ok [OF assms] obtain payload
    where r: "row = inserted p job payload" and p: "jobs (pg_db p') = jobs (pg_db p) @ [row]" by auto
  moreover have "job_Payload row = Some payload" by (simp add: r inserted_def)
  ultimately show ?thesis by (simp add: insert_row_inserted scan_job_row)
qed

lemma CreateAccount_columns:
  assumes "CreateAccount p gt gu email hash = (p', Inr (t, u))"
  shows "(insert_row (tenants_defaults gt (pg_now p)) insertTenant_columns (insertTenant_args email) \<bind>
      select_columns tenant_columns) \<bind> scan_tenant = Some t \<and>
    (insert_row (users_defaults gu (pg_now p)) insertUser_columns (insertUser_args (tenant_ID t) email hash) \<bind>
      select_columns user_columns) \<bind> scan_user = Some u \<and>
    tenants (pg_db p') = tenants (pg_db p) @ [t] \<and> users (pg_db p') = users (pg_db p) @ [u]"
  using CreateAccount_ok [OF assms]
  by (simp add: insert_row_account scan_account_rows account_rows_def with_account_def)

lemma CreateSession_columns:
  assumes "CreateSession p gen u h e = (p', Inr x)"
  shows "\<exists>s. insert_row (sessions_defaults gen (pg_now p)) insertSession_columns (insertSession_args u h e) = Some (sessions_row s) \<and>
    sessions (pg_db p') = sessions (pg_db p) @ [s] \<and>
    sess_user_id s = u \<and> sess_token_hash s = h \<and> sess_expires_at s = e"
  using CreateSession_ok [OF assms] by (simp add: insert_row_account)

lemma CreateAPIKey_columns:
  assumes "CreateAPIKey p gen t name h pre = (p', Inr k)"
  shows "(insert_row (api_keys_defaults gen (pg_now p)) insertKey_columns (insertKey_args t name h pre) \<bind>
      select_columns created_key_columns) \<bind> scan_created_key = Some k \<and> api_keys (pg_db p') = api_keys (pg_db p) @ [k]"
  using CreateAPIKey_ok [OF assms] by (simp add: insert_row_account scan_account_rows)

text \<open>\<open>DeadLetter\<close> selects from the row its transaction has just updated.\<close>

lemma DeadLetter_columns:
  assumes "DeadLetter p k n m = (p', Inr x)" and "schema_ok (pg_db p)" and "job_of (pg_db p') k = Some j"
  shows "\<exists>d. (deadLetter_select (deadLetter_args k n m) (jobs_row j) \<bind>
      insert_row (dead_letter_queue_defaults (pg_now p)) deadLetter_columns) = Some (dead_letter_queue_row d) \<and>
    map dead_letter_queue_row (dead_letter_queue (pg_db p')) =
      (if row_by dlq_job_id k (dead_letter_queue (pg_db p)) = None
       then map dead_letter_queue_row (dead_letter_queue (pg_db p)) @ [dead_letter_queue_row d]
       else map (\<lambda>x. if dlq_job_id x = k then take_excluded deadLetter_excluded (dead_letter_queue_row d) (dead_letter_queue_row x)
              else dead_letter_queue_row x) (dead_letter_queue (pg_db p)))"
proof -
  have p': "pg_db p' = dead_db p k n m" using DeadLetter_ok [OF assms(2,1)] by simp
  obtain j0 where j0: "job_of (pg_db p) k = Some j0"
    using assms(3) p' by (cases "job_of (pg_db p) k") (simp_all add: dead_db_def)
  let ?d = "\<lparr>dlq_job_id = k, dlq_tenant_id = job_TenantID j0, dlq_reason = m, dlq_attempts = n, dlq_created_at = pg_now p\<rparr>"
  have "job_ID j0 = k" using job_of_ID [OF j0] .
  then have "job_ID j = k \<and> job_TenantID j = job_TenantID j0"
    using assms(3) j0 unfolding p' by (auto simp: dead_db_def failed_def set_updated_at_def job_of_put_job)
  moreover have "dead_letter_queue (pg_db p') = dlq_upsert ?d (dead_letter_queue (pg_db p))" by (simp add: p' dead_db_def j0)
  ultimately show ?thesis by (intro exI [of _ ?d]) (simp add: insert_row_dead_letter rows_upsert)
qed

end
