(* ===== verification/OpsTheorems.thy ===== *)
theory OpsTheorems
  imports ApiTheorems Deployment Wire Columns
begin

section \<open>Operating the system\<close>

text \<open>
  The properties of the parts around the job pipeline: the deployment as a whole, the router and its
  middleware, the documents of the answers, the columns of the tables, the dashboard numbers and the gauges, and the
  migrations.
\<close>

subsection \<open>The deployment\<close>

text \<open>C10: The processes as they are written stay within the system's steps: with any environment, any sequence of
  turns of workers (passes of the consume loop, ticks of the poller, heartbeats), passes of the scheduler and
  requests to the API process (any route behind its middleware, preflights, misses, scrapes), on any network and
  clock, leads from a reachable state where some sequence of steps of one process leads. So what holds in every
  reachable state holds of them; and the account tables keep their uniqueness and foreign keys.\<close>

theorem deployment_is_a_run:
  assumes "redis_server (we_R E)" and "reachable E cron s" and "accounts_good s" and "sys_pc s w = Idle"
    and "A = mounted (Load env) (we_R E) (we_U E) B dummy lower G"
    and "t = \<lparr>ws_pg = sys_pg s, ws_conn = sys_conn s, ws_metrics = m\<rparr>"
    and "t' = perform_all E cron (Load env) A acts t"
  shows "steps E cron s (seen_by t' s) \<and> reachable E cron (seen_by t' s) \<and> accounts_good (seen_by t' s)"
proof -
  note inv = reachable_inv [OF assms(1,2)]
  have "steps E cron s (seen_by t' s)"
    unfolding assms(7) perform_all_fold
    by (rule path_fold [OF assms(1) _ inv assms(4)], rule perform_path [OF assms(1) Load_queues])
      (simp_all add: assms(5,6))
  moreover from steps_accounts [OF assms(1) this inv assms(3)] have "accounts_good (seen_by t' s)" .
  ultimately show ?thesis using assms(2) by (auto simp: reachable_def intro: rtranclp_trans)
qed

definition demo_acts :: "act list" where
  "demo_acts = [Worker_act ''w1'' (Beat_turn (100 * second, [])), Worker_act ''w1'' (Poll_turn (100 * second) False),
     Api_act (Request demo_input (Routed POST_signup) demo_signup), Worker_act ''w1'' (Consume_turn demo_pass), Api_act (Scrape id),
     Conditions (200 * second) [Lost_reply] (200 * second) [], Scheduler_act (\<lambda>_. False) (\<lambda>i. 9) (200 * second),
     Worker_act ''w1'' (Stop_turn (201 * second, []))]"

definition demo_mounted :: "keyspace api" where
  "demo_mounted = mounted (Load Map.empty) ref_redis bits_uuid demo_bcrypt demo_dummy id demo_aggregates"

lemma demo_accounts: "accounts_good demo_admitted"
  by (simp add: demo_admitted_pg_def demo_start_pg_def demo_start_db_def accounts_ok_def)

theorem deployment_is_a_run_witness:
  "\<exists>t'. t' = perform_all demo_env demo_every_minute (Load Map.empty) demo_mounted demo_acts
       \<lparr>ws_pg = demo_admitted_pg, ws_conn = demo_admitted_conn, ws_metrics = NewWorker\<rparr> \<and>
     reachable demo_env demo_every_minute (seen_by t' demo_admitted) \<and> accounts_good (seen_by t' demo_admitted)"
  using deployment_is_a_run [of demo_env demo_every_minute demo_admitted 0 demo_mounted Map.empty demo_bcrypt demo_dummy id demo_aggregates _ NewWorker _ demo_acts]
    ref_redis_server admitted_reachable demo_accounts admitted_idle by (simp add: demo_mounted_def)

text \<open>C11: A process of the deployment, from its start: when it cannot reach the database or Redis it stops there and
  has changed neither; otherwise the worker runs its turns (building the default registry does not panic), the
  scheduler its ticks, and the API answers every request. Whatever the worker's goroutines, the scheduler's ticks or the
  API's requests do, in whatever order, the calls of each process are steps of the system.\<close>

theorem processes_are_runs:
  assumes "redis_server (we_R E)" and "reachable E cron s" and "sys_pc s w = Idle"
    and "\<forall>registry. DefaultRegistry = Some registry \<longrightarrow> we_registry E = registry"
    and "worker = worker_main url_ok (Load env) E fresh turns (sys_pg s) (sys_conn s)"
    and "scheduler = scheduler_main url_ok (Load env) (we_R E) (we_U E) cron first ticks (sys_pg s) (sys_conn s)"
    and "api_main B salt args env migrate
      (\<lambda>cfg dummy. runServer url_ok cfg (we_R E) (we_U E) B dummy lower G ms fin (sys_pg s) (sys_conn s)) = Some (Inr server)"
    and "start_services url_ok (Load env) (sys_pg s) (sys_conn s) = (p1, c1, started)"
  shows "reachable E cron (put_services (fst worker) (fst (snd worker)) s) \<and>
    reachable E cron (put_services (fst scheduler) (fst (snd scheduler)) s) \<and>
    reachable E cron (put_services (fst server) (fst (snd server)) s) \<and>
    (case started of
       Inl e \<Rightarrow> worker = (p1, c1, Inl (Worker_failed e)) \<and> scheduler = (p1, c1, Inl e) \<and> server = (p1, c1, Inl e) \<and>
         pg_db p1 = pg_db (sys_pg s) \<and> r_srv c1 = r_srv (sys_conn s)
     | Inr _ \<Rightarrow> (\<exists>m. snd (snd worker) = Inr m) \<and> snd (snd scheduler) = Inr () \<and>
         (\<exists>answers. snd (snd server) = Inr (answers, shutdown_err fin) \<and> length answers = length ms))"
proof -
  note inv = reachable_inv [OF assms(1,2)]
  have registry: "DefaultRegistry = Some (we_registry E)" using assms(4) DefaultRegistry_eq by simp
  have run: "reachable E cron s'" if "steps E cron s s'" for s'
    using assms(2) that by (auto simp: reachable_def intro: rtranclp_trans)
  from assms(7) obtain dummy
    where server: "server = runServer url_ok (Load env) (we_R E) (we_U E) B dummy lower G ms fin (sys_pg s) (sys_conn s)"
    by (auto simp: api_main_def Let_def split: option.splits if_splits)
  obtain pw cw xw ps cs xs pa ca xa where out: "worker = (pw, cw, xw)" "scheduler = (ps, cs, xs)" "server = (pa, ca, xa)"
    by (metis prod.collapse)
  have "reachable E cron (put_services pw cw s)" "reachable E cron (put_services ps cs s)" "reachable E cron (put_services pa ca s)"
    using worker_main_path [OF assms(1) inv assms(3) registry assms(5) [unfolded out, symmetric]]
      scheduler_main_path [OF assms(3) assms(6) [unfolded out, symmetric]] runServer_path [OF assms(3) server [unfolded out, symmetric]]
    by (simp_all add: run)
  then have "reachable E cron (put_services (fst worker) (fst (snd worker)) s)"
    "reachable E cron (put_services (fst scheduler) (fst (snd scheduler)) s)"
    "reachable E cron (put_services (fst server) (fst (snd server)) s)" by (simp_all add: out)
  moreover have "pg_db p1 = pg_db (sys_pg s) \<and> r_srv c1 = r_srv (sys_conn s)"
    using start_services_read [OF assms(8)] read_same by blast
  ultimately show ?thesis
    unfolding assms(5,6) server worker_main_def scheduler_main_def runServer_def assms(8) registry
    by (auto simp: Let_def dest: serve_requests_length split: sum.splits prod.splits)
qed

definition demo_turns :: "turn list" where
  "demo_turns = [Beat_turn (100 * second, []), Consume_turn demo_pass, Poll_turn (101 * second) False, Stop_turn (102 * second, [])]"

definition demo_tick :: "(nat \<Rightarrow> bool) \<times> (nat \<Rightarrow> uuid) \<times> time" where
  "demo_tick = (\<lambda>_. False, \<lambda>_. 9, 200 * second)"

lemma demo_registry: "DefaultRegistry = Some (we_registry demo_env)"
  unfolding demo_env_def wenv.simps using DefaultRegistry_eq by (metis option.sel)

text \<open>Once on services that answer, where every process runs, and once with an address that cannot be parsed, where
  none starts.\<close>

theorem processes_are_runs_witness:
  "(\<exists>pw cw m ps cs pa ca answer.
     worker_main (\<lambda>_. True) (Load Map.empty) demo_env 77 demo_turns demo_admitted_pg demo_admitted_conn = (pw, cw, Inr m) \<and>
     reachable demo_env demo_every_minute (put_services pw cw demo_admitted) \<and>
     scheduler_main (\<lambda>_. True) (Load Map.empty) ref_redis bits_uuid demo_every_minute demo_tick [] demo_admitted_pg demo_admitted_conn = (ps, cs, Inr ()) \<and>
     reachable demo_env demo_every_minute (put_services ps cs demo_admitted) \<and>
     api_main demo_bcrypt ''salt'' [''api''] Map.empty (\<lambda>_. ()) (\<lambda>cfg dummy. runServer (\<lambda>_. True) cfg ref_redis bits_uuid demo_bcrypt
       dummy id demo_aggregates [Scrape id] (Server_closed True) demo_admitted_pg demo_admitted_conn) = Some (Inr (pa, ca, Inr ([answer], None))) \<and>
     reachable demo_env demo_every_minute (put_services pa ca demo_admitted)) \<and>
   worker_main (\<lambda>_. False) (Load Map.empty) demo_env 77 demo_turns demo_admitted_pg demo_admitted_conn =
     (demo_admitted_pg, demo_admitted_conn, Inl (Worker_failed Connect_postgres))"
proof -
  let ?worker = "\<lambda>ok. worker_main ok (Load Map.empty) demo_env 77 demo_turns demo_admitted_pg demo_admitted_conn"
  let ?scheduler = "\<lambda>ok. scheduler_main ok (Load Map.empty) ref_redis bits_uuid demo_every_minute demo_tick [] demo_admitted_pg demo_admitted_conn"
  let ?server = "\<lambda>ok. runServer ok (Load Map.empty) ref_redis bits_uuid demo_bcrypt demo_dummy id demo_aggregates [Scrape id] (Server_closed True)
    demo_admitted_pg demo_admitted_conn"
  have main: "api_main demo_bcrypt ''salt'' [''api''] Map.empty (\<lambda>_. ()) run = Some (Inr (run (Load Map.empty) demo_dummy))" for run
    by (simp add: api_main_def auth_init_def demo_bcrypt_def demo_dummy_def)
  have net: "healthy demo_admitted_pg" "r_net demo_admitted_conn = []"
    by (simp_all add: demo_admitted_pg_def demo_start_pg_def demo_admitted_conn_def demo_start_conn_def)
  note run = processes_are_runs [where E = demo_env and cron = demo_every_minute and s = demo_admitted and w = 0 and env = Map.empty
      and fresh = 77 and turns = demo_turns and first = demo_tick and ticks = "[]" and B = demo_bcrypt and salt = "''salt''" and args = "[''api'']"
      and migrate = "\<lambda>_. ()" and lower = id and G = demo_aggregates and ms = "[Scrape id]" and fin = "Server_closed True",
      OF _ admitted_reachable admitted_idle _ refl refl]
  obtain pw cw xw ps cs xs pa ca xa where out: "?worker (\<lambda>_. True) = (pw, cw, xw)" "?scheduler (\<lambda>_. True) = (ps, cs, xs)"
    "?server (\<lambda>_. True) = (pa, ca, xa)" by (metis prod.collapse)
  have registry: "\<forall>registry. DefaultRegistry = Some registry \<longrightarrow> we_registry demo_env = registry" by (simp only: demo_registry option.inject simp_thms)
  have "redis_server (we_R demo_env)" using ref_redis_server by simp
  note run = run [OF this registry main]
  have "start_services (\<lambda>_. True) (Load Map.empty) (sys_pg demo_admitted) (sys_conn demo_admitted) = (demo_admitted_pg, demo_admitted_conn, Inr ())"
    "start_services (\<lambda>_. False) (Load Map.empty) (sys_pg demo_admitted) (sys_conn demo_admitted) = (demo_admitted_pg, demo_admitted_conn, Inl Connect_postgres)"
    using net by (simp_all add: start_services_def Store_New_def Ping_healthy)
  from run [OF this(1)] run [OF this(2)] out show ?thesis unfolding main by (auto simp: length_Suc_conv)
qed

subsection \<open>The worker's counters\<close>

text \<open>C12: A worker process never counts a job it has not settled: whatever its goroutines do, in whatever order and
  on any network, at any moment each of its two counters is at most what the rows with that status grew by since it
  started; as long as the database can be reached it is exactly that, when nobody else settles jobs meanwhile.\<close>

theorem counters_follow_the_table:
  assumes "schema_ok (pg_db p)" and "worker_main url_ok cfg E fresh turns p c = (p', c', Inr m)" and "terminal st"
  shows "counted m st \<le> rows_with (pg_db p') st - rows_with (pg_db p) st \<and>
    (healthy p \<and> list_all calm turns \<longrightarrow> counted m st = rows_with (pg_db p') st - rows_with (pg_db p) st)"
proof -
  let ?w = "uuid_String (we_U E) fresh"
  from assms(2) obtain p1 c1 u reg t' where start: "start_services url_ok cfg p c = (p1, c1, Inr u)" "DefaultRegistry = Some reg"
    and t': "t' = worker_turns (E\<lparr>we_registry := reg\<rparr>) (cfg_Queues cfg) ?w turns \<lparr>ws_pg = p1, ws_conn = c1, ws_metrics = NewWorker\<rparr>"
    and out: "p' = ws_pg t'" "m = ws_metrics t'"
    by (auto simp: worker_main_def Let_def split: prod.splits sum.splits option.splits)
  have same: "pg_db p1 = pg_db p" using start_services_read [OF start(1)] read_same by blast
  have up: "healthy p \<Longrightarrow> healthy p1"
    using start(1) by (auto simp: start_services_def Store_New_def Ping_healthy split: prod.splits sum.splits if_splits)
  have "counted NewWorker st = 0" using assms(3) by (auto simp: counted_def NewWorker_def terminal_def Status_defs)
  with counters_turns [OF _ assms(3) t'] assms(1) same up out show ?thesis by (auto simp: uncounted_def)
qed

theorem counters_follow_the_table_witness:
  "\<exists>p' c' m. worker_main (\<lambda>_. True) (Load Map.empty) demo_env 77 demo_turns demo_admitted_pg demo_admitted_conn = (p', c', Inr m) \<and>
     counted m StatusCompleted = rows_with (pg_db p') StatusCompleted"
proof -
  have net: "healthy demo_admitted_pg" "r_net demo_admitted_conn = []"
    by (simp_all add: demo_admitted_pg_def demo_start_pg_def demo_admitted_conn_def demo_start_conn_def)
  then obtain p' c' m where w: "worker_main (\<lambda>_. True) (Load Map.empty) demo_env 77 demo_turns demo_admitted_pg demo_admitted_conn = (p', c', Inr m)"
    by (auto simp: worker_main_def start_services_def Store_New_def Ping_healthy demo_registry Let_def)
  have "rows_with (pg_db demo_admitted_pg) StatusCompleted = 0"
    by (simp add: rows_with_def demo_admitted_pg_def demo_row_def demo_request_def applyDefaults_fields zero_job_def Status_defs)
  moreover have "schema_ok (pg_db demo_admitted_pg)" using admitted_schema by (simp add: demo_admitted_pg_def)
  ultimately show ?thesis using w counters_follow_the_table [OF _ w, of StatusCompleted] net
    by (simp add: terminal_def demo_turns_def)
qed

subsection \<open>The router\<close>

text \<open>C18: Whoever has no business there is turned away at the door: a preflight, a path or method the router
  does not know, or a request without the credential its route asks for changes neither service; it is
  answered 204, 404, 405, or 401 (500 when the credential could not be checked), with an error body unless
  it is a preflight. Every answer allows the one configured origin.\<close>

theorem server_turns_away:
  assumes "serve_mux cfg A (Request i target r) p c = (p', c', Answer h rs)"
    and "accounts_ok (pg_lower p) (pg_db p)"
    and "rq_Method r = ''OPTIONS'' \<or> target = No_route \<or> target = Wrong_method \<or> (\<exists>rt. target = Routed rt \<and> \<not> admitted A p r rt)"
  shows "pg_db p' = pg_db p \<and> c' = c \<and> rs_Status rs \<in> {204, 401, 404, 405, 500} \<and>
    (rs_Status rs = 204 \<longleftrightarrow> rq_Method r = ''OPTIONS'') \<and> (rs_Status rs \<noteq> 204 \<longrightarrow> rs_Body rs \<in> range Error_body) \<and>
    map_of h ''Access-Control-Allow-Origin'' = Some (cfg_CORSAllowedOrigin cfg)"
proof (cases "rq_Method r = ''OPTIONS''")
  case True
  with assms(1) show ?thesis by (auto simp: CORS_def Let_def header_Set_def header_Add_def)
next
  case False
  with assms(1) have s: "chi_router A i target p c r = (p', c', rs)"
    and h: "map_of h ''Access-Control-Allow-Origin'' = Some (cfg_CORSAllowedOrigin cfg)"
    by (auto simp: CORS_def Let_def header_Set_def header_Add_def split: prod.splits)
  show ?thesis
  proof (cases target)
    case (Routed rt)
    with s assms(3) False router_refuses [OF _ assms(2), of A i rt c r p' c' rs] h show ?thesis by auto
  qed (use s h False in \<open>auto simp: notFound_def methodNotAllowed_def\<close>)
qed

theorem server_turns_away_witness:
  "\<exists>p' c' h rs. serve_mux (Load Map.empty) demo_api (Request demo_input (Routed (Admin_route GET_stats)) demo_http) demo_start_pg
      demo_start_conn = (p', c', Answer h rs) \<and> c' = demo_start_conn \<and> rs_Status rs \<in> {204, 401, 404, 405, 500} \<and>
      map_of h ''Access-Control-Allow-Origin'' = Some ''http://localhost:3000''"
proof -
  obtain p' c' h rs where s: "serve_mux (Load Map.empty) demo_api (Request demo_input (Routed (Admin_route GET_stats)) demo_http)
      demo_start_pg demo_start_conn = (p', c', Answer h rs)"
    by (cases "CORS (cfg_CORSAllowedOrigin (Load Map.empty)) (chi_router demo_api demo_input (Routed (Admin_route GET_stats)))
        demo_start_pg demo_start_conn demo_http") auto
  have "\<not> admitted demo_api demo_start_pg demo_http (Admin_route GET_stats)"
    by (simp add: session_caller_def demo_http_def)
  with server_turns_away [OF s] demo_pg_up(1) have "c' = demo_start_conn \<and> rs_Status rs \<in> {204, 401, 404, 405, 500} \<and>
      map_of h ''Access-Control-Allow-Origin'' = Some (cfg_CORSAllowedOrigin (Load Map.empty))"
    by (auto simp: accounts_up_def)
  with s show ?thesis by (auto simp: Load_def getenv_def)
qed

text \<open>C31: The cookie policy: every cookie the server sets, on any route and in any state, is the session cookie
  under its one name, for the whole site, hidden from scripts, same-site lax, and marked secure exactly when
  the environment asks for it.\<close>

theorem cookie_policy:
  assumes "A = mounted (Load env) R U B dummy lower G" and "serve_mux (Load env) A (Request i target r) p c = (p', c', Answer h rs)"
    and "ck \<in> set (rs_Cookies rs)"
  shows "ck_Name ck = ''dispatch_session'' \<and> ck_Path ck = ''/'' \<and> ck_HttpOnly ck \<and> ck_SameSiteLax ck \<and>
    (ck_Secure ck \<longleftrightarrow> (\<exists>v. env ''SESSION_COOKIE_SECURE'' = Some v \<and> ParseBool v = Some True))"
proof -
  have off: "list_all (good_cookie A) (rs_Cookies rs)"
  proof (cases "rq_Method r = ''OPTIONS''")
    case True
    with assms(2) show ?thesis by (auto simp: CORS_def Let_def)
  next
    case False
    with assms(2) have "chi_router A i target p c r = (p', c', rs)" by (auto simp: CORS_def Let_def split: prod.splits)
    then show ?thesis by (cases target) (auto simp: notFound_def methodNotAllowed_def dest: router_cookies)
  qed
  have "ParseBool [] = None" by (simp add: ParseBool_def)
  then have "cfg_SessionCookieSecure (Load env) \<longleftrightarrow> (\<exists>v. env ''SESSION_COOKIE_SECURE'' = Some v \<and> ParseBool v = Some True)"
    by (auto simp: Load_def getenvBool_def split: option.splits)
  with off assms(1,3) show ?thesis by (auto simp: list_all_iff good_cookie_def defaultCookieName_def)
qed

definition demo_environment :: environment where
  "demo_environment = [''SESSION_SECRET'' \<mapsto> ''pepper'', ''SESSION_COOKIE_SECURE'' \<mapsto> ''true'']"

lemma demo_mounted_api: "mounted (Load demo_environment) ref_redis bits_uuid demo_bcrypt demo_dummy (\<lambda>s. s) demo_aggregates = demo_api"
  by (simp add: mounted_def New_def Load_def demo_environment_def getenv_def getenvBool_def getenvList_def ParseBool_def demo_api_def)

theorem cookie_policy_witness:
  "\<exists>p' c' h rs ck. serve_mux (Load demo_environment) demo_api (Request demo_input (Routed POST_signup) demo_signup) demo_start_pg
      demo_start_conn = (p', c', Answer h rs) \<and> rs_Cookies rs = [ck] \<and> ck_Name ck = ''dispatch_session'' \<and> ck_HttpOnly ck \<and> ck_Secure ck"
proof -
  obtain p' rs where s: "signup demo_api demo_input demo_start_pg demo_start_conn demo_signup = (p', demo_start_conn, rs)" "rs_Status rs = 201"
    using demo_signup_created by blast
  then obtain ck where ck: "rs_Cookies rs = [ck]" by (rule signup_created)
  have "rq_Method demo_signup \<noteq> ''OPTIONS''" by (simp add: demo_signup_def demo_http_def)
  with s(1) obtain h where m: "serve_mux (Load demo_environment) demo_api (Request demo_input (Routed POST_signup) demo_signup)
      demo_start_pg demo_start_conn = (p', demo_start_conn, Answer h rs)" by (simp add: CORS_def Let_def)
  from cookie_policy [OF demo_mounted_api [symmetric] m, of ck] ck m show ?thesis
    by (auto simp: demo_environment_def ParseBool_def)
qed

subsection \<open>Columns\<close>

text \<open>C34: Nothing is lost or swapped between the tables and the structs. For each \<open>INSERT\<close> (jobs, tenants, users,
  sessions, API keys, dead letters): when the operation succeeds, the columns the statement names with the arguments at
  their positions, and the defaults of the table elsewhere, make the row the database holds from then on, and the
  \<open>RETURNING\<close> columns of that row scan into the struct the operation returns; a dead letter takes its job's id and tenant
  from the job's row, and on a conflict only the reason and the attempts. For each query of more than one column: the
  columns selected scan into the struct of every row (jobs, schedules, tenants, users, also through a session; the listing of
  keys gives everything but the hash), and the aggregates of the dashboard scan into the numbers \<open>JobMetrics\<close> and
  \<open>StatusCounts\<close> return.\<close>

theorem rows_scan_back:
  "(CreateJob p job = (p', Inr row) \<longrightarrow>
      (insert_row (jobs_defaults gen (pg_now p)) insertJob_columns (insertJob_args (job\<lparr>job_Payload := job_Payload row\<rparr>)) \<bind>
        select_columns jobColumns) \<bind> scanJob = Some row \<and> jobs (pg_db p') = jobs (pg_db p) @ [row]) \<and>
   (CreateAccount pa gt gu email pwhash = (pa', Inr (t, u)) \<longrightarrow>
      (insert_row (tenants_defaults gt (pg_now pa)) insertTenant_columns (insertTenant_args email) \<bind>
        select_columns tenant_columns) \<bind> scan_tenant = Some t \<and>
      (insert_row (users_defaults gu (pg_now pa)) insertUser_columns (insertUser_args (tenant_ID t) email pwhash) \<bind>
        select_columns user_columns) \<bind> scan_user = Some u \<and>
      tenants (pg_db pa') = tenants (pg_db pa) @ [t] \<and> users (pg_db pa') = users (pg_db pa) @ [u]) \<and>
   (CreateSession ps gs us h e = (ps', Inr ()) \<longrightarrow>
      (\<exists>s. insert_row (sessions_defaults gs (pg_now ps)) insertSession_columns (insertSession_args us h e) = Some (sessions_row s) \<and>
        sessions (pg_db ps') = sessions (pg_db ps) @ [s] \<and> sess_user_id s = us \<and> sess_token_hash s = h \<and> sess_expires_at s = e)) \<and>
   (CreateAPIKey pk gk tk name kh pre = (pk', Inr k) \<longrightarrow>
      (insert_row (api_keys_defaults gk (pg_now pk)) insertKey_columns (insertKey_args tk name kh pre) \<bind>
        select_columns created_key_columns) \<bind> scan_created_key = Some k \<and> api_keys (pg_db pk') = api_keys (pg_db pk) @ [k]) \<and>
   (DeadLetter pd i n m = (pd', Inr ()) \<and> schema_ok (pg_db pd) \<and> job_of (pg_db pd') i = Some j \<longrightarrow>
      (\<exists>d. (deadLetter_select (deadLetter_args i n m) (jobs_row j) \<bind>
          insert_row (dead_letter_queue_defaults (pg_now pd)) deadLetter_columns) = Some (dead_letter_queue_row d) \<and>
        map dead_letter_queue_row (dead_letter_queue (pg_db pd')) =
          (if row_by dlq_job_id i (dead_letter_queue (pg_db pd)) = None
           then map dead_letter_queue_row (dead_letter_queue (pg_db pd)) @ [dead_letter_queue_row d]
           else map (\<lambda>x. if dlq_job_id x = i then take_excluded deadLetter_excluded (dead_letter_queue_row d) (dead_letter_queue_row x)
                  else dead_letter_queue_row x) (dead_letter_queue (pg_db pd))))) \<and>
   (\<forall>j. select_columns jobColumns (jobs_row j) \<bind> scanJob = Some j) \<and>
   (\<forall>sc. select_columns scheduleColumns (job_schedules_row sc) \<bind> scan_schedule = Some sc) \<and>
   (\<forall>t. select_columns tenant_columns (tenants_row t) \<bind> scan_tenant = Some t) \<and>
   (\<forall>u. select_columns user_columns (users_row u) \<bind> scan_user = Some u \<and>
      select_columns session_user_columns (users_row u) \<bind> scan_user = Some u) \<and>
   (\<forall>k. select_columns created_key_columns (api_keys_row k) \<bind> scan_created_key = Some k \<and>
      select_columns listed_key_columns (api_keys_row k) \<bind> scan_listed_key = Some (k\<lparr>key_KeyHash := []\<rparr>) \<and>
      select_columns key_owner_columns (api_keys_row k) \<bind> scan_key_owner = Some (key_TenantID k, key_ID k)) \<and>
   (JobMetrics G pm tm = (pm', Inr metrics) \<longrightarrow> scan_metrics (metrics_select G tm pm) = Some metrics) \<and>
   (StatusCounts G pc tc = (pc', Inr counts) \<longrightarrow>
      map_option (\<lambda>rows. count_rows rows Map.empty 0) (those (map scan_status_count (status_select G tc pc))) = Some counts)"
  by (intro conjI allI impI scan_job_row scan_schedule_row scan_account_rows)
    (blast dest: CreateJob_columns, blast dest: CreateJob_columns, blast dest: CreateAccount_columns, blast dest: CreateAccount_columns,
     blast dest: CreateAccount_columns, blast dest: CreateAccount_columns, blast dest: CreateSession_columns,
     blast dest: CreateAPIKey_columns, blast dest: CreateAPIKey_columns, blast dest: DeadLetter_columns,
     blast dest: scan_aggregates(1), blast dest: scan_aggregates(2))

theorem rows_scan_back_witness:
  "(insert_row (jobs_defaults 9 (100 * second)) insertJob_columns
      (insertJob_args ((applyDefaults 7 demo_request)\<lparr>job_Payload := Some (JObj [])\<rparr>)) \<bind> select_columns jobColumns) \<bind> scanJob = Some demo_row \<and>
   (\<exists>p1 t u p2 s. CreateAccount demo_start_pg 30 31 ''ann@acme.io'' ''$hash'' = (p1, Inr (t, u)) \<and>
      (insert_row (users_defaults 31 (100 * second)) insertUser_columns (insertUser_args (tenant_ID t) ''ann@acme.io'' ''$hash'') \<bind>
        select_columns user_columns) \<bind> scan_user = Some u \<and>
      CreateSession p1 40 (user_ID u) ''token'' (900 * second) = (p2, Inr ()) \<and> sessions (pg_db p2) = sessions (pg_db p1) @ [s] \<and>
      sess_token_hash s = ''token'') \<and>
   (\<exists>p1 k. CreateAPIKey demo_start_pg 32 1 ''ci'' ''key'' ''dk_ci'' = (p1, Inr k) \<and>
      (insert_row (api_keys_defaults 32 (100 * second)) insertKey_columns (insertKey_args 1 ''ci'' ''key'' ''dk_ci'') \<bind>
        select_columns created_key_columns) \<bind> scan_created_key = Some k) \<and>
   (\<exists>p1 d. DeadLetter demo_admitted_pg 7 3 ''boom'' = (p1, Inr ()) \<and>
      map dead_letter_queue_row (dead_letter_queue (pg_db p1)) = [dead_letter_queue_row d]) \<and>
   (\<exists>p1 m p2 counts. JobMetrics demo_aggregates demo_start_pg 1 = (p1, Inr m) \<and> scan_metrics (metrics_select demo_aggregates 1 demo_start_pg) = Some m \<and>
      StatusCounts demo_aggregates demo_admitted_pg 1 = (p2, Inr counts) \<and> map_option (\<lambda>rows. count_rows rows Map.empty 0)
        (those (map scan_status_count (status_select demo_aggregates 1 demo_admitted_pg))) = Some counts)"
proof (intro conjI)
  have now: "pg_now demo_start_pg = 100 * second" by (simp add: demo_start_pg_def)
  show "(insert_row (jobs_defaults 9 (100 * second)) insertJob_columns
      (insertJob_args ((applyDefaults 7 demo_request)\<lparr>job_Payload := Some (JObj [])\<rparr>)) \<bind> select_columns jobColumns) \<bind> scanJob = Some demo_row"
    using rows_scan_back [THEN conjunct1, rule_format, OF start_CreateJob, of 9] by (simp add: demo_start_pg_def)
  obtain p1 t u where a: "CreateAccount demo_start_pg 30 31 ''ann@acme.io'' ''$hash'' = (p1, Inr (t, u))"
    by (simp add: CreateAccount_def healthy_simps demo_start_pg_def demo_start_db_def insert_tenant_def insert_user_def Let_def
        demo_acme_def demo_globex_def)
  note account = rows_scan_back [THEN conjunct2, THEN conjunct1, rule_format, OF a]
  have "accounts_up (100 * second) p1" "pg_text_ok p1 x" for x
    using CreateAccount_up [OF demo_pg_up(1), of 30 31 "''ann@acme.io''" "''$hash''"] a by simp_all
  moreover have "sessions (pg_db p1) = []"
    using CreateAccount_ok [OF a] by (auto simp: with_account_def demo_start_pg_def demo_start_db_def)
  ultimately obtain p2 where b: "CreateSession p1 40 (user_ID u) ''token'' (900 * second) = (p2, Inr ())"
    using account by (simp add: CreateSession_def accounts_up_def exec_healthy insert_session_def)
  from rows_scan_back [THEN conjunct2, THEN conjunct2, THEN conjunct1, rule_format, OF b] a account
  show "\<exists>p1 t u p2 s. CreateAccount demo_start_pg 30 31 ''ann@acme.io'' ''$hash'' = (p1, Inr (t, u)) \<and>
      (insert_row (users_defaults 31 (100 * second)) insertUser_columns (insertUser_args (tenant_ID t) ''ann@acme.io'' ''$hash'') \<bind>
        select_columns user_columns) \<bind> scan_user = Some u \<and>
      CreateSession p1 40 (user_ID u) ''token'' (900 * second) = (p2, Inr ()) \<and> sessions (pg_db p2) = sessions (pg_db p1) @ [s] \<and>
      sess_token_hash s = ''token''" using b by (auto simp: now)
  obtain p3 k where "CreateAPIKey demo_start_pg 32 1 ''ci'' ''key'' ''dk_ci'' = (p3, Inr k)"
    by (simp add: CreateAPIKey_def demo_start_pg_def exec_healthy insert_key_def Let_def demo_start_db_def demo_acme_def)
  with rows_scan_back [THEN conjunct2, THEN conjunct2, THEN conjunct2, THEN conjunct1, rule_format, OF this]
  show "\<exists>p1 k. CreateAPIKey demo_start_pg 32 1 ''ci'' ''key'' ''dk_ci'' = (p1, Inr k) \<and>
      (insert_row (api_keys_defaults 32 (100 * second)) insertKey_columns (insertKey_args 1 ''ci'' ''key'' ''dk_ci'') \<bind>
        select_columns created_key_columns) \<bind> scan_created_key = Some k" by (auto simp: now)
  have s: "schema_ok (pg_db demo_admitted_pg)" "healthy demo_admitted_pg" using admitted_schema by (simp_all add: demo_admitted_pg_def demo_start_pg_def)
  then have d: "DeadLetter demo_admitted_pg 7 3 ''boom'' = (demo_admitted_pg\<lparr>pg_db := dead_db demo_admitted_pg 7 3 ''boom''\<rparr>, Inr ())"
    by (intro DeadLetter_healthy) (simp_all add: int4_def demo_admitted_pg_def demo_start_pg_def)
  obtain j where "job_of (dead_db demo_admitted_pg 7 3 ''boom'') 7 = Some j"
    by (simp add: dead_db_def demo_admitted_pg_def job_of_put_job failed_def set_updated_at_def)
  with rows_scan_back [THEN conjunct2, THEN conjunct2, THEN conjunct2, THEN conjunct2, THEN conjunct1, rule_format, of demo_admitted_pg 7 3 "''boom''"] d s
  show "\<exists>p1 d. DeadLetter demo_admitted_pg 7 3 ''boom'' = (p1, Inr ()) \<and>
      map dead_letter_queue_row (dead_letter_queue (pg_db p1)) = [dead_letter_queue_row d]"
    by (auto simp: demo_admitted_pg_def demo_start_db_def)
  obtain m counts where m: "JobMetrics demo_aggregates demo_start_pg 1 = (demo_start_pg, Inr m)"
    and c: "StatusCounts demo_aggregates demo_admitted_pg 1 = (demo_admitted_pg, Inr counts)"
    using s(2) by (simp add: JobMetrics_def StatusCounts_def exec_healthy demo_start_simps metrics_stmt_def status_stmt_def Let_def)
  note numbers = rows_scan_back [THEN conjunct2, THEN conjunct2, THEN conjunct2, THEN conjunct2, THEN conjunct2, THEN conjunct2,
      THEN conjunct2, THEN conjunct2, THEN conjunct2, THEN conjunct2]
  from numbers [THEN conjunct1, rule_format, OF m] numbers [THEN conjunct2, rule_format, OF c] m c
  show "\<exists>p1 m p2 counts. JobMetrics demo_aggregates demo_start_pg 1 = (p1, Inr m) \<and> scan_metrics (metrics_select demo_aggregates 1 demo_start_pg) = Some m \<and>
      StatusCounts demo_aggregates demo_admitted_pg 1 = (p2, Inr counts) \<and> map_option (\<lambda>rows. count_rows rows Map.empty 0)
        (those (map scan_status_count (status_select demo_aggregates 1 demo_admitted_pg))) = Some counts" by blast
qed

subsection \<open>The answers\<close>

text \<open>C32: What an answer tells: when distinct times and ids print differently, two pages of jobs have the same document
  only when they are the same page, and two users, or two lists of API keys, have the same document exactly when
  they differ in nothing but the password hash and the key hashes. So a client reads everything else off the
  answer, and nothing about the hashes.\<close>

theorem documents_hide_only_hashes:
  assumes "uuid_codec U" and "inj (pr_time F)" and "\<forall>j \<in> set (jl_Jobs l) \<union> set (jl_Jobs l'). job_Payload j \<noteq> None"
  shows "(encode F U (Job_list_body l) = encode F U (Job_list_body l')) = (l = l') \<and>
    (encode F U (Me_body u t) = encode F U (Me_body v t')) =
      (t = t' \<and> u\<lparr>user_PasswordHash := []\<rparr> = v\<lparr>user_PasswordHash := []\<rparr>) \<and>
    (encode F U (Key_list_body ks) = encode F U (Key_list_body ks')) =
      (map (\<lambda>k. k\<lparr>key_KeyHash := []\<rparr>) ks = map (\<lambda>k. k\<lparr>key_KeyHash := []\<rparr>) ks')"
proof (intro conjI)
  have "map (enc_Job F U) (jl_Jobs l) = map (enc_Job F U) (jl_Jobs l') \<longleftrightarrow> jl_Jobs l = jl_Jobs l'"
    using assms(3) enc_Job_inject [OF assms(1,2)] by (intro inj_on_map_eq_map inj_onI) auto
  then show "(encode F U (Job_list_body l) = encode F U (Job_list_body l')) = (l = l')"
    by (cases l; cases l') (auto simp: enc_jobList_def)
  show "(encode F U (Me_body u t) = encode F U (Me_body v t')) =
      (t = t' \<and> u\<lparr>user_PasswordHash := []\<rparr> = v\<lparr>user_PasswordHash := []\<rparr>)"
    using enc_User_iff [OF assms(1,2)] enc_Tenant_inject [OF assms(1,2)] by auto
  have "map (enc_APIKey F U) ks = map (enc_APIKey F U) ks' \<longleftrightarrow> map (\<lambda>k. k\<lparr>key_KeyHash := []\<rparr>) ks = map (\<lambda>k. k\<lparr>key_KeyHash := []\<rparr>) ks'"
    unfolding list_eq_iff_nth_eq using enc_APIKey_iff [OF assms(1,2)] by auto
  then show "(encode F U (Key_list_body ks) = encode F U (Key_list_body ks')) =
      (map (\<lambda>k. k\<lparr>key_KeyHash := []\<rparr>) ks = map (\<lambda>k. k\<lparr>key_KeyHash := []\<rparr>) ks')" by simp
qed

definition demo_printers :: printers where
  "demo_printers = \<lparr>pr_time = Itoa, pr_float = (\<lambda>_. ''0''), pr_quote = (\<lambda>s. s)\<rparr>"

definition demo_user :: "string \<Rightarrow> user" where
  "demo_user hash = \<lparr>user_ID = 31, user_TenantID = 1, user_Email = ''ada@acme.io'', user_PasswordHash = hash, user_CreatedAt = 0\<rparr>"

theorem documents_hide_only_hashes_witness:
  "encode demo_printers bits_uuid (Me_body (demo_user ''h1'') demo_acme) = encode demo_printers bits_uuid (Me_body (demo_user ''h2'') demo_acme) \<and>
   encode demo_printers bits_uuid (Me_body (demo_user ''h1'') demo_acme) \<noteq> encode demo_printers bits_uuid (Me_body (demo_user ''h1'') demo_globex)"
proof -
  have "inj (pr_time demo_printers)" by (auto simp: demo_printers_def inj_def Itoa_inject)
  moreover have "demo_acme \<noteq> demo_globex" by (simp add: demo_acme_def demo_globex_def)
  moreover have "uuid_codec bits_uuid" by (rule bits.uuid_codec_axioms)
  ultimately show ?thesis
    using documents_hide_only_hashes [of bits_uuid demo_printers "\<lparr>jl_Jobs = [], jl_Total = 0, jl_Limit = 20, jl_Offset = 0\<rparr>"
        "\<lparr>jl_Jobs = [], jl_Total = 0, jl_Limit = 20, jl_Offset = 0\<rparr>"]
    by (simp add: demo_user_def del: encode.simps)
qed

text \<open>C33: Every answer is the one its endpoint documents: whatever is asked of the API process, in any state and on any
  network, the answer of a route is its own success status with a document of its own kind (a user for sign-up and
  login, a page for the listing, a job for the other job endpoints, and so on; none for logout and key deletion), or one
  of its error statuses with the document whose single member is \<open>error\<close>; the health report is 503 exactly when it
  names a service that is down. An unknown path is 404, a wrong method 405, in the same error shape, and a preflight is
  an empty 204. So, the health report aside, a status of 400 or more and an error document come together. (A worker scan
  that never ends is no answer.)\<close>

theorem answers_have_one_error_shape:
  assumes "serve_mux cfg A (Request i target r) p c = (p', c', Answer h rs)"
  shows "(if rq_Method r = ''OPTIONS'' then rs_Status rs = 204 \<and> encode F U (rs_Body rs) = None
    else case target of
        Routed rt \<Rightarrow> regular F U rt rs
      | No_route \<Rightarrow> rs_Status rs = 404 \<and> encode F U (rs_Body rs) = Some (errorResponse ''resource not found'')
      | Wrong_method \<Rightarrow> rs_Status rs = 405 \<and> encode F U (rs_Body rs) = Some (errorResponse ''method not allowed'')) \<and>
    (target \<noteq> Routed GET_healthz \<longrightarrow> (400 \<le> rs_Status rs \<longleftrightarrow> (\<exists>msg. encode F U (rs_Body rs) = Some (errorResponse msg))))"
proof (cases "rq_Method r = ''OPTIONS''")
  case True
  with assms show ?thesis by (auto simp: CORS_def Let_def)
next
  case False
  with assms have served: "chi_router A i target p c r = (p', c', rs)" by (auto simp: CORS_def Let_def split: prod.splits)
  show ?thesis
  proof (cases target)
    case (Routed rt)
    with served have "regular F U rt rs" by (auto intro: router_regular)
    with regular_error [OF this] Routed False show ?thesis by simp
  qed (use served False in \<open>auto simp: notFound_def methodNotAllowed_def\<close>)
qed

theorem answers_have_one_error_shape_witness:
  "(\<exists>p' h rs u. serve_mux (Load Map.empty) demo_api (Request demo_input (Routed POST_signup) demo_signup) demo_start_pg demo_start_conn =
       (p', demo_start_conn, Answer h rs) \<and> rs_Status rs = 201 \<and> encode demo_printers bits_uuid (rs_Body rs) = Some (enc_User demo_printers bits_uuid u)) \<and>
   (\<exists>h rs. serve_mux (Load Map.empty) demo_api (Request demo_input No_route demo_http) demo_start_pg demo_start_conn =
       (demo_start_pg, demo_start_conn, Answer h rs) \<and> rs_Status rs = 404 \<and>
     encode demo_printers bits_uuid (rs_Body rs) = Some (errorResponse ''resource not found''))"
proof -
  have m: "rq_Method demo_http = ''POST''" "rq_Method demo_signup = ''POST''" by (simp_all add: demo_http_def demo_signup_def)
  obtain p' rs where "signup demo_api demo_input demo_start_pg demo_start_conn demo_signup = (p', demo_start_conn, rs)" and ok: "rs_Status rs = 201"
    using demo_signup_created by blast
  then obtain h where a: "serve_mux (Load Map.empty) demo_api (Request demo_input (Routed POST_signup) demo_signup) demo_start_pg demo_start_conn =
       (p', demo_start_conn, Answer h rs)" by (simp add: CORS_def m Let_def)
  obtain h' where b: "serve_mux (Load Map.empty) demo_api (Request demo_input No_route demo_http) demo_start_pg demo_start_conn =
       (demo_start_pg, demo_start_conn, Answer h' (writeError 404 ''resource not found''))"
    by (simp add: CORS_def notFound_def m Let_def)
  from answers_have_one_error_shape [OF a, of demo_printers bits_uuid] answers_have_one_error_shape [OF b, of demo_printers bits_uuid] a b ok m
  show ?thesis by (auto simp: regular_def)
qed

subsection \<open>The dashboard and the gauges\<close>

text \<open>C28: The dashboard adds up, on any network: an answer 200 shows one total per known status and no other, each
  the number of the tenant's jobs in it; together they are all of the tenant's jobs (every stored status is a
  known one in every reachable state); today's count and the ten newest jobs are the tenant's own; nothing
  is written.\<close>

theorem dashboard_adds_up:
  assumes "dashboard G p c r = (p', c', rs)" and "rs_Status rs = 200"
    and "\<And>j. j \<in> set (jobs (pg_db p)) \<Longrightarrow> Valid (job_Status j)"
  shows "\<exists>t d. rq_tenant r = Some t \<and> rs_Body rs = Dashboard_body d \<and>
    (\<forall>st. map_of (dr_TotalsByStatus d) st = (if Valid st then Some (tenant_count (pg_db p) t (\<lambda>j. job_Status j = st)) else None)) \<and>
    sum_list (map snd (dr_TotalsByStatus d)) = tenant_count (pg_db p) t (\<lambda>_. True) \<and>
    dr_JobsToday d = tenant_count (pg_db p) t (\<lambda>j. date_trunc_day G (pg_now p) \<le> job_CreatedAt j) \<and>
    dr_RecentJobs d = take 10 (sort_key (\<lambda>j. - job_CreatedAt j) (filter (\<lambda>j. job_TenantID j = t) (jobs (pg_db p)))) \<and>
    pg_db p' = pg_db p"
proof -
  from assms(1,2) obtain t counts today where t: "rq_tenant r = Some t" and s: "snd (StatusCounts G p t) = Inr (counts, today)"
    and b: "rs_Body rs = Dashboard_body \<lparr>dr_TotalsByStatus = fill_totals AllStatuses counts [], dr_JobsToday = today,
       dr_RecentJobs = take 10 (sort_key (\<lambda>j. - job_CreatedAt j) (filter (\<lambda>j. job_TenantID j = t) (jobs (pg_db p))))\<rparr>"
    by (rule dashboard_ok)
  have "StatusCounts G p t = (fst (StatusCounts G p t), Inr (counts, today))" using s by (simp add: prod_eq_iff)
  note c = StatusCounts_ok [OF this]
  have "sum_list (map snd (fill_totals AllStatuses counts [])) =
      sum_list (map (\<lambda>st. case counts st of None \<Rightarrow> 0 | Some n \<Rightarrow> n) AllStatuses)"
    by (simp add: AllStatuses_def)
  also have "\<dots> = tenant_count (pg_db p) t (\<lambda>_. True)"
    using totals_sum [of "pg_db p" t] assms(3) by (simp add: c(1))
  finally have "sum_list (map snd (fill_totals AllStatuses counts [])) = tenant_count (pg_db p) t (\<lambda>_. True)" .
  moreover have "pg_db p' = pg_db p" using admin_reads [where route = GET_dashboard] assms(1) by fastforce
  ultimately show ?thesis using t b c by (simp add: fill_totals_spec Valid_iff)
qed

theorem dashboard_adds_up_witness:
  "\<exists>p' rs d. dashboard demo_aggregates demo_admitted_pg demo_admitted_conn (demo_http\<lparr>rq_tenant := Some 1\<rparr>) = (p', demo_admitted_conn, rs) \<and>
     rs_Body rs = Dashboard_body d \<and> sum_list (map snd (dr_TotalsByStatus d)) = 1 \<and>
     map_of (dr_TotalsByStatus d) ''pending'' = Some 1"
proof -
  let ?r = "demo_http\<lparr>rq_tenant := Some 1\<rparr>"
  have "\<exists>p' rs. dashboard demo_aggregates demo_admitted_pg demo_admitted_conn ?r = (p', demo_admitted_conn, rs) \<and> rs_Status rs = 200"
    by (simp add: dashboard_def tenantID_def tenantFromContext_def StatusCounts_def exec_healthy status_stmt_def ListJobs_def
        count_stmt_def page_stmt_def list_args_ok_def recentJobsLimit_def Let_def)
  then obtain p' rs where d: "dashboard demo_aggregates demo_admitted_pg demo_admitted_conn ?r = (p', demo_admitted_conn, rs)" "rs_Status rs = 200"
    by blast
  have v: "Valid StatusPending" by (simp add: Valid_iff AllStatuses_def)
  from dashboard_adds_up [OF d] v obtain t x where "t = 1" "rs_Body rs = Dashboard_body x"
    "\<forall>st. map_of (dr_TotalsByStatus x) st = (if Valid st then Some (tenant_count (pg_db demo_admitted_pg) t (\<lambda>j. job_Status j = st)) else None)"
    "sum_list (map snd (dr_TotalsByStatus x)) = tenant_count (pg_db demo_admitted_pg) t (\<lambda>_. True)" by auto
  with d(1) v show ?thesis by (auto simp: tenant_count_def StatusPending_def [symmetric])
qed

text \<open>C29: The statistics of a tenant, on working services: the endpoint always answers; it lists each configured
  queue and each queue the tenant has used once, in order, with the lengths of its two Redis structures, counts
  the live workers and the jobs completed in the last minute; and the failure rate lies between 0 and 1 and
  within 1/19999 of the exact fraction, whatever the floating-point roundings do.\<close>

theorem stats_report:
  assumes "redis_server R" and "r_net c = []" and "healthy p" and "rq_tenant r = Some t"
    and "n_done = tenant_count (pg_db p) t (ended_since StatusCompleted (pg_now p - hour))"
    and "n_dead = tenant_count (pg_db p) t (ended_since StatusFailed (pg_now p - hour))" and "n_done + n_dead < 2 ^ 53"
  shows "\<exists>a. stats R G queues p c r = (p, c, writeJSON 200 (Stats_body a)) \<and>
    sorted (map qd_Queue (sr_Queues a)) \<and> distinct (map qd_Queue (sr_Queues a)) \<and>
    qd_Queue ` set (sr_Queues a) = set queues \<union> job_QueueName ` {j \<in> set (jobs (pg_db p)). job_TenantID j = t} - {[]} \<and>
    sr_Queues a = map (depth_of R c) (map qd_Queue (sr_Queues a)) \<and>
    sr_ActiveWorkers a = int (card (live_keys R (r_srv c) workerKeyPrefix (r_now c))) \<and>
    sr_ProcessingRatePerMin a = tenant_count (pg_db p) t (ended_since StatusCompleted (pg_now p - minute)) \<and>
    0 \<le> sr_FailureRate a \<and> sr_FailureRate a \<le> 1 \<and> \<bar>sr_FailureRate a - of_int n_dead / of_int (n_done + n_dead)\<bar> \<le> 1 / 19999"
proof -
  let ?qs = "mergeUnique queues (sort (remdups (map job_QueueName (filter (\<lambda>j. job_TenantID j = t) (jobs (pg_db p))))))"
  obtain m where m: "JobMetrics G p t = (p, Inr m)"
    using assms(3) by (simp add: JobMetrics_def exec_healthy metrics_stmt_def Let_def)
  let ?a = "stats_response (map (depth_of R c) ?qs) m (int (card (live_keys R (r_srv c) workerKeyPrefix (r_now c))))"
  note k = metrics_ok [OF m]
  have s: "stats R G queues p c r = (p, c, writeJSON 200 (Stats_body ?a))"
    using redis_server.stats_healthy [OF assms(1-4), of G queues] m by simp
  have q: "map qd_Queue (sr_Queues ?a) = ?qs" by (simp add: stats_response_def comp_def depth_of_def)
  have "0 \<le> mt_CompletedLastHour m" "0 \<le> mt_FailedLastHour m" "mt_CompletedLastHour m + mt_FailedLastHour m < 2 ^ 53"
    using k assms(5-7) by (simp_all add: tenant_count_def)
  note f = shown_rate [OF this]
  have "qd_Queue ` set (sr_Queues ?a) = set ?qs" using q by (metis set_map)
  then have "qd_Queue ` set (sr_Queues ?a) = set queues \<union> job_QueueName ` {j \<in> set (jobs (pg_db p)). job_TenantID j = t} - {[]}"
    by (simp add: mergeUnique_spec(3))
  moreover have "sorted (map qd_Queue (sr_Queues ?a)) \<and> distinct (map qd_Queue (sr_Queues ?a))"
    unfolding q using mergeUnique_spec(1,2) by blast
  moreover have "sr_Queues ?a = map (depth_of R c) (map qd_Queue (sr_Queues ?a))" unfolding q by (simp add: stats_response_def)
  moreover have "sr_FailureRate ?a = round_places (failure_rate m) 4" "mt_FailedLastHour m = n_dead" "mt_CompletedLastHour m = n_done"
    using k assms(5,6) by (simp_all add: stats_response_def)
  ultimately show ?thesis using s k(1) f by (intro exI [of _ ?a]) (simp add: stats_response_def)
qed

theorem stats_report_witness:
  "\<exists>a. stats ref_redis demo_aggregates [''default'', ''mail''] demo_admitted_pg demo_admitted_conn (demo_http\<lparr>rq_tenant := Some 1\<rparr>) =
      (demo_admitted_pg, demo_admitted_conn, writeJSON 200 (Stats_body a)) \<and>
     qd_Queue ` set (sr_Queues a) = {''default'', ''mail''} \<and> sr_FailureRate a \<le> 1"
proof -
  have le: "tenant_count (pg_db demo_admitted_pg) 1 w \<le> 1" for w by (simp add: tenant_count_def)
  have "tenant_count (pg_db demo_admitted_pg) 1 v + tenant_count (pg_db demo_admitted_pg) 1 w < 2 ^ 53" for v w
    by (rule le_less_trans [OF add_mono [OF le le]]) simp
  from stats_report [OF ref_redis_server _ _ _ refl refl this, of demo_admitted_conn "demo_http\<lparr>rq_tenant := Some 1\<rparr>"
      demo_aggregates "[''default'', ''mail'']"]
  obtain a where a: "stats ref_redis demo_aggregates [''default'', ''mail''] demo_admitted_pg demo_admitted_conn (demo_http\<lparr>rq_tenant := Some 1\<rparr>) =
      (demo_admitted_pg, demo_admitted_conn, writeJSON 200 (Stats_body a))" "sr_FailureRate a \<le> 1"
    "qd_Queue ` set (sr_Queues a) = set [''default'', ''mail''] \<union> job_QueueName ` {j \<in> set (jobs (pg_db demo_admitted_pg)). job_TenantID j = 1} - {[]}"
    by (auto simp: demo_admitted_conn_def demo_start_conn_def)
  moreover have "{j \<in> set (jobs (pg_db demo_admitted_pg)). job_TenantID j = 1} = {demo_row}" by auto
  ultimately show ?thesis by auto
qed

text \<open>C30: A scrape agrees with the statistics, on working services and in any order of the map: each queue that is
  configured or used by any tenant gets exactly one depth gauge with the length of its work list; so every queue
  in the answer of the stats endpoint to any tenant has a gauge, with the same number; and the workers gauge shows
  the same count. Nothing is written.\<close>

theorem gauges_match_stats:
  assumes "redis_server R" and "r_net c = []" and "healthy p" and "rq_tenant r = Some t" and "mset (rng m) = mset m"
    and "m = map (\<lambda>q. (q, int (length (queued R c q)))) (mergeQueues queues (sort (remdups (map job_QueueName (jobs (pg_db p))))))"
  shows "\<exists>samples a. Collect R queues rng p c = (p, c, samples @ [Gauge workersDesc (f64_of_int (sr_ActiveWorkers a)) []]) \<and>
    mset samples = image_mset (\<lambda>q. Gauge depthDesc (f64_of_int (int (length (queued R c q)))) [q])
      (mset_set (set queues \<union> job_QueueName ` set (jobs (pg_db p)) - {[]})) \<and>
    stats R G queues p c r = (p, c, writeJSON 200 (Stats_body a)) \<and>
    (\<forall>d \<in> set (sr_Queues a). Gauge depthDesc (f64_of_int (qd_Depth d)) [qd_Queue d] \<in> set samples)"
proof -
  let ?all = "mergeQueues queues (sort (remdups (map job_QueueName (jobs (pg_db p)))))"
  let ?g = "\<lambda>(q, n). Gauge depthDesc (f64_of_int n) [q]"
  let ?samples = "map ?g (rng m)"
  have all: "distinct ?all" "set ?all = set queues \<union> job_QueueName ` set (jobs (pg_db p)) - {[]}"
    by (simp_all add: mergeQueues_spec)
  have "mset ?samples = image_mset ?g (mset m)" using assms(5) by simp
  also have "\<dots> = image_mset (\<lambda>q. Gauge depthDesc (f64_of_int (int (length (queued R c q)))) [q]) (mset ?all)"
    unfolding assms(6) by (simp add: multiset.map_comp comp_def)
  also have "mset ?all = mset_set (set ?all)" using all(1) by (simp add: mset_set_set)
  finally have ms: "mset ?samples = image_mset (\<lambda>q. Gauge depthDesc (f64_of_int (int (length (queued R c q)))) [q])
      (mset_set (set queues \<union> job_QueueName ` set (jobs (pg_db p)) - {[]}))" unfolding all(2) .
  obtain a where a: "stats R G queues p c r = (p, c, writeJSON 200 (Stats_body a))"
    "sr_ActiveWorkers a = int (card (live_keys R (r_srv c) workerKeyPrefix (r_now c)))"
    "sr_Queues a = map (depth_of R c) (mergeUnique queues (sort (remdups (map job_QueueName (filter (\<lambda>j. job_TenantID j = t) (jobs (pg_db p)))))))"
    using redis_server.stats_healthy [OF assms(1-4), of G queues] by (auto simp: stats_response_def)
  have "Gauge depthDesc (f64_of_int (qd_Depth d)) [qd_Queue d] \<in> set ?samples" if "d \<in> set (sr_Queues a)" for d
  proof -
    from that a(3) obtain q where q: "d = depth_of R c q" "q \<in> set ?all" by (auto simp: mergeUnique_spec(3) all(2))
    then have "(q, int (length (queued R c q))) \<in># mset m" unfolding assms(6) by simp
    with assms(5) have "(q, int (length (queued R c q))) \<in> set (rng m)" by (metis set_mset_mset)
    with q(1) show ?thesis by (force simp: depth_of_def)
  qed
  moreover have "Collect R queues rng p c = (p, c, ?samples @ [Gauge workersDesc (f64_of_int (sr_ActiveWorkers a)) []])"
    using redis_server.Collect_healthy [OF assms(1-3), of queues rng] a(2) by (simp only: assms(6))
  ultimately show ?thesis using ms a(1) by blast
qed

theorem gauges_match_stats_witness:
  "\<exists>samples a. Collect ref_redis [''default''] rev demo_admitted_pg demo_admitted_conn =
      (demo_admitted_pg, demo_admitted_conn, samples @ [Gauge workersDesc (f64_of_int (sr_ActiveWorkers a)) []]) \<and>
     stats ref_redis demo_aggregates [''default''] demo_admitted_pg demo_admitted_conn (demo_http\<lparr>rq_tenant := Some 1\<rparr>) =
       (demo_admitted_pg, demo_admitted_conn, writeJSON 200 (Stats_body a)) \<and>
     Gauge depthDesc (f64_of_int 1) [''default''] \<in> set samples"
proof -
  have q: "queued ref_redis demo_admitted_conn ''default'' = [uuid_String bits_uuid 7]"
    by (simp add: queued_def demo_admitted_conn_def ref.lrange_lpush) (simp add: ref_redis_def empty_keyspace_def)
  have n: "r_net demo_admitted_conn = []" by (simp add: demo_admitted_conn_def demo_start_conn_def)
  from gauges_match_stats [OF ref_redis_server n _ _ _ refl, of demo_admitted_pg "demo_http\<lparr>rq_tenant := Some 1\<rparr>" 1 rev "[''default'']" demo_aggregates]
  obtain samples a where s: "Collect ref_redis [''default''] rev demo_admitted_pg demo_admitted_conn =
      (demo_admitted_pg, demo_admitted_conn, samples @ [Gauge workersDesc (f64_of_int (sr_ActiveWorkers a)) []])"
    "stats ref_redis demo_aggregates [''default''] demo_admitted_pg demo_admitted_conn (demo_http\<lparr>rq_tenant := Some 1\<rparr>) =
       (demo_admitted_pg, demo_admitted_conn, writeJSON 200 (Stats_body a))"
    "mset samples = image_mset (\<lambda>q. Gauge depthDesc (f64_of_int (int (length (queued ref_redis demo_admitted_conn q)))) [q])
      (mset_set (set [''default''] \<union> job_QueueName ` set (jobs (pg_db demo_admitted_pg)) - {[]}))"
    by auto
  have "set [''default''] \<union> job_QueueName ` set (jobs (pg_db demo_admitted_pg)) - {[]} = {''default''}" by auto
  with s(3) q have "Gauge depthDesc (f64_of_int 1) [''default''] \<in># mset samples" by simp
  with s(1,2) show ?thesis by auto
qed

subsection \<open>Migrations\<close>

text \<open>C17: Migrations can be run again until they succeed. Whatever the network does to a run, it leaves the database
  as if some of the sorted files had been applied completely, in order, and no other, and recorded each once. After
  any number of such runs, a run on a working connection ends exactly as it would have on the first try. A run
  that reports success has recorded every file, and repeating it changes nothing.\<close>

theorem migrate_resumes:
  assumes "Migrate run files \<lparr>m_db = d, m_net = fs\<rparr> = (c', res)"
  shows "(\<exists>k. apply_missing run (map_of files) (take k (sort (Glob_up files))) (with_table d) = Some (with_table (m_db c'))) \<and>
    Migrate run files \<lparr>m_db = attempts run files fss d, m_net = []\<rparr> = Migrate run files \<lparr>m_db = d, m_net = []\<rparr> \<and>
    (res = Inr () \<longrightarrow> (\<forall>n \<in> set (Glob_up files). version_of n \<in> applied (m_db c')) \<and>
       Migrate run files \<lparr>m_db = m_db c', m_net = []\<rparr> = (\<lparr>m_db = m_db c', m_net = []\<rparr>, Inr ())) \<and>
    (\<forall>vs. m_versions d = Some vs \<and> distinct vs \<longrightarrow> (\<exists>ws. m_versions (m_db c') = Some (vs @ ws) \<and> distinct (vs @ ws)))"
proof (intro conjI impI allI)
  from Migrate_prefix [OF assms] obtain k where
    k: "apply_missing run (map_of files) (take k (sort (Glob_up files))) (with_table d) = Some (with_table (m_db c'))" by auto
  then show "\<exists>k. apply_missing run (map_of files) (take k (sort (Glob_up files))) (with_table d) = Some (with_table (m_db c'))" ..
  show "Migrate run files \<lparr>m_db = attempts run files fss d, m_net = []\<rparr> = Migrate run files \<lparr>m_db = d, m_net = []\<rparr>"
    by (rule resume_attempts)
  show "\<forall>n \<in> set (Glob_up files). version_of n \<in> applied (m_db c')"
    and "Migrate run files \<lparr>m_db = m_db c', m_net = []\<rparr> = (\<lparr>m_db = m_db c', m_net = []\<rparr>, Inr ())" if "res = Inr ()"
    using Migrate_complete [OF assms [unfolded that]] Migrate_complete(2) [OF assms [unfolded that], of "\<lparr>m_db = d, m_net = []\<rparr>"]
    by simp_all
  fix vs assume v: "m_versions d = Some vs \<and> distinct vs"
  with apply_missing_records [OF k, of vs] show "\<exists>ws. m_versions (m_db c') = Some (vs @ ws) \<and> distinct (vs @ ws)"
    using Migrate_keeps_table [OF assms] by auto
qed

definition demo_files :: "(string \<times> string) list" where
  "demo_files = [(''0002_b.up.sql'', ''b''), (''0001_a.up.sql'', ''a''), (''0001_a.down.sql'', ''x'')]"

definition demo_run :: "string \<Rightarrow> string list \<Rightarrow> string list option" where
  "demo_run sql d = (if sql = ''x'' then None else Some (d @ [sql]))"

theorem migrate_resumes_witness:
  "\<exists>c'. Migrate demo_run demo_files \<lparr>m_db = \<lparr>m_versions = None, m_data = []\<rparr>, m_net = []\<rparr> = (c', Inr ()) \<and> m_data (m_db c') = [''a'', ''b''] \<and>
     Migrate demo_run demo_files \<lparr>m_db = attempts demo_run demo_files [[Delivered, Delivered, Lost_reply], [Lost_request]]
       \<lparr>m_versions = None, m_data = []\<rparr>, m_net = []\<rparr> = (c', Inr ())"
proof -
  let ?d = "\<lparr>m_versions = None, m_data = []\<rparr> :: string list mdb"
  have m: "Migrate demo_run demo_files \<lparr>m_db = ?d, m_net = []\<rparr> =
      (\<lparr>m_db = \<lparr>m_versions = Some [''0001_a'', ''0002_b''], m_data = [''a'', ''b'']\<rparr>, m_net = []\<rparr>, Inr ())"
    by code_simp
  from migrate_resumes [OF this, of "[[Delivered, Delivered, Lost_reply], [Lost_request]]"] m show ?thesis by simp
qed

end
