(* ===== verification/Progress.thy ===== *)
theory Progress
  imports Deployment
begin

section \<open>A queued job gets its turn\<close>

text \<open>
  From the queue's order and the worker's loop to progress: on working services a pass over one job leaves every
  other job, the work lists and the networks alone and never panics, so a worker that keeps consuming reaches an id
  after exactly as many passes as there are ids in front of it; and passes that alternate with ticks of the poller
  bring a failing job back until its budget is used.
\<close>

subsection \<open>What a pass leaves alone\<close>

text \<open>\<open>k\<close>: a job the work was not about.\<close>

definition spares :: "'r redis \<Rightarrow> uuid \<Rightarrow> 'r wstate \<Rightarrow> 'r wstate \<Rightarrow> bool" where
  "spares R k s s' \<longleftrightarrow> (\<exists>d. ws_pg s' = (ws_pg s)\<lparr>pg_db := d\<rparr> \<and> schema_ok d \<and> job_of d k = job_of (pg_db (ws_pg s)) k) \<and>
     queued R (ws_conn s') = queued R (ws_conn s) \<and> r_net (ws_conn s') = r_net (ws_conn s)"

lemma spares_refl: "schema_ok (pg_db (ws_pg s)) \<Longrightarrow> spares R k s s"
  by (auto simp: spares_def intro: exI [of _ "pg_db (ws_pg s)"])

lemma spares_trans: "spares R k s s1 \<Longrightarrow> spares R k s1 s2 \<Longrightarrow> spares R k s s2"
  by (auto simp: spares_def)

text \<open>The calls of a pass on another job, on a working database.\<close>

lemma calls_spare:
  assumes "healthy p" and "schema_ok (pg_db p)" and "k' \<noteq> k"
  shows "ClaimJob p k' = (p', a) \<Longrightarrow> \<exists>d. p' = p\<lparr>pg_db := d\<rparr> \<and> schema_ok d \<and> job_of d k = job_of (pg_db p) k"
    and "MarkCompleted p k' res = (p', u) \<Longrightarrow> \<exists>d. p' = p\<lparr>pg_db := d\<rparr> \<and> schema_ok d \<and> job_of d k = job_of (pg_db p) k"
    and "MarkForRetry p k' n m = (p', u) \<Longrightarrow> \<exists>d. p' = p\<lparr>pg_db := d\<rparr> \<and> schema_ok d \<and> job_of d k = job_of (pg_db p) k"
    and "DeadLetter p k' n m = (p', u) \<Longrightarrow> \<exists>d. p' = p\<lparr>pg_db := d\<rparr> \<and> schema_ok d \<and> job_of d k = job_of (pg_db p) k"
proof -
  assume c: "ClaimJob p k' = (p', a)"
  then have "p' = p\<lparr>pg_db := pg_db p'\<rparr>" using assms(1)
    by (cases p) (auto simp: ClaimJob_def exec_healthy split: prod.splits sum.splits option.splits)
  with ClaimJob_db [OF assms(2), of k'] ClaimJob_schema [OF assms(2), of k'] c assms(3)
  show "\<exists>d. p' = p\<lparr>pg_db := d\<rparr> \<and> schema_ok d \<and> job_of d k = job_of (pg_db p) k" by (auto simp: job_of_set_job)
next
  assume c: "MarkCompleted p k' res = (p', u)"
  then have "p' = p\<lparr>pg_db := pg_db p'\<rparr>" using assms(1)
    by (cases p) (auto simp: MarkCompleted_def exec_healthy split: prod.splits sum.splits)
  with MarkCompleted_db [OF assms(2), of k' res] MarkCompleted_schema [OF assms(2), of k' res] c assms(3)
  show "\<exists>d. p' = p\<lparr>pg_db := d\<rparr> \<and> schema_ok d \<and> job_of d k = job_of (pg_db p) k" by (auto simp: job_of_set_job)
next
  assume c: "MarkForRetry p k' n m = (p', u)"
  then have "p' = p\<lparr>pg_db := pg_db p'\<rparr>" using assms(1)
    by (cases p) (auto simp: MarkForRetry_def exec_healthy split: prod.splits sum.splits)
  with MarkForRetry_db [OF assms(2), of k' n m] MarkForRetry_schema [OF assms(2), of k' n m] c assms(3)
  show "\<exists>d. p' = p\<lparr>pg_db := d\<rparr> \<and> schema_ok d \<and> job_of d k = job_of (pg_db p) k" by (auto simp: job_of_set_job)
next
  assume c: "DeadLetter p k' n m = (p', u)"
  then have "p' = p\<lparr>pg_db := pg_db p'\<rparr>" using assms(1)
    by (cases p) (auto simp: DeadLetter_def healthy_simps split: prod.splits sum.splits)
  with DeadLetter_db [OF assms(2), of k' n m] DeadLetter_schema [OF assms(2), of k' n m] c assms(3)
  show "\<exists>d. p' = p\<lparr>pg_db := d\<rparr> \<and> schema_ok d \<and> job_of d k = job_of (pg_db p) k" by (auto simp: job_of_dead_db)
qed

lemma delay_spares:
  assumes "redis_server R" and "r_net c = []" and "EnqueueDelayed R c q x t = (c', u)"
  shows "queued R c' = queued R c" "r_net c' = []"
  using redis_server.EnqueueDelayed_effect(1) [OF assms(1,2), of q x t] assms(2,3)
  by (auto simp: EnqueueDelayed_def redis_do_healthy split: prod.splits)

lemma handleFailure_spares:
  assumes "redis_server (we_R E)" and "healthy (ws_pg s)" and "r_net (ws_conn s) = []" and "schema_ok (pg_db (ws_pg s))"
    and "job_ID job \<noteq> k" and "0 \<le> job_RetryCount job" and "int4 (job_RetryCount job)" and "handleFailure E i s job e = (s', r)"
  shows "spares (we_R E) k s s' \<and> r \<noteq> Inl Panic"
proof -
  let ?n = "wrap64 (job_RetryCount job + 1)"
  obtain b where b: "backoffFor (word_of_int ?n) = Some b" using backoffFor_attempts [OF assms(6,7)] by blast
  obtain p u where d: "DeadLetter (ws_pg s) (job_ID job) ?n (we_Error E e) = (p, u)" by force
  obtain p1 u1 where m: "MarkForRetry (ws_pg s) (job_ID job) ?n (we_Error E e) = (p1, u1)" by force
  obtain c v where q: "EnqueueDelayed (we_R E) (ws_conn s) (job_QueueName job)
      (uuid_String (we_U E) (job_ID job)) (wi_now i + sint b) = (c, v)" by force
  show ?thesis
  proof (cases "?n \<ge> job_MaxRetries job")
    case True
    with assms(8) d have "ws_pg s' = p" "ws_conn s' = ws_conn s" "r \<noteq> Inl Panic"
      by (auto simp: handleFailure_def Let_def split: sum.splits)
    with calls_spare(4) [OF assms(2,4,5) d] show ?thesis by (auto simp: spares_def)
  next
    case False
    with assms(8) m q b have "ws_pg s' = p1" "ws_conn s' \<in> {ws_conn s, c}" "r \<noteq> Inl Panic"
      by (auto simp: handleFailure_def Let_def split: sum.splits)
    with calls_spare(3) [OF assms(2,4,5) m] delay_spares [OF assms(1,3) q] assms(3) show ?thesis by (auto simp: spares_def)
  qed
qed

lemma process_spares:
  assumes "redis_server (we_R E)" and "healthy (ws_pg s)" and "r_net (ws_conn s) = []" and "rows_ok (pg_db (ws_pg s))"
    and "uuid_Parse (we_U E) x = Some k'" and "k' \<noteq> k" and "process E i s x = (s', r)"
  shows "spares (we_R E) k s s' \<and> r \<noteq> Inl Panic"
proof -
  note sch = rows_okD(1) [OF assms(4)]
  obtain p a where c: "ClaimJob (ws_pg s) k' = (p, a)" by force
  from calls_spare(1) [OF assms(2) sch assms(6) c] obtain d
    where d: "p = (ws_pg s)\<lparr>pg_db := d\<rparr>" "schema_ok d" "job_of d k = job_of (pg_db (ws_pg s)) k" by blast
  show ?thesis
  proof (cases a)
    case (Inl e)
    with assms(5,7) c d show ?thesis by (auto simp: process_def spares_def split: if_splits)
  next
    case (Inr job)
    let ?s1 = "s\<lparr>ws_pg := p, ws_metrics := ObserveLatency (job_JobType job) (wi_elapsed i) (ws_metrics s)\<rparr>"
    have one: "spares (we_R E) k s ?s1" using d by (auto simp: spares_def)
    from ClaimJob_ok(1) [OF sch] c Inr obtain j where j: "job_of (pg_db (ws_pg s)) k' = Some j"
      "job = set_updated_at (pg_now (ws_pg s)) (claimed (pg_now (ws_pg s)) j)"
      by (fastforce simp: set_row_def split: option.splits if_splits)
    have job: "job_ID job = k'" "0 \<le> job_RetryCount job" "int4 (job_RetryCount job)"
      using j job_of_ID [OF j(1)] rows_okD(2) [OF assms(4) j(1)] row_int4 [OF sch j(1)]
      by (simp_all add: row_ok_def claimed_def)
    have s1: "healthy (ws_pg ?s1)" "r_net (ws_conn ?s1) = []" "schema_ok (pg_db (ws_pg ?s1))"
      using assms(2,3) d by simp_all
    show ?thesis
    proof (cases "Dispatch (we_f64 E) (wi_henv i) (we_registry E) (job_JobType job) (job_Payload job)")
      case (Inl e)
      with assms(5,7) c Inr have "handleFailure E i ?s1 job e = (s', r)" by (simp add: process_def)
      from handleFailure_spares [OF assms(1) s1 _ job(2,3) this] assms(6) job(1) one show ?thesis
        by (auto intro: spares_trans)
    next
      case D: (Inr result)
      obtain q u where m: "MarkCompleted p k' result = (q, u)" by force
      from calls_spare(2) [OF _ _ assms(6) m] s1 obtain d' where "q = p\<lparr>pg_db := d'\<rparr>" "schema_ok d'" "job_of d' k = job_of (pg_db p) k"
        by auto
      with assms(5,7) c Inr D m have "spares (we_R E) k ?s1 s' \<and> r \<noteq> Inl Panic"
        by (cases u) (auto simp: process_def spares_def)
      with one show ?thesis by (auto intro: spares_trans)
    qed
  qed
qed

subsection \<open>Reaching the id\<close>

lemma consume_pass:
  assumes "redis_server (we_R E)" and "r_net (ws_conn t) = []" and "find (\<lambda>q. queued (we_R E) (ws_conn t) q \<noteq> []) queues = Some q"
    and "queued (we_R E) (ws_conn t) q = ys @ [y]"
  obtains c where "queued (we_R E) c = (queued (we_R E) (ws_conn t))(q := ys)" and "r_net c = []"
    and "\<forall>i is t' r. process E i (t\<lparr>ws_conn := c\<rparr>) y = (t', r) \<longrightarrow> r \<noteq> Inl Panic \<longrightarrow>
      consume E queues (i # is) t = consume E queues is t'"
proof -
  note d = redis_server.Dequeue_some [OF assms(1-3)]
  obtain c where c: "Dequeue (we_R E) (ws_conn t) queues = (c, Inr (y, q))"
    using d(1) assms(4) by (metis last_snoc prod.collapse)
  show ?thesis
  proof (rule that)
    show "queued (we_R E) c = (queued (we_R E) (ws_conn t))(q := ys)" "r_net c = []"
      using d(2,4) c assms(4) by simp_all
    show "\<forall>i is t' r. process E i (t\<lparr>ws_conn := c\<rparr>) y = (t', r) \<longrightarrow> r \<noteq> Inl Panic \<longrightarrow>
      consume E queues (i # is) t = consume E queues is t'"
      using c by (auto split: sum.splits process_err.splits)
  qed
qed

lemma find_shrunk:
  assumes "find (\<lambda>q. f q \<noteq> []) qs = Some q" and "ys \<noteq> []"
  shows "find (\<lambda>q'. (f(q := ys)) q' \<noteq> []) qs = Some q"
  using assms unfolding find_Some_iff by fastforce

lemma consume_reaches:
  assumes "redis_server (we_R E)" and "uuid_codec (we_U E)"
  shows "inv E s \<Longrightarrow> sys_pc s w = Idle \<Longrightarrow> agrees t s \<Longrightarrow> healthy (ws_pg t) \<Longrightarrow> r_net (ws_conn t) = [] \<Longrightarrow>
    find (\<lambda>q. queued (we_R E) (ws_conn t) q \<noteq> []) queues = Some q \<Longrightarrow>
    queued (we_R E) (ws_conn t) q = newer @ uuid_String (we_U E) k # rev ahead \<Longrightarrow> uuid_String (we_U E) k \<notin> set ahead \<Longrightarrow>
    length is = length ahead \<Longrightarrow>
    \<exists>t' d. (\<forall>js. consume E queues (is @ js) t = consume E queues js t') \<and>
      ws_pg t' = (ws_pg t)\<lparr>pg_db := d\<rparr> \<and> schema_ok d \<and> job_of d k = job_of (pg_db (ws_pg t)) k \<and> r_net (ws_conn t') = [] \<and>
      queued (we_R E) (ws_conn t') = (queued (we_R E) (ws_conn t))(q := newer @ [uuid_String (we_U E) k])"
proof (induction ahead arbitrary: "is" s t)
  case Nil
  from rows_okD(1) [OF invD(1) [OF Nil.prems(1)]] Nil.prems show ?case
    by (intro exI [of _ t] exI [of _ "pg_db (ws_pg t)"]) (simp add: fun_upd_idem)
next
  case (Cons y ahead)
  let ?x = "uuid_String (we_U E) k" and ?R = "we_R E"
  from Cons.prems(9) obtain i is' where i: "is = i # is'" "length is' = length ahead" by (cases "is") auto
  have last: "queued ?R (ws_conn t) q = (newer @ ?x # rev ahead) @ [y]" using Cons.prems(7) by simp
  from consume_pass [OF assms(1) Cons.prems(5,6) last] obtain c where
    c: "queued ?R c = (queued ?R (ws_conn t))(q := newer @ ?x # rev ahead)" "r_net c = []"
    and pass: "\<forall>i is t' r. process E i (t\<lparr>ws_conn := c\<rparr>) y = (t', r) \<longrightarrow> r \<noteq> Inl Panic \<longrightarrow>
      consume E queues (i # is) t = consume E queues is t'" by blast
  have "y \<in> members ?R (sys_conn s) q" using last Cons.prems(3) by (simp add: members_def)
  then obtain k' where k': "y = uuid_String (we_U E) k'" using invD(3) [OF Cons.prems(1)] by (auto simp: named_def)
  with Cons.prems(8) have ne: "k' \<noteq> k" by auto
  have parse: "uuid_Parse (we_U E) y = Some k'" unfolding k' by (rule uuid_codec.Parse_String [OF assms(2)])
  obtain t2 r where p: "process E i (t\<lparr>ws_conn := c\<rparr>) y = (t2, r)" by force
  have sp: "spares ?R k (t\<lparr>ws_conn := c\<rparr>) t2 \<and> r \<noteq> Inl Panic"
    by (rule process_spares [OF assms(1) _ _ _ parse ne p])
      (use Cons.prems(3,4) c(2) invD(1) [OF Cons.prems(1)] in simp_all)
  then obtain d where d: "ws_pg t2 = (ws_pg t)\<lparr>pg_db := d\<rparr>" "job_of d k = job_of (pg_db (ws_pg t)) k"
    and q2: "queued ?R (ws_conn t2) = (queued ?R (ws_conn t))(q := newer @ ?x # rev ahead)" "r_net (ws_conn t2) = []"
    using c by (auto simp: spares_def)
  have go: "consume E queues (i # js) t = consume E queues js t2" for js using pass p sp by blast
  have "queues \<noteq> []" using Cons.prems(6) by auto
  from consume_path [OF assms(1) this Cons.prems(1,2), of t undefined "[i]"] Cons.prems(3)
  have "steps E undefined s (seen_by t2 s)" by (simp add: go del: consume.simps(2))
  then have "inv E (seen_by t2 s)" by (rule steps_inv [OF assms(1) _ Cons.prems(1)])
  then have "\<exists>t' d'. (\<forall>js. consume E queues (is' @ js) t2 = consume E queues js t') \<and> ws_pg t' = (ws_pg t2)\<lparr>pg_db := d'\<rparr> \<and>
      schema_ok d' \<and> job_of d' k = job_of (pg_db (ws_pg t2)) k \<and> r_net (ws_conn t') = [] \<and>
      queued ?R (ws_conn t') = (queued ?R (ws_conn t2))(q := newer @ [?x])"
    by (rule Cons.IH) (use Cons.prems(2,4,8) d q2 i(2) find_shrunk [OF Cons.prems(6)] in simp_all)
  then obtain t' d' where "\<And>js. consume E queues (is' @ js) t2 = consume E queues js t'" "ws_pg t' = (ws_pg t)\<lparr>pg_db := d'\<rparr>"
    "schema_ok d'" "job_of d' k = job_of (pg_db (ws_pg t)) k" "r_net (ws_conn t') = []"
    "queued ?R (ws_conn t') = (queued ?R (ws_conn t))(q := newer @ [?x])" unfolding q2 fun_upd_upd d(1) using d(2) by auto
  then show ?case by (intro exI [of _ t'] exI [of _ d']) (simp add: i go del: consume.simps(2))
qed

subsection \<open>A submission on working services\<close>

lemma Submit_working:
  assumes "redis_server R" and "healthy p" and "r_net c = []" and "Submit R U fresh p c job = (p', c', job', Inr ())"
  shows "p' = p\<lparr>pg_db := pg_db p'\<rparr>" and "r_net c' = []"
    and "queued R c' = (queued R c)(job_QueueName job' := uuid_String U (job_ID job') # queued R c (job_QueueName job'))"
    and "job_of (pg_db p) (job_ID job') = None" and "job_of (pg_db p') (job_ID job') = Some job'"
    and "job_TenantID job' = job_TenantID job" and "job_Status job = [] \<Longrightarrow> job_Status job' = StatusPending"
proof -
  from assms(4) have j: "CreateJob p (applyDefaults fresh job) = (p', Inr job')"
    and q: "Enqueue R c (job_QueueName job') (uuid_String U (job_ID job')) = (c', Inr ())"
    by (auto simp: Submit_def Let_def split: if_splits prod.splits sum.splits)
  from j assms(2) show "p' = p\<lparr>pg_db := pg_db p'\<rparr>"
    by (cases p) (auto simp: CreateJob_def exec_healthy split: sum.splits prod.splits)
  from redis_server.net_Enqueue [OF assms(1,3), of "job_QueueName job'" "uuid_String U (job_ID job')"] q show "r_net c' = []" by simp
  from redis_server.queued_Enqueue [OF assms(1,3), of "job_QueueName job'" "uuid_String U (job_ID job')"] q
  show "queued R c' = (queued R c)(job_QueueName job' := uuid_String U (job_ID job') # queued R c (job_QueueName job'))" by simp
  from CreateJob_ok [OF j] obtain payload where i: "insertable (pg_db p) (applyDefaults fresh job)"
    and job': "job' = inserted p (applyDefaults fresh job) payload" by blast
  from i job' show "job_of (pg_db p) (job_ID job') = None" by (simp add: insertable_def inserted_def)
  from Submit_ok(1) [OF assms(4)] show "job_of (pg_db p') (job_ID job') = Some job'" by blast
  show "job_TenantID job' = job_TenantID job" "job_Status job = [] \<Longrightarrow> job_Status job' = StatusPending"
    by (simp_all add: job' inserted_def applyDefaults_fields)
qed

text \<open>The backlog of a queue never holds the id of a job that does not exist yet.\<close>

lemma fresh_not_queued:
  assumes "inv E s" and "uuid_codec (we_U E)" and "job_of (pg_db (sys_pg s)) k = None"
  shows "uuid_String (we_U E) k \<notin> set (queued (we_R E) (sys_conn s) q)"
proof
  assume "uuid_String (we_U E) k \<in> set (queued (we_R E) (sys_conn s) q)"
  then have "uuid_String (we_U E) k \<in> members (we_R E) (sys_conn s) q" by (simp add: members_def)
  from invD(3) [OF assms(1) this] assms(3) show False
    by (auto simp: named_def uuid_codec.String_inject [OF assms(2)])
qed

subsection \<open>Retries come back\<close>

text \<open>A round of a worker that watches a failing job: a pass of \<open>consume\<close>, then a tick of \<open>poll\<close> at \<open>T\<close>.\<close>

fun retry_rounds :: "(winput \<times> time) list \<Rightarrow> turn list" where
  "retry_rounds [] = []"
| "retry_rounds ((i, T) # rs) = Consume_turn i # Poll_turn T False # retry_rounds rs"

text \<open>What Redis holds: nothing but one waiting id, or nothing at all.\<close>

definition only_job :: "'r redis \<Rightarrow> 'r rconn \<Rightarrow> string \<Rightarrow> string \<Rightarrow> bool" where
  "only_job R c q x \<longleftrightarrow> r_net c = [] \<and> queued R c = (\<lambda>_. [])(q := [x]) \<and> delayed R c = (\<lambda>_. [])"

definition no_jobs :: "'r redis \<Rightarrow> 'r rconn \<Rightarrow> bool" where
  "no_jobs R c \<longleftrightarrow> r_net c = [] \<and> queued R c = (\<lambda>_. []) \<and> delayed R c = (\<lambda>_. [])"

context redis_server
begin

lemma due_entries_one: "due_entries R c q now promoteBatch = filter (\<lambda>e. snd e \<le> Unix now) (delayed R c q)" if "length (delayed R c q) \<le> 1"
proof -
  have "length (filter (\<lambda>e. snd e \<le> Unix now) (delayed R c q)) \<le> 1" using that length_filter_le le_trans by blast
  then show ?thesis by (simp add: due_entries_def limit_of_def promoteBatch_def)
qed

lemma poll_nothing:
  "r_net c = [] \<Longrightarrow> delayed R c = (\<lambda>_. []) \<Longrightarrow>
   r_net (fst (poll_queues R x now names c)) = [] \<and> snd (poll_queues R x now names c) \<and>
   queued R (fst (poll_queues R x now names c)) = queued R c \<and> delayed R (fst (poll_queues R x now names c)) = (\<lambda>_. [])"
proof (induction names arbitrary: c)
  case (Cons n names)
  obtain c' moved where p: "PromoteDue R c n now promoteBatch = (c', Inr moved)"
    using PromoteDue_effect(1) [OF Cons.prems(1)] by (metis prod.collapse)
  have "r_net c' = []" "queued R c' = queued R c" "delayed R c' = (\<lambda>_. [])"
    using PromoteDue_net [OF Cons.prems(1), of n now promoteBatch] PromoteDue_effect(2,3) [OF Cons.prems(1), of n now promoteBatch]
      due_entries_one [of c n now] Cons.prems(2) p by (simp_all add: fun_eq_iff)
  with Cons.IH [of c'] p show ?case by simp
qed simp

text \<open>A tick late enough moves the one waiting retry back to its list.\<close>

lemma poll_one:
  "r_net c = [] \<Longrightarrow> delayed R c = (\<lambda>_. [])(q := [(m, u)]) \<Longrightarrow> queued R c = (\<lambda>_. []) \<Longrightarrow> u \<le> Unix now \<Longrightarrow> q \<in> set names \<Longrightarrow>
   only_job R (fst (poll_queues R x now names c)) q m \<and> snd (poll_queues R x now names c)"
proof (induction names arbitrary: c)
  case (Cons n names)
  obtain c' moved where p: "PromoteDue R c n now promoteBatch = (c', Inr moved)"
    using PromoteDue_effect(1) [OF Cons.prems(1)] by (metis prod.collapse)
  note eff = PromoteDue_net [OF Cons.prems(1), of n now promoteBatch] PromoteDue_effect(2,3) [OF Cons.prems(1), of n now promoteBatch]
    due_entries_one [of c n now]
  show ?case
  proof (cases "n = q")
    case True
    with eff Cons.prems p have "r_net c' = []" "queued R c' = (\<lambda>_. [])(q := [m])" "delayed R c' = (\<lambda>_. [])"
      by (simp_all add: fun_eq_iff)
    with poll_nothing [of c' x now names] p show ?thesis by (simp add: only_job_def)
  next
    case False
    with eff Cons.prems p have "r_net c' = []" "queued R c' = (\<lambda>_. [])" "delayed R c' = (\<lambda>_. [])(q := [(m, u)])"
      by (simp_all add: fun_eq_iff)
    with Cons.IH [of c'] Cons.prems(4,5) False p show ?thesis by simp
  qed
qed simp

lemma delay_one:
  assumes "no_jobs R c" and "EnqueueDelayed R c q m T = (c', v)"
  shows "r_net c' = [] \<and> queued R c' = (\<lambda>_. []) \<and> delayed R c' = (\<lambda>_. [])(q := [(m, Unix T)])"
proof -
  from assms(1) have c: "r_net c = []" "queued R c = (\<lambda>_. [])" "\<And>q. delayed R c q = []" by (simp_all add: no_jobs_def)
  have s: "set (delayed R c' q) = {(m, Unix T)}" using EnqueueDelayed_effect(2) [OF c(1), of q m T] c(3) assms(2) by simp
  then have "length (delayed R c' q) = 1" using distinct_card [of "delayed R c' q"] delayed_members [of c' q]
    by (simp add: distinct_map)
  with s have "delayed R c' q = [(m, Unix T)]" by (cases "delayed R c' q") auto
  moreover have "delayed R c' q' = []" if "q' \<noteq> q" for q'
    using assms(2) c(1) c(3) [of q'] that by (auto simp: EnqueueDelayed_def redis_do_healthy delayed_def zrange_zadd_other)
  ultimately show ?thesis using delay_spares [OF redis_server_axioms c(1) assms(2)] c(2) by (auto simp: fun_eq_iff)
qed

end

text \<open>The database side of a pass does not depend on the queue.\<close>

lemma process_pg:
  assumes "ws_pg s = ws_pg s'"
  shows "ws_pg (fst (process E i s x)) = ws_pg (fst (process E i s' x))"
  using assms by (simp add: process_def handleFailure_def Let_def split: option.split prod.split sum.split)

lemma passes_pg: "ws_pg s = ws_pg s' \<Longrightarrow> ws_pg (passes E x is s) = ws_pg (passes E x is s')"
proof (induction "is" arbitrary: s s')
  case (Cons i "is")
  from Cons.IH [OF process_pg [OF Cons.prems]] show ?case by simp
qed simp

text \<open>The queue side of a failing pass: below the budget one entry, due within an hour; at the budget nothing.\<close>

lemma process_failure_queue:
  assumes "uuid_Parse (we_U E) x = Some k"
    and "schema_ok (pg_db (ws_pg s))" and "healthy (ws_pg s)"
    and "job_of (pg_db (ws_pg s)) k = Some j" and "job_Status j = StatusPending" and "0 \<le> job_RetryCount j"
    and "Dispatch (we_f64 E) (wi_henv i) (we_registry E) (job_JobType j) (job_Payload j) = Inl e"
    and "pg_text_ok (ws_pg s) (we_Error E e)" and "int4 (job_RetryCount j + 1)" and "process E i s x = (s', r)"
  shows "r \<noteq> Inl Panic"
    and "job_RetryCount j + 1 \<ge> job_MaxRetries j \<Longrightarrow> ws_conn s' = ws_conn s"
    and "job_RetryCount j + 1 < job_MaxRetries j \<Longrightarrow> \<exists>T v. T \<le> wi_now i + hour \<and>
      EnqueueDelayed (we_R E) (ws_conn s) (job_QueueName j) (uuid_String (we_U E) k) T = (ws_conn s', v)"
proof -
  let ?now = "pg_now (ws_pg s)" and ?n = "job_RetryCount j + 1"
  let ?j1 = "set_updated_at ?now (claimed ?now j)"
  let ?p1 = "(ws_pg s)\<lparr>pg_db := put_job ?j1 (pg_db (ws_pg s))\<rparr>"
  let ?s1 = "s\<lparr>ws_pg := ?p1, ws_metrics := ObserveLatency (job_JobType ?j1) (wi_elapsed i) (ws_metrics s)\<rparr>"
  note row = claimed_row [OF assms(2,4)]
  have f: "job_JobType ?j1 = job_JobType j" "job_Payload ?j1 = job_Payload j" "job_MaxRetries ?j1 = job_MaxRetries j"
    "job_RetryCount ?j1 = job_RetryCount j" "job_QueueName ?j1 = job_QueueName j"
    by (simp_all add: set_updated_at_def claimed_def)
  have w: "wrap64 (job_RetryCount j + 1) = ?n" using row_int4 [OF assms(2,4)] by simp
  note id = row(3) job_of_ID [OF assms(4)]
  obtain b where b: "backoffFor (word_of_int ?n) = Some b" "sint b \<le> hour"
    using backoffFor_attempts [OF assms(6)] row_int4 [OF assms(2,4)] w by auto
  have c: "handleFailure E i ?s1 ?j1 e = (s', r)"
    using assms(1,7,10) ClaimJob_pending [OF assms(2-5)] by (simp add: process_def f Let_def)
  have "pg_text_ok ?p1 (we_Error E e)" using assms(8) by simp
  note calls = DeadLetter_healthy [of ?p1 ?n "we_Error E e" k, OF _ _ assms(9) this] MarkForRetry_healthy [of ?p1 ?n "we_Error E e" k, OF _ _ assms(9) this]
  have ok: "schema_ok (pg_db ?p1)" "healthy ?p1" using row(1) assms(3) by simp_all
  have dead: "r \<noteq> Inl Panic \<and> ws_conn s' = ws_conn s" if "?n \<ge> job_MaxRetries j"
    using c that calls(1) [OF ok] by (auto simp: handleFailure_def f w id Let_def)
  have again: "r \<noteq> Inl Panic \<and> (\<exists>v. EnqueueDelayed (we_R E) (ws_conn s) (job_QueueName j) (uuid_String (we_U E) k) (wi_now i + sint b) = (ws_conn s', v))"
    if "?n < job_MaxRetries j"
    using c that calls(2) [OF ok] b(1) by (auto simp: handleFailure_def f w id Let_def split: prod.splits sum.splits)
  show "r \<noteq> Inl Panic" using dead again by linarith
  show "ws_conn s' = ws_conn s" if "?n \<ge> job_MaxRetries j" using dead that by blast
  show "\<exists>T v. T \<le> wi_now i + hour \<and> EnqueueDelayed (we_R E) (ws_conn s) (job_QueueName j) (uuid_String (we_U E) k) T = (ws_conn s', v)"
    if "?n < job_MaxRetries j" using again [OF that] b(2) by (intro exI [of _ "wi_now i + sint b"]) auto
qed

text \<open>Rounds on empty queues change nothing.\<close>

lemma idle_round:
  assumes "redis_server (we_R E)" and "queues \<noteq> []" and "no_jobs (we_R E) (ws_conn t)"
    and "t' = worker_turn E queues wid (Poll_turn T False) (worker_turn E queues wid (Consume_turn i) t)"
  shows "ws_pg t' = ws_pg t \<and> no_jobs (we_R E) (ws_conn t')"
proof -
  let ?R = "we_R E"
  from assms(3) have c: "r_net (ws_conn t) = []" "queued ?R (ws_conn t) = (\<lambda>_. [])" "delayed ?R (ws_conn t) = (\<lambda>_. [])"
    by (simp_all add: no_jobs_def)
  have "Dequeue ?R (ws_conn t) queues = (ws_conn t, Inl Redis_Nil)"
    by (rule redis_server.Dequeue_none [OF assms(1) c(1) assms(2)]) (simp add: c(2) find_None_iff)
  then have "worker_turn E queues wid (Consume_turn i) t = t" by simp
  with redis_server.poll_nothing [OF assms(1) c(1,3), of False T queues] c(2) assms(4) show ?thesis
    by (auto simp: no_jobs_def split: prod.splits bool.splits)
qed

lemma idle_rounds:
  assumes "redis_server (we_R E)" and "queues \<noteq> []"
  shows "no_jobs (we_R E) (ws_conn t) \<Longrightarrow> ws_pg (worker_turns E queues wid (retry_rounds rs) t) = ws_pg t \<and>
    no_jobs (we_R E) (ws_conn (worker_turns E queues wid (retry_rounds rs) t))"
proof (induction rs arbitrary: t)
  case (Cons a rs)
  obtain i T where a: "a = (i, T)" by force
  from idle_round [OF assms Cons.prems refl, of wid T i] Cons.IH show ?case by (auto simp: a simp del: worker_turn.simps)
qed simp

lemma find_self: "q \<in> set qs \<Longrightarrow> find (\<lambda>q'. q' = q) qs = Some q"
  by (induction qs) auto

text \<open>One round of a failing job, alone on its queue.\<close>

lemma failing_round:
  assumes "redis_server (we_R E)" and "uuid_codec (we_U E)" and "job_QueueName j \<in> set queues" and "x = uuid_String (we_U E) k"
    and "schema_ok (pg_db (ws_pg t))" and "healthy (ws_pg t)"
    and "job_of (pg_db (ws_pg t)) k = Some j" and "job_Status j = StatusPending" and "0 \<le> job_RetryCount j"
    and "Dispatch (we_f64 E) (wi_henv i) (we_registry E) (job_JobType j) (job_Payload j) = Inl e"
    and "pg_text_ok (ws_pg t) (we_Error E e)" and "int4 (job_RetryCount j + 1)" and "wi_now i + hour \<le> T"
    and "only_job (we_R E) (ws_conn t) (job_QueueName j) x"
    and "t' = worker_turn E queues wid (Poll_turn T False) (worker_turn E queues wid (Consume_turn i) t)"
  shows "ws_pg t' = ws_pg (fst (process E i t x))"
    and "if job_RetryCount j + 1 < job_MaxRetries j then only_job (we_R E) (ws_conn t') (job_QueueName j) x else no_jobs (we_R E) (ws_conn t')"
proof -
  let ?R = "we_R E" and ?q = "job_QueueName j"
  from assms(14) have c: "r_net (ws_conn t) = []" "queued ?R (ws_conn t) = (\<lambda>_. [])(?q := [x])" "delayed ?R (ws_conn t) = (\<lambda>_. [])"
    by (simp_all add: only_job_def)
  have f: "find (\<lambda>q. queued ?R (ws_conn t) q \<noteq> []) queues = Some ?q"
  proof -
    have "(\<lambda>q. queued ?R (ws_conn t) q \<noteq> []) = (\<lambda>q. q = ?q)" by (auto simp: c(2))
    then show ?thesis by (simp only: find_self [OF assms(3)])
  qed
  note d = redis_server.Dequeue_some [OF assms(1) c(1) f]
  obtain c1 where c1: "Dequeue ?R (ws_conn t) queues = (c1, Inr (x, ?q))" using d(1) c(2) by (metis fun_upd_same last.simps prod.collapse)
  have empty: "no_jobs ?R c1" using d(2-4) c1 c(2,3) by (simp add: no_jobs_def fun_eq_iff)
  let ?t1 = "t\<lparr>ws_conn := c1\<rparr>"
  obtain t2 r where p: "process E i ?t1 x = (t2, r)" by force
  have parse: "uuid_Parse (we_U E) x = Some k" unfolding assms(4) by (rule uuid_codec.Parse_String [OF assms(2)])
  have s: "schema_ok (pg_db (ws_pg ?t1))" "healthy (ws_pg ?t1)" "job_of (pg_db (ws_pg ?t1)) k = Some j" "pg_text_ok (ws_pg ?t1) (we_Error E e)"
    using assms(5-7,11) by simp_all
  note fail = process_failure_queue [OF parse s(1-3) assms(8-10) s(4) assms(12) p]
  have t1: "worker_turn E queues wid (Consume_turn i) t = t2"
    using c1 p fail(1) by (auto split: sum.splits process_err.splits)
  obtain c3 go where c3: "poll_queues ?R False T queues (ws_conn t2) = (c3, go)" by force
  have t': "t' = t2\<lparr>ws_conn := c3\<rparr>" unfolding assms(15) t1 using c3 by (auto split: bool.splits)
  show "ws_pg t' = ws_pg (fst (process E i t x))" using process_pg [of ?t1 t E i x] p by (simp add: t')
  have "no_jobs ?R c3" if "\<not> job_RetryCount j + 1 < job_MaxRetries j"
  proof -
    from fail(2) that have "ws_conn t2 = c1" by simp
    with redis_server.poll_nothing [OF assms(1), of c1 False T queues] empty c3 show ?thesis by (auto simp: no_jobs_def)
  qed
  moreover have "only_job ?R c3 ?q x" if l: "job_RetryCount j + 1 < job_MaxRetries j"
  proof -
    from fail(3) [OF l] obtain T' v where T': "T' \<le> wi_now i + hour" "EnqueueDelayed ?R c1 ?q x T' = (ws_conn t2, v)"
      by (auto simp: assms(4))
    from redis_server.delay_one [OF assms(1) empty T'(2)] have "r_net (ws_conn t2) = []" "delayed ?R (ws_conn t2) = (\<lambda>_. [])(?q := [(x, Unix T')])"
      "queued ?R (ws_conn t2) = (\<lambda>_. [])" by auto
    moreover have "Unix T' \<le> Unix T" using T'(1) assms(13) by (simp add: Unix_def second_def zdiv_mono1)
    ultimately show ?thesis using redis_server.poll_one [OF assms(1), of "ws_conn t2" ?q x "Unix T'" T queues False] assms(3) c3 by auto
  qed
  ultimately show "if job_RetryCount j + 1 < job_MaxRetries j then only_job ?R (ws_conn t') ?q x else no_jobs ?R (ws_conn t')"
    by (simp add: t')
qed

text \<open>As many rounds as attempts: the database goes through the passes, the queue brings the id back each time.\<close>

lemma rounds_failing:
  assumes "redis_server (we_R E)" and "uuid_codec (we_U E)" and "x = uuid_String (we_U E) k"
  shows "schema_ok (pg_db (ws_pg t)) \<Longrightarrow> healthy (ws_pg t) \<Longrightarrow> job_of (pg_db (ws_pg t)) k = Some j \<Longrightarrow>
    job_Status j = StatusPending \<Longrightarrow> 0 \<le> job_RetryCount j \<Longrightarrow> job_RetryCount j < budget j \<Longrightarrow> job_QueueName j \<in> set queues \<Longrightarrow>
    always_fails E j (map fst rs) \<Longrightarrow> (\<And>e. pg_text_ok (ws_pg t) (we_Error E e)) \<Longrightarrow> \<forall>(i, T) \<in> set rs. wi_now i + hour \<le> T \<Longrightarrow>
    only_job (we_R E) (ws_conn t) (job_QueueName j) x \<Longrightarrow> t' = worker_turns E queues wid (retry_rounds rs) t \<Longrightarrow>
    ws_pg t' = ws_pg (passes E x (map fst rs) t) \<and>
    (if job_RetryCount j + int (length rs) < budget j then only_job (we_R E) (ws_conn t') (job_QueueName j) x else no_jobs (we_R E) (ws_conn t'))"
proof (induction rs arbitrary: t j)
  case (Cons a rs)
  obtain i T where a: "a = (i, T)" by force
  let ?now = "pg_now (ws_pg t)" and ?n = "job_RetryCount j + 1" and ?R = "we_R E"
  let ?j1 = "set_updated_at ?now (claimed ?now j)"
  let ?p1 = "(ws_pg t)\<lparr>pg_db := put_job ?j1 (pg_db (ws_pg t))\<rparr>"
  define t1 where "t1 = worker_turn E queues wid (Poll_turn T False) (worker_turn E queues wid (Consume_turn i) t)"
  from Cons.prems(8) a obtain e where
    e: "Dispatch (we_f64 E) (wi_henv i) (we_registry E) (job_JobType j) (job_Payload j) = Inl e" and rest: "always_fails E j (map fst rs)"
    by (auto simp: always_fails_Cons)
  have n: "int4 ?n" using row_int4 [OF Cons.prems(1,3)] Cons.prems(5,6) by (auto simp: budget_def int4_def)
  have late: "wi_now i + hour \<le> T" using Cons.prems(10) a by simp
  have U: "uuid_Parse (we_U E) x = Some k" unfolding assms(3) by (rule uuid_codec.Parse_String [OF assms(2)])
  note one = failing_round [OF assms(1,2) Cons.prems(7) assms(3) Cons.prems(1-5) e Cons.prems(9) n late Cons.prems(11) t1_def]
  note ps = process_failure [OF U Cons.prems(1-5) e Cons.prems(9) n] and row = claimed_row [OF Cons.prems(1,3)]
  have eq: "ws_pg (passes E x (map fst rs) t1) = ws_pg (passes E x (map fst rs) (fst (process E i t x)))"
    by (rule passes_pg [OF one(1)])
  have t': "t' = worker_turns E queues wid (retry_rounds rs) t1" using Cons.prems(12) a by (simp add: t1_def del: worker_turn.simps)
  have ne: "queues \<noteq> []" using Cons.prems(7) by auto
  show ?case
  proof (cases "?n \<ge> job_MaxRetries j")
    case True
    with one(1) ps have s: "ws_pg t1 = ?p1\<lparr>pg_db := dead_db ?p1 k ?n (we_Error E e)\<rparr>" by simp
    have b: "budget j = ?n" using True Cons.prems(5,6) by (auto simp: budget_def)
    have "\<not> claimable k (pg_db (ws_pg t1))" using row(2) by (simp add: s claimable_def job_of_dead_db failed_def)
    moreover have "schema_ok (pg_db (ws_pg t1))" "healthy (ws_pg t1)" using s row(1) n Cons.prems(2) by (simp_all add: schema_dead_db)
    ultimately have "passes E x (map fst rs) t1 = t1" by (intro passes_skip [OF U])
    with idle_rounds [OF assms(1) ne, of t1 wid rs] one(2) True eq b t' a show ?thesis by simp
  next
    case False
    with one(1) ps have s: "ws_pg t1 = ?p1\<lparr>pg_db := set_job ?p1 k (\<lambda>_. True) (retried ?n (we_Error E e))\<rparr>" by simp
    let ?j2 = "set_updated_at ?now (retried ?n (we_Error E e) ?j1)"
    have j2: "job_of (pg_db (ws_pg t1)) k = Some ?j2" using row(2) by (simp add: s job_of_set_job)
    have f: "job_Status ?j2 = StatusPending" "job_RetryCount ?j2 = ?n" "budget ?j2 = budget j" "job_JobType ?j2 = job_JobType j"
      "job_Payload ?j2 = job_Payload j" "job_QueueName ?j2 = job_QueueName j"
      by (simp_all add: budget_def set_clauses set_updated_at_def)
    have sc: "schema_ok (pg_db (ws_pg t1))" unfolding s using row(1) n by (simp, intro schema_set_job) auto
    have "always_fails E ?j2 (map fst rs)" using rest f by (simp add: always_fails_def)
    note IH = Cons.IH [OF sc _ j2 f(1) _ _ _ this _ _ _ t', unfolded f]
    have "?n < budget j" using False by (auto simp: budget_def)
    with IH Cons.prems(2,5,7,9,10) one(2) False eq a show ?thesis by (simp add: s add.assoc split: if_splits)
  qed
qed simp

end
