(* ===== verification/Spec2Isabelle.thy ===== *)
theory Spec2Isabelle
  imports OpsTheorems Progress
begin

text \<open>
  This library models \<^verbatim>\<open>dispatch-go\<close>, a multi-tenant job queue in Go, and proves what makes it correct.
  The definitions follow the files under \<^verbatim>\<open>src/\<close> function by function and keep their names.

  \<^bold>\<open>The program.\<close> Three processes share a Postgres database and a Redis server. The API
  (\<^verbatim>\<open>src/cmd/api\<close>, \<^verbatim>\<open>src/internal/handlers\<close>) lets tenants sign up, manage API keys and submit, list,
  cancel and retry jobs. The worker (\<^verbatim>\<open>src/cmd/worker\<close>) pops job ids from Redis, claims the job in Postgres,
  runs its handler (\<^verbatim>\<open>src/internal/jobs\<close>), and completes it, delays a retry or dead-letters it; a poller
  moves due retries back and a heartbeat keeps the worker counted. The scheduler (\<^verbatim>\<open>src/cmd/scheduler\<close>) turns
  due cron schedules into jobs. Postgres (\<^verbatim>\<open>src/internal/store\<close>) is the truth about jobs, Redis
  (\<^verbatim>\<open>src/internal/queue\<close>) carries ids only, and every producer persists a job before it pushes its id
  (\<^verbatim>\<open>src/internal/enqueue\<close>).

  \<^bold>\<open>The theories.\<close>
  \<^item> \<open>Prelude\<close>, \<open>Json\<close>, \<open>GoStd\<close>, \<open>Float64\<close>, \<open>Sha256\<close>: shared lemmas and what the code uses of Go and its standard
    library (network outcomes, 64-bit wrap-around, JSON values and struct decoding, \<open>strings\<close>, \<open>strconv\<close>, exact
    \<open>float64\<close> rounding, SHA-256 and HMAC).
  \<^item> \<open>Models\<close> (\<^verbatim>\<open>internal/models\<close>), \<open>Postgres\<close> (tables, statements, transactions, the schema of \<^verbatim>\<open>src/migrations\<close> as
    \<open>schema_ok\<close>), \<open>Redis\<close> (the commands as a locale \<open>redis_server\<close>, interpreted on a reference keyspace).
  \<^item> \<open>Store\<close>, \<open>StoreInv\<close>, \<open>StoreSchedules\<close> (\<^verbatim>\<open>store.go\<close>, \<^verbatim>\<open>list.go\<close>, \<^verbatim>\<open>schedules.go\<close>): one statement per SQL text and one
    operation per method, on every network outcome; \<open>Queue\<close> (\<^verbatim>\<open>queue.go\<close>); \<open>Enqueuer\<close> (\<^verbatim>\<open>enqueue.go\<close>);
    \<open>Registry\<close> (\<^verbatim>\<open>registry.go\<close>, \<^verbatim>\<open>jobs/handlers.go\<close>); \<open>Worker\<close>; \<open>Scheduler\<close>.
  \<^item> \<open>System\<close>: the whole system as a step relation, one step per service call of one process, with the abstract life
    of a job as its specification; \<open>Paths\<close>, \<open>ProcessPaths\<close> and \<open>ApiPaths\<close>: each operation, pass and request as written is a path of
    that relation; \<open>Tally\<close>: what a pass does to the worker's counters; \<open>Deployment\<close>: the processes (\<open>worker_main\<close>, \<open>scheduler_main\<close>,
    \<open>runServer\<close>) and their acts in any order; \<open>Progress\<close>: what the worker's turns achieve on working services; \<open>Scenario\<close>: a concrete deployment the theorems are applied to.
  \<^item> \<open>Http\<close>, \<open>JobsApi\<close>, \<open>AuthStore\<close>, \<open>Credentials\<close>, \<open>Auth\<close>, \<open>AuthApi\<close>, \<open>AuthFlows\<close> (\<^verbatim>\<open>handlers/*.go\<close>, \<^verbatim>\<open>auth.go\<close>,
    \<^verbatim>\<open>users.go\<close>, \<^verbatim>\<open>sessions.go\<close>, \<^verbatim>\<open>apikeys.go\<close>, \<^verbatim>\<open>tenants.go\<close>): requests, endpoints, accounts, sessions and keys, both guards and the
    routes. The locale \<open>tenant_endpoint\<close> is the contract of an endpoint towards tenants (interpreted for the job and the admin
    endpoints), \<open>credentials\<close> that of a store of secrets (interpreted for sessions and for API keys).
  \<^item> \<open>Admin\<close> (\<^verbatim>\<open>stats.go\<close>, \<^verbatim>\<open>admin.go\<close>, the health check), \<open>ApiMetrics\<close> (\<^verbatim>\<open>cmd/api/metrics.go\<close>, \<^verbatim>\<open>metrics/api.go\<close>),
    \<open>Config\<close> (\<^verbatim>\<open>config.go\<close>), \<open>Migrate\<close> (\<^verbatim>\<open>migrate.go\<close>), \<open>Server\<close> (\<^verbatim>\<open>middleware.go\<close>, \<^verbatim>\<open>cmd/api/main.go\<close>, the scheduler's \<open>main\<close>).
  \<^item> \<open>Wire\<close>: the JSON document of every answer, from the tags of the structs; \<open>Columns\<close>: the column lists of the SQL texts against
    the fields their scans and arguments name, for every \<open>INSERT\<close> and every query of more than one column.
  \<^item> \<open>ApiTheorems\<close>, \<open>OpsTheorems\<close> and this theory hold the properties: of the API as a client sees it, of operating the system,
    and of the job pipeline.

  \<^bold>\<open>State and operations.\<close> A Postgres connection is the record \<open>pg\<close> (tables, clock, what the server does to texts and JSON, and a
  script of network outcomes), a Redis connection the record \<open>rconn\<close>. Each operation takes the connection and returns it with a sum:
  \<open>Inl\<close> is the error the code returns. A call may be delivered, lost on the way (nothing happened), or lose its reply (it happened, the
  caller sees an error); a transaction changes nothing before its commit. Handlers map both connections and a request to both
  connections and a response. Loops that run until shutdown are functions of the passes made before it. \<open>scan_loop\<close> is partial, and
  proved to return on every server that satisfies \<open>redis_server\<close>; every other loop is total. There is no fuel anywhere.

  \<^bold>\<open>What is proved.\<close> In every reachable state ids on the queues belong to rows, at most one worker runs a job, and the job and
  dead-letter tables agree; steps follow the abstract life cycle, settled jobs stay. A failing job gets exactly its budget, with delays that
  double up to an hour; claims and schedule runs are won once; polling drains what is due; heartbeats keep a worker counted, and its
  counters never run ahead of the table. A job submitted behind a backlog is completed as soon as a worker has made one pass more than
  the backlog is long, and a failing job comes back from the delayed set until it is dead-lettered and gone. The API runs job
  requests only under a live key and isolates tenants over any history; keys, sessions and accounts go through their life cycles, with
  sign-up atomic and login uniform, in its answer and in the bcrypt work behind it. The router turns strangers away, cookies follow one policy, dashboard numbers add up and agree
  with the gauges, migrations resume after any failure. An answer's document hides the hashes and nothing else, each endpoint answers with its own kind of document, and errors have one shape;
  what an \<open>INSERT\<close> writes is what a scan reads. The processes from their start, and any sequence of their acts (turns of a worker's
  goroutines, scheduler passes, requests to any route), are runs of the step relation, so the invariants hold of the programs as written.

  \<^bold>\<open>Parameters.\<close> The Redis server, \<^verbatim>\<open>google/uuid\<close>, \<^verbatim>\<open>robfig/cron\<close>, bcrypt, the texts of errors, how a JSON number literal reads as
  \<open>float64\<close> in a payload, lower-casing beyond ASCII, what \<open>jsonb\<close> keeps of a document, the start of the day and the average the database
  computes, what a migration's SQL does, the chi router's choice of route, how a time, a \<open>float64\<close> and a quoted string print, clocks,
  random bytes and all network outcomes are arguments;
  what is relied on is a named hypothesis (\<open>redis_server\<close>, \<open>bcrypt_ok\<close>, \<open>fires_later\<close> and the like), each with an instance.

  \<^bold>\<open>Simplifications.\<close> Rows with equal sort keys come in table order. Times are integers in nanoseconds; that Postgres rounds them to
  microseconds is not modelled. A transaction that locks its row first is one step of \<open>System\<close>. A response carries the Go value handed to the JSON
  encoder, and \<open>Wire\<close> gives its document as a JSON value: escapes and white space of the text are not modelled. Requests to the API
  process are answered one after the other; between their calls other processes interleave only in \<open>System\<close>. The name of a queue is any
  string. Paths arrive cleaned: the redirect with which the outer \<open>http.ServeMux\<close> answers one that is not is no part of \<open>serve_mux\<close>.

  \<^bold>\<open>Not modelled.\<close> What remains is outside the repository's own logic: signals, tickers and timeouts (they decide which passes and
  requests there are, and the theorems hold for all of them), the HTTP server and the Prometheus text format, the latency histogram's
  buckets, logging, closing connections, the request-id, address, log and recovery middleware of \<^verbatim>\<open>go-chi\<close>, and the front end.
\<close>

section \<open>The system\<close>

text \<open>C1: In every state the system can reach, with any interleaving of workers, API requests,
  pollers and schedulers, any lost request or reply and any crash, an id on a work list or in a
  delayed set is the id of a job row on that very queue: the row is written before the id.\<close>

theorem queued_ids_have_rows:
  assumes "redis_server (we_R E)" and "reachable E cron s" and "x \<in> members (we_R E) (sys_conn s) q"
  shows "\<exists>k j. x = uuid_String (we_U E) k \<and> job_of (pg_db (sys_pg s)) k = Some j \<and> job_QueueName j = q"
  using invD(3) [OF reachable_inv [OF assms(1,2)] assms(3)] by (simp add: named_def)

theorem queued_ids_have_rows_witness:
  "\<exists>k j. uuid_String bits_uuid 7 = uuid_String bits_uuid k \<and>
     job_of (pg_db (sys_pg demo_admitted)) k = Some j \<and> job_QueueName j = ''default''"
  using queued_ids_have_rows [of demo_env demo_every_minute demo_admitted "uuid_String bits_uuid 7" "''default''"]
    ref_redis_server admitted_reachable admitted_queued by simp

text \<open>C2: At most one worker runs a job at any time, and while it runs the row in the database is
  exactly the row the worker claimed, in status processing.\<close>

theorem one_runner_per_job:
  assumes "redis_server (we_R E)" and "reachable E cron s" and "sys_pc s w = Running job"
  shows "job_of (pg_db (sys_pg s)) (job_ID job) = Some job \<and> job_Status job = StatusProcessing \<and>
    (\<forall>w' job'. sys_pc s w' = Running job' \<longrightarrow> job_ID job' = job_ID job \<longrightarrow> w' = w)"
  using running_row [OF reachable_inv [OF assms(1,2)] assms(3)] invD(4) [OF reachable_inv [OF assms(1,2)]] assms(3)
  by blast

theorem one_runner_per_job_witness:
  "job_of (pg_db (sys_pg demo_claimed)) 7 = Some demo_running \<and> job_Status demo_running = StatusProcessing \<and>
   {w'. sys_pc demo_claimed w' = Running demo_running} = {0}"
  using one_runner_per_job [of demo_env demo_every_minute demo_claimed 0 demo_running]
    ref_redis_server claimed_reachable claimed_running by auto

text \<open>C8: In every reachable state the job table and the dead-letter table agree: a failed job has used
  its whole budget and has a dead-letter row with its tenant, its error and its attempts; any
  other job has a valid status, attempts left and no dead-letter row.\<close>

theorem dead_letters_match_jobs:
  assumes "redis_server (we_R E)" and "reachable E cron s" and "job_of (pg_db (sys_pg s)) k = Some j"
  shows "row_ok j (dlq_of (pg_db (sys_pg s)) k)"
  by (rule rows_okD(2) [OF invD(1) [OF reachable_inv [OF assms(1,2)]] assms(3)])

theorem dead_letters_match_jobs_witness:
  "row_ok demo_row (dlq_of (pg_db (sys_pg demo_admitted)) 7)"
  using dead_letters_match_jobs [of demo_env demo_every_minute demo_admitted 7 demo_row]
    ref_redis_server admitted_reachable by simp

text \<open>C7: Refinement. Whatever step the system takes, each job either keeps its row or moves along the
  abstract life cycle (admitted, started, put back with one more attempt below the budget, dead
  exactly at the budget, succeeded, called off, revived), with id, tenant, queue, type, payload
  and budget unchanged.\<close>

theorem steps_follow_life:
  assumes "redis_server (we_R E)" and "reachable E cron s" and "step E cron s s'"
  shows "job_of (pg_db (sys_pg s')) k = job_of (pg_db (sys_pg s)) k \<or>
    (\<exists>j'. job_of (pg_db (sys_pg s')) k = Some j' \<and>
       life (budget j') (phase_in (pg_db (sys_pg s)) k) (Some (phase_of j')) \<and>
       (\<forall>j. job_of (pg_db (sys_pg s)) k = Some j \<longrightarrow> same_spec j' j))"
  by (rule step_life [OF reachable_inv [OF assms(1,2)] assms(3)])

theorem steps_follow_life_witness:
  "job_of (pg_db (sys_pg demo_claimed)) 7 = job_of (pg_db (sys_pg demo_popped)) 7 \<or>
    (\<exists>j'. job_of (pg_db (sys_pg demo_claimed)) 7 = Some j' \<and>
       life (budget j') (phase_in (pg_db (sys_pg demo_popped)) 7) (Some (phase_of j')) \<and>
       same_spec j' demo_row)"
proof -
  have "job_of (pg_db (sys_pg demo_popped)) 7 = Some demo_row" by (simp add: demo_popped_def)
  with steps_follow_life [of demo_env demo_every_minute demo_popped demo_claimed 7]
    ref_redis_server popped_reachable claimed_step show ?thesis by auto
qed

text \<open>C9: A completed or cancelled job is final: whatever happens afterwards its row does not change, so
  in particular a cancelled job never runs.\<close>

theorem settled_jobs_stay:
  assumes "redis_server (we_R E)" and "reachable E cron s" and "steps E cron s s'"
    and "job_of (pg_db (sys_pg s)) k = Some j" and "settled j"
  shows "job_of (pg_db (sys_pg s')) k = Some j \<and> (\<forall>w job. sys_pc s' w = Running job \<longrightarrow> job_ID job \<noteq> k)"
proof
  note i = reachable_inv [OF assms(1,2)]
  show row: "job_of (pg_db (sys_pg s')) k = Some j" by (rule steps_settled [OF assms(1,3) i assms(4,5)])
  show "\<forall>w job. sys_pc s' w = Running job \<longrightarrow> job_ID job \<noteq> k"
    using running_row [OF steps_inv [OF assms(1,3) i]] row assms(5) by (auto simp: settled_def)
qed

theorem settled_jobs_stay_witness:
  "\<exists>s' r. RetryJob (sys_pg demo_off) 1 7 = (sys_pg s', r) \<and> steps demo_env demo_every_minute demo_off s' \<and>
     job_of (pg_db (sys_pg s')) 7 = Some demo_off_row"
proof -
  obtain p' r where r: "RetryJob (sys_pg demo_off) 1 7 = (p', r)" by force
  have "sys_pc demo_off 1 = Idle" by (simp add: demo_off_def demo_admitted_def demo_start_def)
  from step.database [OF pg_step.retry [OF this r], of demo_env demo_every_minute]
  have "steps demo_env demo_every_minute demo_off (goto 1 (after r Persisted) (demo_off\<lparr>sys_pg := p'\<rparr>))" by blast
  moreover from settled_jobs_stay [OF _ off_reachable this off_row] ref_redis_server
  have "job_of (pg_db (sys_pg (goto 1 (after r Persisted) (demo_off\<lparr>sys_pg := p'\<rparr>)))) 7 = Some demo_off_row" by simp
  ultimately show ?thesis using r by (intro exI [of _ "goto 1 (after r Persisted) (demo_off\<lparr>sys_pg := p'\<rparr>)"] exI [of _ r]) simp
qed

section \<open>The worker\<close>

text \<open>A pending job whose handler succeeds is completed: \<open>process\<close> reports success, the row ends with
  status completed, the stored result and both time stamps, the queue is left alone, the latency
  is observed and exactly one completed job is counted.\<close>

theorem process_completes:
  assumes "uuid_Parse (we_U E) x = Some k"
    and "schema_ok (pg_db (ws_pg s))" and "healthy (ws_pg s)"
    and "job_of (pg_db (ws_pg s)) k = Some j" and "job_Status j = StatusPending"
    and "Dispatch (we_f64 E) (wi_henv i) (we_registry E) (job_JobType j) (job_Payload j) = Inr r"
    and "pg_jsonb (ws_pg s) r = Some r'"
  shows "\<exists>s' j'. process E i s x = (s', Inr ()) \<and> job_of (pg_db (ws_pg s')) k = Some j' \<and>
    job_Status j' = StatusCompleted \<and> job_Result j' = Some r' \<and> job_ErrorMessage j' = None \<and>
    job_StartedAt j' = Some (pg_now (ws_pg s)) \<and> job_CompletedAt j' = Some (pg_now (ws_pg s)) \<and>
    ws_conn s' = ws_conn s \<and>
    ws_metrics s' = IncProcessed StatusCompleted (ObserveLatency (job_JobType j) (wi_elapsed i) (ws_metrics s))"
  using process_success [OF assms]
  by (cases "process E i s x") (simp add: completed_def claimed_def set_updated_at_def)

theorem process_completes_witness:
  "\<exists>s' j'. process demo_env demo_pass demo_worker (uuid_String bits_uuid 7) = (s', Inr ()) \<and>
    job_of (pg_db (ws_pg s')) 7 = Some j' \<and> job_Status j' = StatusCompleted \<and> job_Result j' = Some (JObj [])"
  using process_completes [of demo_env "uuid_String bits_uuid 7" 7 demo_worker demo_row demo_pass "JObj []" "JObj []"]
    admitted_schema demo_dispatch
  by (auto simp: demo_worker_def bits.Parse_String demo_admitted_pg_def demo_start_pg_def)

text \<open>C5: A job whose handler fails every time gets exactly its budget, \<open>max 1 max_retries\<close> attempts: before
  that it is pending again with the attempts counted, afterwards it is failed with a
  dead-letter row of that many attempts and is not touched again, whatever the queue's
  connection does.\<close>

theorem failing_job_uses_its_budget:
  assumes "uuid_Parse (we_U E) x = Some k" and "schema_ok (pg_db (ws_pg s))" and "healthy (ws_pg s)"
    and "job_of (pg_db (ws_pg s)) k = Some j" and "job_Status j = StatusPending" and "job_RetryCount j = 0"
    and "always_fails E j is" and "\<And>e. pg_text_ok (ws_pg s) (we_Error E e)"
  shows "if int (length is) < max 1 (job_MaxRetries j)
     then waiting_after (pg_db (ws_pg (passes E x is s))) k (int (length is))
     else dead_after (pg_db (ws_pg (passes E x is s))) k (max 1 (job_MaxRetries j))"
  using passes_failing [OF assms(1-5) _ _ assms(7,8), unfolded assms(6) budget_def add_0] by simp

theorem failing_job_uses_its_budget_witness:
  "dead_after (pg_db (ws_pg (passes demo_env (uuid_String bits_uuid 7) [demo_pass, demo_pass, demo_pass] demo_failing))) 7 3"
  using failing_job_uses_its_budget [of demo_env "uuid_String bits_uuid 7" 7 demo_failing
      "demo_row\<lparr>job_JobType := ''always_fail''\<rparr>" "[demo_pass, demo_pass, demo_pass]"]
    demo_failing_simps demo_always_fails
  by (simp add: bits.Parse_String)

text \<open>C38: The back-off never overflows and never panics for a non-negative attempt number: it is
  \<open>2 ^ attempt\<close> seconds, capped at one hour.\<close>

theorem backoff_bounds:
  assumes "0 \<le> sint a"
  shows "\<exists>b. backoffFor a = Some b \<and> sint b = min (2 ^ nat (sint a) * second) hour \<and> second \<le> sint b"
proof -
  obtain b where b: "backoffFor a = Some b" "sint b = min (2 ^ nat (sint a) * second) hour"
    using backoffFor_eq [OF assms] by blast
  have "(1::int) \<le> 2 ^ nat (sint a)" by simp
  then have "second \<le> 2 ^ nat (sint a) * second" by (simp add: second_def)
  with b show ?thesis by (simp add: hour_def minute_def second_def)
qed

theorem backoff_bounds_witness:
  "\<exists>b. backoffFor 3 = Some b \<and> sint b = min (2 ^ nat (sint (3::i64)) * second) hour \<and> second \<le> sint b"
  by (rule backoff_bounds) simp

text \<open>C22: Entries due at some time leave the delayed set of a watched queue with the poller's ticks, one
  batch of a hundred per tick, so enough ticks leave none.\<close>

theorem poll_drains_due:
  assumes "redis_server R" and "r_net c = []" and "\<forall>t \<in> set ticks. T \<le> fst t" and "q \<in> set queues"
    and "length (due_at R c q T) \<le> 100 * length ticks"
  shows "due_at R (poll R queues ticks c) q T = []"
proof -
  have "1 \<le> count_list queues q" using assms(4) count_list_0_iff [of queues q] by linarith
  then have "100 * length ticks \<le> 100 * count_list queues q * length ticks" by simp
  with redis_server.poll_due [OF assms(1-3), of queues q] assms(5) show ?thesis by simp
qed

theorem poll_drains_due_witness:
  "due_at ref_redis (poll ref_redis [''default''] [(200 * second, False)] demo_delayed_conn) ''default'' (150 * second) = []"
  using poll_drains_due [of ref_redis demo_delayed_conn "[(200 * second, False)]" "150 * second" "''default''" "[''default'']"]
    ref_redis_server demo_delayed_net demo_delayed_length
  by (simp add: second_def)

text \<open>C39: What a worker's heartbeat does to the count of active workers, on any network. With \<open>b\<close> the last of its beats
  that reached Redis, the worker is counted until exactly thirty seconds after \<open>b\<close>, so through any two lost beats in a
  row and no longer; once its shutdown reaches Redis it is not counted at any time; when that request is lost it ages
  out like a worker that died. Whether any other worker is counted does not change, and the count the API reads is
  the number of keys that are live.\<close>

theorem heartbeat_keeps_alive:
  assumes "redis_server R" and "first # ticks = bs @ b # lost" and "fst (next_fault (snd b)) \<noteq> Lost_request"
    and "\<forall>l \<in> set lost. fst (next_fault (snd l)) = Lost_request"
    and "running = r_srv (beats R w (first # ticks) c)" and "stopped = r_srv (heartbeat R w first ticks stop c)"
  shows "(workerKeyPrefix @ w \<in> live_keys R running workerKeyPrefix t \<longleftrightarrow> t < fst b + 30 * second) \<and>
    (workerKeyPrefix @ w \<in> live_keys R stopped workerKeyPrefix t \<longleftrightarrow>
       fst (next_fault (snd stop)) = Lost_request \<and> t < fst b + 30 * second) \<and>
    live_keys R running workerKeyPrefix t - {workerKeyPrefix @ w} = live_keys R (r_srv c) workerKeyPrefix t - {workerKeyPrefix @ w} \<and>
    live_keys R stopped workerKeyPrefix t - {workerKeyPrefix @ w} = live_keys R (r_srv c) workerKeyPrefix t - {workerKeyPrefix @ w} \<and>
    (\<forall>r. CountActiveWorkers R \<lparr>r_srv = r, r_now = t, r_net = []\<rparr> =
       Some (\<lparr>r_srv = r, r_now = t, r_net = []\<rparr>, Inr (int (card (live_keys R r workerKeyPrefix t)))))"
proof -
  let ?k = "workerKeyPrefix @ w"
  have "filter (\<lambda>b. fst (next_fault (snd b)) \<noteq> Lost_request) (bs @ b # lost) =
      filter (\<lambda>b. fst (next_fault (snd b)) \<noteq> Lost_request) bs @ [b]"
    using assms(3,4) by (simp add: filter_False)
  then have own: "expires R running ?k = Some (fst b + WorkerTTL)"
    using redis_server.beats_expiry [OF assms(1), of w "bs @ b # lost" c] unfolding assms(5,2) by simp
  have others: "expires R running k = expires R (r_srv c) k" if "k \<noteq> ?k" for k
    unfolding assms(5) by (rule redis_server.beats_others [OF assms(1) that])
  have stop: "expires R stopped = (if fst (next_fault (snd stop)) = Lost_request then expires R running else (expires R running)(?k := None))"
    unfolding assms(5,6) by (rule redis_server.heartbeat_expiry [OF assms(1)])
  have "(?k \<in> live_keys R running workerKeyPrefix t \<longleftrightarrow> t < fst b + 30 * second) \<and>
    (?k \<in> live_keys R stopped workerKeyPrefix t \<longleftrightarrow> fst (next_fault (snd stop)) = Lost_request \<and> t < fst b + 30 * second)"
    using own stop by (simp add: live_keys_def WorkerTTL_def)
  moreover have "live_keys R running workerKeyPrefix t - {?k} = live_keys R (r_srv c) workerKeyPrefix t - {?k}"
    using others by (auto simp: live_keys_def)
  moreover have "live_keys R stopped workerKeyPrefix t - {?k} = live_keys R (r_srv c) workerKeyPrefix t - {?k}"
    using others stop by (auto simp: live_keys_def)
  ultimately show ?thesis using redis_server.CountActiveWorkers_live [OF assms(1)] by simp
qed

theorem heartbeat_keeps_alive_witness:
  "workerKeyPrefix @ ''w'' \<in> live_keys ref_redis (r_srv (beats ref_redis ''w'' [(0, []), (10 * second, [Lost_request]), (20 * second, [Lost_request])]
      demo_start_conn)) workerKeyPrefix (29 * second) \<and>
   workerKeyPrefix @ ''w'' \<notin> live_keys ref_redis (r_srv (beats ref_redis ''w'' [(0, []), (10 * second, [Lost_request]), (20 * second, [Lost_request])]
      demo_start_conn)) workerKeyPrefix (30 * second) \<and>
   workerKeyPrefix @ ''w'' \<notin> live_keys ref_redis (r_srv (heartbeat ref_redis ''w'' (0, []) [(10 * second, [Lost_request]), (20 * second, [Lost_request])]
      (21 * second, []) demo_start_conn)) workerKeyPrefix (22 * second)"
proof -
  note h = heartbeat_keeps_alive [OF ref_redis_server, of "(0, [])" "[(10 * second, [Lost_request]), (20 * second, [Lost_request])]" "[]" "(0, [])"
      "[(10 * second, [Lost_request]), (20 * second, [Lost_request])]" _ "''w''" demo_start_conn _ "(21 * second, [])", OF _ _ _ refl refl]
  from h [of "29 * second"] h [of "30 * second"] h [of "22 * second"] show ?thesis by (simp add: second_def del: beats.simps)
qed

section \<open>The work queue\<close>

text \<open>First in, first out: ids pushed onto an empty queue are popped in the order they were pushed.\<close>

theorem queue_is_fifo:
  assumes "redis_server R" and "r_net c = []" and "queued R c q = []"
  shows "snd (drain (\<lambda>c. pop_one R c q) (length xs) (fold (\<lambda>x c. fst (Enqueue R c q x)) xs c)) = xs"
  by (rule redis_server.Enqueue_drain [OF assms])

theorem queue_is_fifo_witness:
  "snd (drain (\<lambda>c. pop_one ref_redis c ''default'') (length [''a'', ''b''])
     (fold (\<lambda>x c. fst (Enqueue ref_redis c ''default'' x)) [''a'', ''b''] demo_start_conn)) = [''a'', ''b'']"
  by (rule queue_is_fifo [OF ref_redis_server])
    (simp_all add: demo_start_conn_def queued_def ref_redis_def empty_keyspace_def)

text \<open>C21: \<open>PromoteDue\<close> moves exactly the due entries, the longest due first and at most \<open>limit\<close> of them,
  to the work list behind what already waits there, and reports their number.\<close>

theorem promote_moves_due:
  assumes "redis_server R" and "r_net c = []" and "0 \<le> limit"
  shows "\<exists>ds. ds = take (nat limit) (due_at R c q now) \<and>
    snd (PromoteDue R c q now limit) = Inr (int (length ds)) \<and> sorted (map snd ds) \<and>
    queued R (fst (PromoteDue R c q now limit)) = (queued R c)(q := rev (map fst ds) @ queued R c q) \<and>
    delayed R (fst (PromoteDue R c q now limit)) =
      (delayed R c)(q := filter (\<lambda>e. fst e \<notin> fst ` set ds) (delayed R c q))"
proof -
  have d: "due_entries R c q now limit = take (nat limit) (due_at R c q now)"
    using assms(3) by (simp add: due_entries_def due_at_def limit_of_def)
  have "sorted (map snd (due_at R c q now))"
    using redis_server.zrange_order [OF assms(1)] by (simp add: due_at_def delayed_def sorted_filter)
  then have "sorted (map snd (take (nat limit) (due_at R c q now)))"
    by (simp add: sorted_wrt_take flip: take_map)
  with redis_server.PromoteDue_effect [OF assms(1,2), of q now limit] d show ?thesis by simp
qed

theorem promote_moves_due_witness:
  "\<exists>ds. ds = take (nat 100) (due_at ref_redis demo_delayed_conn ''default'' (150 * second)) \<and>
    snd (PromoteDue ref_redis demo_delayed_conn ''default'' (150 * second) 100) = Inr (int (length ds)) \<and> sorted (map snd ds) \<and>
    queued ref_redis (fst (PromoteDue ref_redis demo_delayed_conn ''default'' (150 * second) 100)) =
      (queued ref_redis demo_delayed_conn)(''default'' := rev (map fst ds) @ queued ref_redis demo_delayed_conn ''default'') \<and>
    delayed ref_redis (fst (PromoteDue ref_redis demo_delayed_conn ''default'' (150 * second) 100)) =
      (delayed ref_redis demo_delayed_conn)(''default'' :=
         filter (\<lambda>e. fst e \<notin> fst ` set ds) (delayed ref_redis demo_delayed_conn ''default''))"
  by (rule promote_moves_due [OF ref_redis_server demo_delayed_net]) simp

section \<open>The job store\<close>

text \<open>Of any number of attempts to claim a job, each at its own time and on its own network, at most
  one is told that it won; and when the job is pending and the first request gets through, that
  one wins.\<close>

theorem one_claim_wins:
  assumes "schema_ok (pg_db p)"
  shows "length (winners (claim_attempt k) as p) \<le> 1 \<and>
    (claimable k (pg_db p) \<longrightarrow> as \<noteq> [] \<longrightarrow> fst (next_fault (snd (hd as))) = Delivered \<longrightarrow>
       winners (claim_attempt k) as p = [hd as])"
  using job_claim.at_most_one [of p as k] job_claim.first_wins [of p "hd as" "tl as" k] assms
  by (cases as) (simp_all del: winners.simps)

theorem one_claim_wins_witness:
  "winners (claim_attempt 7) [(100 * second, []), (100 * second, [])] demo_admitted_pg = [(100 * second, [])]"
  using one_claim_wins [of demo_admitted_pg 7 "[(100 * second, []), (100 * second, [])]"] admitted_schema
  by (simp add: claimable_def del: winners.simps)

text \<open>C23: Non-interference between tenants: no sequence of look-ups, cancellations and retries by other
  tenants, on whatever ids, changes what a tenant's own look-up, cancellation or retry answers.\<close>

theorem tenants_do_not_interfere:
  assumes "schema_ok (pg_db p)" and "pg_net p = []" and "\<forall>c \<in> set cs. fst (snd c) \<noteq> t"
  shows "snd (tenant_call f (run_calls tenant_call cs p) t k) = snd (tenant_call f p t k)"
  by (rule api.noninterference [OF assms])

theorem tenants_do_not_interfere_witness:
  "snd (tenant_call Op_get (run_calls tenant_call [(Op_cancel, 2, 7), (Op_retry, 2, 7)] demo_admitted_pg) 1 7) =
   snd (tenant_call Op_get demo_admitted_pg 1 7)"
  by (rule tenants_do_not_interfere) (simp_all add: admitted_schema)

text \<open>\<open>DeadLetter\<close> is all or nothing on every network: either neither table changes, or the job is
  failed with its attempts and reason and its dead-letter row has the same attempts and reason;
  reported success means the latter.\<close>

theorem dead_letter_atomic:
  assumes "schema_ok (pg_db p)" and "job_of (pg_db p) k = Some j" and "DeadLetter p k n m = (p', r)"
  shows "(pg_db p' = pg_db p \<and> r \<noteq> Inr ()) \<or>
    (\<exists>j' x. job_of (pg_db p') k = Some j' \<and> job_Status j' = StatusFailed \<and> job_RetryCount j' = n \<and>
       job_ErrorMessage j' = Some m \<and> same_spec j' j \<and>
       dlq_of (pg_db p') k = Some x \<and> dlq_attempts x = n \<and> dlq_reason x = m \<and> schema_ok (pg_db p'))"
proof -
  have d: "\<exists>j' x. job_of (dead_db p k n m) k = Some j' \<and> job_Status j' = StatusFailed \<and> job_RetryCount j' = n \<and>
       job_ErrorMessage j' = Some m \<and> same_spec j' j \<and>
       dlq_of (dead_db p k n m) k = Some x \<and> dlq_attempts x = n \<and> dlq_reason x = m"
    using assms(2)
    by (auto simp: job_of_dead_db dlq_of_dead_db failed_def set_updated_at_def same_spec_def split: option.split)
  show ?thesis
    using DeadLetter_db [OF assms(1), of k n m] DeadLetter_ok [OF assms(1), of k n m p'] d
      DeadLetter_schema [OF assms(1), of k n m] assms(3)
    by (cases "r = Inr ()") auto
qed

theorem dead_letter_atomic_witness:
  "(pg_db (fst (DeadLetter demo_admitted_pg 7 1 ''boom'')) = pg_db demo_admitted_pg \<and>
      snd (DeadLetter demo_admitted_pg 7 1 ''boom'') \<noteq> Inr ()) \<or>
    (\<exists>j' x. job_of (pg_db (fst (DeadLetter demo_admitted_pg 7 1 ''boom''))) 7 = Some j' \<and>
       job_Status j' = StatusFailed \<and> job_RetryCount j' = 1 \<and> job_ErrorMessage j' = Some ''boom'' \<and> same_spec j' demo_row \<and>
       dlq_of (pg_db (fst (DeadLetter demo_admitted_pg 7 1 ''boom''))) 7 = Some x \<and> dlq_attempts x = 1 \<and>
       dlq_reason x = ''boom'' \<and> schema_ok (pg_db (fst (DeadLetter demo_admitted_pg 7 1 ''boom''))))"
  by (rule dead_letter_atomic) (simp_all add: admitted_schema)

text \<open>C35: The answer of \<open>CancelJob\<close> on a working database in each case: an own pending job is cancelled
  with its end stamped, an own job in another state is refused, any other id is not found; only
  in the first case does the table change.\<close>

theorem cancel_answers:
  assumes "schema_ok (pg_db p)" and "healthy p"
  shows "case own t (pg_db p) k of
      None \<Rightarrow> snd (CancelJob p t k) = Inl ErrJobNotFound \<and> pg_db (fst (CancelJob p t k)) = pg_db p
    | Some j \<Rightarrow>
        if job_Status j = StatusPending
        then (\<exists>j'. snd (CancelJob p t k) = Inr j' \<and> job_of (pg_db (fst (CancelJob p t k))) k = Some j' \<and>
               job_Status j' = StatusCancelled \<and> job_CompletedAt j' = Some (pg_now p))
        else snd (CancelJob p t k) = Inl ErrJobNotCancellable \<and> pg_db (fst (CancelJob p t k)) = pg_db p"
proof (cases "own t (pg_db p) k")
  case None
  then show ?thesis by (simp add: CancelJob_healthy [OF assms])
next
  case (Some j)
  note row = own_SomeD [OF Some]
  have "job_CompletedAt (set_updated_at t (cancelled t j)) = Some t" for t
    by (simp add: cancelled_def set_updated_at_def)
  with Some row(1,2) show ?thesis by (simp add: CancelJob_healthy [OF assms] Let_def job_of_put_job)
qed

theorem cancel_answers_witness:
  "\<exists>j'. snd (CancelJob demo_admitted_pg 1 7) = Inr j' \<and> job_of (pg_db (fst (CancelJob demo_admitted_pg 1 7))) 7 = Some j' \<and>
     job_Status j' = StatusCancelled \<and> job_CompletedAt j' = Some (100 * second)"
  using cancel_answers [of demo_admitted_pg 1 7] admitted_schema by (simp add: own_def demo_now)

text \<open>C36: The answer of \<open>RetryJob\<close> on a working database in each case: an own failed job is pending again
  with a fresh budget, nothing left of the failure and no dead-letter row; an own job in another
  state is refused, any other id is not found, and then nothing changes.\<close>

theorem retry_answers:
  assumes "schema_ok (pg_db p)" and "healthy p"
  shows "case own t (pg_db p) k of
      None \<Rightarrow> RetryJob p t k = (p, Inl ErrJobNotFound)
    | Some j \<Rightarrow>
        if job_Status j \<noteq> StatusFailed then RetryJob p t k = (p, Inl ErrJobNotRetryable)
        else (\<exists>p' j'. RetryJob p t k = (p', Inr j') \<and> job_of (pg_db p') k = Some j' \<and> dlq_of (pg_db p') k = None \<and>
               job_Status j' = StatusPending \<and> job_RetryCount j' = 0 \<and> job_ErrorMessage j' = None \<and>
               job_Result j' = None \<and> job_StartedAt j' = None \<and> job_CompletedAt j' = None \<and> same_spec j' j)"
proof -
  have p: "p\<lparr>pg_net := []\<rparr> = p" using assms(2) by (cases p) simp
  show ?thesis
  proof (cases "own t (pg_db p) k")
    case None
    with assms p show ?thesis by (simp add: RetryJob_def retry_tx_result)
  next
    case (Some j)
    note row = own_SomeD [OF Some]
    have "job_ErrorMessage (set_updated_at n (reset j)) = None \<and> job_Result (set_updated_at n (reset j)) = None \<and>
        job_StartedAt (set_updated_at n (reset j)) = None \<and> job_CompletedAt (set_updated_at n (reset j)) = None" for n
      by (simp add: reset_def set_updated_at_def)
    with Some row assms p show ?thesis
      by (simp add: RetryJob_def retry_tx_result tx_commit_healthy job_of_reset_db dlq_of_reset_db)
  qed
qed

theorem retry_answers_witness:
  "RetryJob demo_admitted_pg 1 7 = (demo_admitted_pg, Inl ErrJobNotRetryable) \<and>
   (\<exists>p p' j'. DeadLetter demo_admitted_pg 7 3 ''boom'' = (p, Inr ()) \<and> RetryJob p 1 7 = (p', Inr j') \<and>
      job_Status j' = StatusPending \<and> job_RetryCount j' = 0 \<and> dlq_of (pg_db p') 7 = None)"
proof -
  let ?p = "demo_admitted_pg\<lparr>pg_db := dead_db demo_admitted_pg 7 3 ''boom''\<rparr>"
  have up: "schema_ok (pg_db demo_admitted_pg)" "healthy demo_admitted_pg"
    using admitted_schema by (simp_all add: demo_admitted_pg_def demo_start_pg_def)
  then have d: "DeadLetter demo_admitted_pg 7 3 ''boom'' = (?p, Inr ())"
    by (intro DeadLetter_healthy) (simp_all add: int4_def demo_admitted_pg_def demo_start_pg_def)
  from DeadLetter_schema [OF up(1), of 7 3 "''boom''"] d have "schema_ok (pg_db ?p)" by simp
  moreover obtain j where "own 1 (pg_db ?p) 7 = Some j" "job_Status j = StatusFailed"
    by (simp add: own_def dead_db_def demo_admitted_pg_def job_of_put_job failed_def set_updated_at_def)
  ultimately show ?thesis
    using retry_answers [of ?p 1 7] retry_answers [OF up, of 1 7] up d by (auto simp: own_def demo_admitted_pg_def)
qed



section \<open>Producers\<close>

text \<open>A submitted job is the request with its defaults filled in, pending unless the producer chose a
  status, with no attempts made; when \<open>Submit\<close> reports success its id is the newest of its queue,
  and when only the push failed the row is there to recover from.\<close>

theorem submit_admits:
  assumes "Submit R U fresh p c job = (p', c', job', r)" and "r = Inr () \<or> r = Inl (ErrEnqueueAfterPersist e)"
  shows "job_of (pg_db p') (job_ID job') = Some job' \<and>
    job_TenantID job' = job_TenantID job \<and> job_TenantID job \<noteq> uuid_Nil \<and>
    job_ID job' = (if job_ID job = uuid_Nil then fresh else job_ID job) \<and>
    job_QueueName job' = (if job_QueueName job = [] then ''default'' else job_QueueName job) \<and>
    job_Status job' = (if job_Status job = [] then StatusPending else job_Status job) \<and> job_RetryCount job' = 0 \<and>
    (redis_server R \<longrightarrow> r = Inr () \<longrightarrow>
       queued R c' = (queued R c)(job_QueueName job' := uuid_String U (job_ID job') # queued R c (job_QueueName job')))"
proof -
  note ok = Submit_ok [OF assms]
  from ok(1) obtain payload where t: "job_TenantID job \<noteq> uuid_Nil" "job_of (pg_db p') (job_ID job') = Some job'"
    and j: "job' = inserted p (applyDefaults fresh job) payload" by blast
  have f: "job_TenantID job' = job_TenantID job"
    "job_ID job' = (if job_ID job = uuid_Nil then fresh else job_ID job)"
    "job_QueueName job' = (if job_QueueName job = [] then ''default'' else job_QueueName job)"
    "job_Status job' = (if job_Status job = [] then StatusPending else job_Status job)" "job_RetryCount job' = 0"
    unfolding j by (simp_all add: applyDefaults_fields)
  have "queued R c' = (queued R c)(job_QueueName job' := uuid_String U (job_ID job') # queued R c (job_QueueName job'))"
    if "redis_server R" "r = Inr ()"
    using ok(2) [OF that(2)] redis_server.lrange_lpush [OF that(1)] by (auto simp: queued_def fun_eq_iff)
  with t f show ?thesis by blast
qed

theorem submit_admits_witness:
  "job_of (pg_db demo_admitted_pg) 7 = Some demo_row \<and>
   queued ref_redis demo_admitted_conn = (queued ref_redis demo_start_conn)(''default'' :=
     uuid_String bits_uuid 7 # queued ref_redis demo_start_conn ''default'')"
  using submit_admits [OF start_Submit] ref_redis_server by simp

section \<open>From submission to the end of a job\<close>

text \<open>C4: From submission to result. On working services, a job submitted behind a backlog of \<open>n\<close> ids is completed by
  pass \<open>n + 1\<close> of a worker whose first non-empty queue it is, whatever the jobs in front of it do (succeed, fail, are
  gone or cannot be stored): its tenant then reads it with status completed and the handler's result, the job
  otherwise as submitted, its queue is empty and every other work list as it was.\<close>

theorem submitted_job_completes:
  assumes "redis_server (we_R E)" and "uuid_codec (we_U E)" and "reachable E cron s" and "sys_pc s w = Idle"
    and "healthy (sys_pg s)" and "r_net (sys_conn s) = []"
    and "job_Status job = []" and "Submit (we_R E) (we_U E) fresh (sys_pg s) (sys_conn s) job = (p, c, job', Inr ())"
    and "find (\<lambda>q. queued (we_R E) c q \<noteq> []) queues = Some (job_QueueName job')"
    and "length is = length (queued (we_R E) (sys_conn s) (job_QueueName job'))"
    and "Dispatch (we_f64 E) (wi_henv i) (we_registry E) (job_JobType job') (job_Payload job') = Inr r"
    and "pg_jsonb (sys_pg s) r = Some r'"
    and "t = consume E queues (is @ [i]) \<lparr>ws_pg = p, ws_conn = c, ws_metrics = m\<rparr>"
  shows "(\<exists>j. snd (GetJob (ws_pg t) (job_TenantID job) (job_ID job')) = Inr j \<and> job_Status j = StatusCompleted \<and>
      job_Result j = Some r' \<and> same_spec j job') \<and>
    queued (we_R E) (ws_conn t) = (queued (we_R E) (sys_conn s))(job_QueueName job' := [])"
proof -
  let ?R = "we_R E" and ?q = "job_QueueName job'" and ?x = "uuid_String (we_U E) (job_ID job')"
  let ?t0 = "\<lparr>ws_pg = p, ws_conn = c, ws_metrics = m\<rparr>" and ?s = "put_services p c s"
  note inv = reachable_inv [OF assms(1,3)] and sub = Submit_working [OF assms(1,5,6,8)]
  have p: "pg_net p = []" "pg_jsonb p r = Some r'" using assms(5,12) by (subst sub(1), simp)+
  have "inv E ?s" by (rule steps_inv [OF assms(1) Submit_path [OF assms(4,7,8)] inv])
  moreover have "?x \<notin> set (rev (queued ?R (sys_conn s) ?q))"
    using fresh_not_queued [OF inv assms(2) sub(4)] by simp
  ultimately obtain t1 d where go: "\<And>js. consume E queues (is @ js) ?t0 = consume E queues js t1"
    and t1: "ws_pg t1 = p\<lparr>pg_db := d\<rparr>" "schema_ok d" "job_of d (job_ID job') = Some job'" "r_net (ws_conn t1) = []"
    and q1: "queued ?R (ws_conn t1) = (queued ?R c)(?q := [?x])"
    using consume_reaches [OF assms(1,2), of ?s w ?t0 queues ?q "[]" "job_ID job'" "rev (queued ?R (sys_conn s) ?q)" "is"]
      assms(4,9,10) sub(2,3,5) p(1) by auto
  have f: "find (\<lambda>q. queued ?R (ws_conn t1) q \<noteq> []) queues = Some ?q"
    unfolding q1 by (rule find_shrunk [OF assms(9)]) simp
  have l: "queued ?R (ws_conn t1) ?q = [] @ [?x]" by (simp add: q1)
  obtain c1 where "queued ?R c1 = (queued ?R (ws_conn t1))(?q := [])" and "r_net c1 = []" and pass: "\<forall>i is t' r.
      process E i (t1\<lparr>ws_conn := c1\<rparr>) ?x = (t', r) \<longrightarrow> r \<noteq> Inl Panic \<longrightarrow> consume E queues (i # is) t1 = consume E queues is t'"
    by (rule consume_pass [OF assms(1) t1(4) f l])
  then have c1: "queued ?R c1 = (queued ?R (sys_conn s))(?q := [])" by (simp add: q1 sub(3))
  let ?t1 = "t1\<lparr>ws_conn := c1\<rparr>"
  obtain t' res where pr: "process E i ?t1 ?x = (t', res)" by force
  have ok: "schema_ok (pg_db (ws_pg ?t1))" "healthy (ws_pg ?t1)" "job_of (pg_db (ws_pg ?t1)) (job_ID job') = Some job'"
    "pg_jsonb (ws_pg ?t1) r = Some r'" using t1 p by simp_all
  note fin = process_success [OF uuid_codec.Parse_String [OF assms(2), of "job_ID job'"] ok(1-3) sub(7) [OF assms(7)] assms(11) ok(4), unfolded pr]
  have "t = t'" using pass pr fin(1) by (auto simp: assms(13) go simp del: consume.simps(2))
  moreover have "schema_ok (pg_db (ws_pg t'))" "healthy (ws_pg t')"
    using process_tallies [OF ok(1) pr] ok(2) by (simp_all add: tallies_def)
  moreover from fin(2) obtain j where "job_of (pg_db (ws_pg t')) (job_ID job') = Some j" "job_Status j = StatusCompleted"
    "job_Result j = Some r'" "same_spec j job'" by (auto simp: completed_def claimed_def set_updated_at_def same_spec_def)
  ultimately show ?thesis using fin(3) c1 sub(6) by (auto simp: GetJob_result own_def same_spec_def)
qed

theorem submitted_job_completes_witness:
  "\<exists>p c job'. Submit ref_redis bits_uuid 8 demo_admitted_pg demo_admitted_conn demo_request = (p, c, job', Inr ()) \<and> job_ID job' = 8 \<and>
     (\<exists>j. snd (GetJob (ws_pg (consume demo_env [''default''] [demo_pass, demo_pass] \<lparr>ws_pg = p, ws_conn = c, ws_metrics = NewWorker\<rparr>)) 1 8) =
        Inr j \<and> job_Status j = StatusCompleted \<and> job_Result j = Some (JObj []))"
proof -
  let ?row = "inserted demo_admitted_pg (applyDefaults 8 demo_request) (JObj [])"
  have st: "job_Status demo_request = []" "job_TenantID demo_request = 1" by (simp_all add: demo_request_def zero_job_def)
  have up: "healthy demo_admitted_pg" "r_net demo_admitted_conn = []" "pg_jsonb demo_admitted_pg r = Some r" for r
    by (simp_all add: demo_admitted_pg_def demo_start_pg_def demo_admitted_conn_def demo_start_conn_def)
  have "queued ref_redis demo_start_conn q = []" for q
    by (simp add: queued_def demo_start_conn_def ref_redis_def empty_keyspace_def)
  with Submit_working(3) [OF ref_redis_server _ _ start_Submit]
  have backlog: "queued ref_redis demo_admitted_conn ''default'' = [uuid_String bits_uuid 7]"
    by (simp add: demo_start_pg_def demo_start_conn_def)
  have "CreateJob demo_admitted_pg (applyDefaults 8 demo_request) =
      (demo_admitted_pg\<lparr>pg_db := demo_start_db\<lparr>jobs := [demo_row, ?row]\<rparr>\<rparr>, Inr ?row)"
    by (simp add: CreateJob_def exec_healthy insert_job_def applyDefaults_fields demo_start_pg_def demo_start_db_def demo_acme_def
      demo_request_def zero_job_def int4_def demo_admitted_pg_def inserted_def Let_def)
  then obtain p c where s: "Submit ref_redis bits_uuid 8 demo_admitted_pg demo_admitted_conn demo_request = (p, c, ?row, Inr ())"
    using up(2) st by (simp add: Submit_def applyDefaults_fields Enqueue_def redis_do_healthy Let_def)
  have row: "job_ID ?row = 8" "job_QueueName ?row = ''default''" "job_JobType ?row = ''echo''" "job_Payload ?row = Some (JObj [])"
    by (simp_all add: inserted_def applyDefaults_fields demo_request_def zero_job_def)
  have "find (\<lambda>q. queued ref_redis c q \<noteq> []) [''default''] = Some ''default''"
    using Submit_working(3) [OF ref_redis_server up(1,2) s] row(2) by simp
  with submitted_job_completes [of demo_env demo_every_minute demo_admitted 0 demo_request 8 p c ?row "[''default'']" "[demo_pass]" demo_pass
      "JObj []" "JObj []" _ NewWorker] s row st up backlog demo_dispatch ref_redis_server bits.uuid_codec_axioms admitted_reachable admitted_idle
  show ?thesis by (intro exI [of _ p] exI [of _ c] exI [of _ ?row]) auto
qed

text \<open>C6: A failing job comes back until its budget is used, and then is gone from Redis. A worker that alternates a pass
  of its consume loop with a tick of its poller, each tick at least the maximal back-off after the pass, brings the
  id back from the delayed set to its list after every attempt below the budget, with the attempts counted; with the
  last attempt the job is dead-lettered, and neither a list nor a delayed set holds anything, however often the worker
  goes on.\<close>

theorem retries_come_back:
  assumes "redis_server (we_R E)" and "uuid_codec (we_U E)" and "schema_ok (pg_db (ws_pg t))" and "healthy (ws_pg t)"
    and "job_of (pg_db (ws_pg t)) k = Some j" and "job_Status j = StatusPending" and "job_RetryCount j = 0"
    and "job_QueueName j \<in> set queues" and "always_fails E j (map fst rs)" and "\<And>e. pg_text_ok (ws_pg t) (we_Error E e)"
    and "\<forall>(i, T) \<in> set rs. wi_now i + hour \<le> T"
    and "only_job (we_R E) (ws_conn t) (job_QueueName j) (uuid_String (we_U E) k)"
    and "t' = worker_turns E queues wid (retry_rounds rs) t"
  shows "if int (length rs) < max 1 (job_MaxRetries j)
    then waiting_after (pg_db (ws_pg t')) k (int (length rs)) \<and> only_job (we_R E) (ws_conn t') (job_QueueName j) (uuid_String (we_U E) k)
    else dead_after (pg_db (ws_pg t')) k (max 1 (job_MaxRetries j)) \<and> no_jobs (we_R E) (ws_conn t')"
proof -
  have b: "0 \<le> job_RetryCount j" "job_RetryCount j < budget j" "budget j = max 1 (job_MaxRetries j)" using assms(7) by (simp_all add: budget_def)
  note r = rounds_failing [OF assms(1,2) refl assms(3-6) b(1,2) assms(8-13), unfolded assms(7) b(3) add_0]
  note p = passes_failing [OF uuid_codec.Parse_String [OF assms(2)] assms(3-6) b(1,2) assms(9,10), unfolded assms(7) b(3) add_0 length_map]
  from r p show ?thesis by auto
qed

theorem retries_come_back_witness:
  "dead_after (pg_db (ws_pg (worker_turns demo_env [''default''] ''w1''
      (retry_rounds (replicate 3 (demo_pass, 100 * second + hour))) demo_failing))) 7 3"
proof -
  have "queued ref_redis demo_start_conn = (\<lambda>_. [])" "delayed ref_redis demo_start_conn = (\<lambda>_. [])"
    by (simp_all add: fun_eq_iff queued_def delayed_def demo_start_conn_def ref_redis_def empty_keyspace_def zset_order_def)
  then have "only_job ref_redis (ws_conn demo_failing) ''default'' (uuid_String bits_uuid 7)"
    by (simp add: only_job_def demo_failing_def demo_worker_def demo_admitted_conn_def queued_def delayed_def fun_eq_iff ref.lrange_lpush ref.zrange_lpush demo_start_conn_def)
  with retries_come_back [of demo_env demo_failing 7 "demo_row\<lparr>job_JobType := ''always_fail''\<rparr>" "[''default'']"
      "replicate 3 (demo_pass, 100 * second + hour)" _ "''w1''", OF _ _ _ _ _ _ _ _ _ _ _ _ refl]
    demo_failing_simps demo_always_fails ref_redis_server bits.uuid_codec_axioms
  show ?thesis by (auto simp: demo_pass_def split: if_splits)
qed

section \<open>The scheduler\<close>

text \<open>C19: At most once: of any number of schedulers that fire the same due run, with any clocks and networks, at most
  one gets to create the job, provided that the schedule's own expression has an activation after each of their
  clocks (the other case is the property on past next runs); and when the run is due and the first scheduler's claim
  gets through, it is that one.\<close>

theorem one_scheduler_fires:
  assumes "schema_ok (pg_db (fst s))"
    and "\<forall>a \<in> set as. sched_NextRunAt sc \<le> fst a \<and> fires_later cron (sched_CronExpression sc) (fst a)"
  shows "length (winners (fire_attempt R U cron sc) as s) \<le> 1 \<and>
    (runnable (sched_ID sc) (sched_NextRunAt sc) (pg_db (fst s)) \<longrightarrow> as \<noteq> [] \<longrightarrow>
     fst (next_fault (fst (snd (snd (hd as))))) = Delivered \<longrightarrow> winners (fire_attempt R U cron sc) as s = [hd as])"
proof -
  have fair: "\<forall>a \<in> set as. \<forall>nxt. cron (sched_CronExpression sc) = Some nxt \<longrightarrow> nxt (fst a) \<noteq> sched_NextRunAt sc"
    using assms(2) by (fastforce simp: fires_later_def)
  show ?thesis
  proof (cases as)
    case Nil
    then show ?thesis by simp
  next
    case (Cons a bs)
    then have "cron (sched_CronExpression sc) \<noteq> None" using assms(2) by (auto simp: fires_later_def split: option.splits)
    moreover from fair Cons have "\<forall>x \<in> set (a # bs). \<forall>nxt. cron (sched_CronExpression sc) = Some nxt \<longrightarrow> nxt (fst x) \<noteq> sched_NextRunAt sc"
      by blast
    ultimately show ?thesis
      using fire.at_most_one [OF assms(1), of as cron sc R U] fire.first_wins [OF assms(1), of a bs cron sc R U] fair Cons
      by (simp del: winners.simps)
  qed
qed

theorem one_scheduler_fires_witness:
  "winners (fire_attempt ref_redis bits_uuid demo_every_minute demo_nightly)
     [(100 * second, 8, [], []), (101 * second, 9, [], [])] (demo_start_pg, demo_start_conn) = [(100 * second, 8, [], [])]"
  using one_scheduler_fires [where s = "(demo_start_pg, demo_start_conn)" and cron = demo_every_minute and sc = demo_nightly
      and as = "[(100 * second, 8, [], []), (101 * second, 9, [], [])]" and R = ref_redis and U = bits_uuid]
    start_schema demo_fires_later
  by (simp add: demo_start_pg_def demo_nightly_def demo_start_db_def runnable_def second_def del: winners.simps)

text \<open>C20: One pass on a working database clears the board, whatever the cron package answers: each schedule that was due
  and parses has its last run and the package's answer for its next run recorded, and every other schedule is
  unchanged. So afterwards an enabled schedule is due at that time exactly when it was due before and its expression
  does not parse or has no activation after that time.\<close>

theorem pass_clears_due:
  assumes "schema_ok (pg_db p)" and "healthy p"
    and "handleSchedules R U cron (\<lambda>_. False) fresh now p c = (p', c', rs)"
  shows "(\<forall>k. sched_of (pg_db p') k =
       map_option (\<lambda>sc. if sched_Enabled sc \<and> sched_NextRunAt sc \<le> now then ran cron now sc else sc) (sched_of (pg_db p) k)) \<and>
    (\<forall>k. (\<exists>sc. sched_of (pg_db p') k = Some sc \<and> sched_Enabled sc \<and> sched_NextRunAt sc \<le> now) \<longleftrightarrow>
       (\<exists>sc. sched_of (pg_db p) k = Some sc \<and> sched_Enabled sc \<and> sched_NextRunAt sc \<le> now \<and>
          \<not> fires_later cron (sched_CronExpression sc) now))"
proof -
  note rows = handleSchedules_rows(2) [OF assms]
  have "sched_Enabled (ran cron now sc) = sched_Enabled sc" for sc by (simp add: ran_def split: option.split)
  moreover have "sched_NextRunAt (ran cron now sc) \<le> now \<longleftrightarrow> \<not> fires_later cron (sched_CronExpression sc) now"
    if "sched_NextRunAt sc \<le> now" for sc using that by (auto simp: ran_def fires_later_def split: option.split)
  ultimately have "(\<exists>sc. map_option (\<lambda>sc. if sched_Enabled sc \<and> sched_NextRunAt sc \<le> now then ran cron now sc else sc) x = Some sc \<and>
      sched_Enabled sc \<and> sched_NextRunAt sc \<le> now) \<longleftrightarrow>
    (\<exists>sc. x = Some sc \<and> sched_Enabled sc \<and> sched_NextRunAt sc \<le> now \<and> \<not> fires_later cron (sched_CronExpression sc) now)" for x
    by (cases x) auto
  with rows show ?thesis by simp
qed

theorem pass_clears_due_witness:
  "sched_of (pg_db (fst (handleSchedules ref_redis bits_uuid demo_every_minute (\<lambda>_. False) (\<lambda>i. 8) (100 * second)
      demo_start_pg demo_start_conn))) 5 = Some (ran demo_every_minute (100 * second) demo_nightly) \<and>
   \<not> (\<exists>sc. sched_of (pg_db (fst (handleSchedules ref_redis bits_uuid demo_every_minute (\<lambda>_. False) (\<lambda>i. 8) (100 * second)
      demo_start_pg demo_start_conn))) 5 = Some sc \<and> sched_Enabled sc \<and> sched_NextRunAt sc \<le> 100 * second)"
proof -
  obtain p' c' rs where h: "handleSchedules ref_redis bits_uuid demo_every_minute (\<lambda>_. False) (\<lambda>i. 8) (100 * second)
      demo_start_pg demo_start_conn = (p', c', rs)" by (metis prod.collapse)
  have "schema_ok (pg_db demo_start_pg)" by (simp add: demo_start_simps start_schema)
  note pass = pass_clears_due [OF this demo_start_simps(2) h, THEN conjunct1, THEN spec, of 5]
    pass_clears_due [OF this demo_start_simps(2) h, THEN conjunct2, THEN spec, of 5]
  have "sched_of (pg_db demo_start_pg) 5 = Some demo_nightly" "sched_Enabled demo_nightly" "sched_NextRunAt demo_nightly \<le> 100 * second"
    "fires_later demo_every_minute (sched_CronExpression demo_nightly) (100 * second)"
    using demo_fires_later by (simp_all add: demo_start_simps demo_start_db_def demo_nightly_def second_def)
  with pass(1) pass(2) show ?thesis unfolding h fst_conv by simp
qed

text \<open>C40: When an expression has no later activation. The cron package answers the zero time when an expression
  never fires again (30 February); the scheduler stores it as the next run, so the schedule is
  due at once and every later pass claims a run of it again.\<close>

theorem past_next_run_fires_again:
  assumes "schema_ok (pg_db p)" and "healthy p" and "sched_of (pg_db p) (sched_ID sc) = Some sc" and "sched_Enabled sc"
    and "cron (sched_CronExpression sc) = Some nxt" and "nxt now \<le> now'"
    and "fireSchedule R U cron fresh now sc p c = (p', c', r)"
  shows "claimed_run r \<and> (\<exists>sc' p'' c'' r'. sched_of (pg_db p') (sched_ID sc) = Some sc' \<and> sched_Enabled sc' \<and>
     sched_NextRunAt sc' \<le> now' \<and> fireSchedule R U cron fresh' now' sc' p' c' = (p'', c'', r') \<and> claimed_run r')"
proof -
  have del: "fst (next_fault (pg_net q)) = Delivered" if "healthy q" for q using that by simp
  note first = fireSchedule_schedules(3) [OF assms(7,1,5)]
  let ?sc = "ran cron now sc"
  have row: "sched_of (pg_db p') (sched_ID sc) = Some ?sc" and ok: "schema_ok (pg_db p')"
    using fireSchedule_row(1) [OF assms(7,1,2,3,4), of "sched_ID sc"] fireSchedule_row(2) [OF assms(7,1,2,3,4)] by simp_all
  have sc': "sched_ID ?sc = sched_ID sc" "sched_Enabled ?sc" "sched_CronExpression ?sc = sched_CronExpression sc"
    "sched_NextRunAt ?sc = nxt now"
    using assms(4,5) by (simp_all add: ran_def)
  obtain p'' c'' r' where f: "fireSchedule R U cron fresh' now' ?sc p' c' = (p'', c'', r')" by (metis prod.collapse)
  have "cron (sched_CronExpression ?sc) = Some nxt" using sc'(3) assms(5) by simp
  from fireSchedule_schedules(3) [OF f ok this] have "claimed_run r'"
    using del [OF fireSchedule_net [OF assms(7,2)]] row sc' by (simp add: runnable_def)
  moreover have "claimed_run r" using first del [OF assms(2)] assms(3,4) by (simp add: runnable_def)
  ultimately show ?thesis using row sc' assms(6) f by auto
qed

theorem past_next_run_fires_again_witness:
  "\<exists>p' c' r. fireSchedule ref_redis bits_uuid (\<lambda>_. Some (\<lambda>_. 0)) 8 (100 * second) demo_nightly demo_start_pg demo_start_conn =
       (p', c', r) \<and> claimed_run r \<and> (\<exists>sc' p'' c'' r'. sched_of (pg_db p') (sched_ID demo_nightly) = Some sc' \<and> sched_Enabled sc' \<and>
     sched_NextRunAt sc' \<le> 160 * second \<and>
     fireSchedule ref_redis bits_uuid (\<lambda>_. Some (\<lambda>_. 0)) 9 (160 * second) sc' p' c' = (p'', c'', r') \<and> claimed_run r')"
proof -
  obtain p' c' r where f: "fireSchedule ref_redis bits_uuid (\<lambda>_. Some (\<lambda>_. 0)) 8 (100 * second) demo_nightly
      demo_start_pg demo_start_conn = (p', c', r)" by (metis prod.collapse)
  have d: "schema_ok (pg_db demo_start_pg)" "sched_of (pg_db demo_start_pg) (sched_ID demo_nightly) = Some demo_nightly"
    "sched_Enabled demo_nightly" "(0::time) \<le> 160 * second"
    using start_schema by (simp_all add: demo_start_simps demo_start_db_def demo_nightly_def second_def)
  from past_next_run_fires_again [OF d(1) demo_start_simps(2) d(2,3) refl d(4) f, of 9] f show ?thesis by blast
qed

section \<open>Handlers\<close>

text \<open>Wiring the built-in handlers does not panic, and the registry it gives knows exactly the four job
  types; a job of any other type fails in \<open>Dispatch\<close> without a handler being run.\<close>

theorem default_registry_types:
  "\<exists>r. DefaultRegistry = Some r \<and> Types r = [''always_fail'', ''echo'', ''export_pdf'', ''send_email''] \<and>
     (\<forall>t f64 env payload. t \<notin> set (Types r) \<longrightarrow> Dispatch f64 env r t payload = Inl (No_handler t))"
  by (auto simp: DefaultRegistry_eq Types_def Dispatch_def Get_def)

theorem default_registry_types_witness:
  "\<exists>r. DefaultRegistry = Some r \<and> Dispatch Some (wi_henv demo_pass) r ''sms'' None = Inl (No_handler ''sms'')"
proof -
  obtain r where r: "DefaultRegistry = Some r" "Types r = [''always_fail'', ''echo'', ''export_pdf'', ''send_email'']"
    and d: "\<And>t f64 env payload. t \<notin> set (Types r) \<Longrightarrow> Dispatch f64 env r t payload = Inl (No_handler t)"
    using default_registry_types by blast
  have "''sms'' \<notin> set (Types r)" by (simp add: r(2))
  from d [OF this, of Some "wi_henv demo_pass" None] r(1) show ?thesis by blast
qed

end
